(* ===== verification/Garmr_Prelude.thy ===== *)
theory Garmr_Prelude
  imports Main "HOL-Library.Word" "HOL-Library.Monad_Syntax"
begin

text \<open>
  The shared vocabulary of the development: Rust's machine integers as words, byte strings, the
  parts of Rust's string API the sources call (on UTF-8 bytes), results as sums, and the interface
  of a \<^emph>\<open>prefix code\<close>, the contract every length-framed encoder of the program keeps.

  A Rust \<open>String\<close> is a \<open>string\<close> whose characters are its UTF-8 bytes; a \<open>Vec<u8>\<close> is a list of
  8-bit words; \<open>u64\<close> is a 64-bit word, with wrapping arithmetic as in the release profile; an \<open>i64\<close> that is only
  compared is an \<open>int\<close>; a \<open>Result<T, E>\<close> is \<open>E + T\<close>.
\<close>

unbundle bit_operations_syntax

named_theorems frame_inj \<open>cancellation rules of the length-framed encoders\<close>
named_theorems io_split \<open>case splits of the effectful operations\<close>

type_synonym u8 = "8 word"
type_synonym u16 = "16 word"
type_synonym u32 = "32 word"
type_synonym u64 = "64 word"
type_synonym bytes = "8 word list"

section \<open>Results\<close>

abbreviation Err :: "'e \<Rightarrow> 'e + 'a" where
  "Err \<equiv> Inl"

abbreviation Ok :: "'a \<Rightarrow> 'e + 'a" where
  "Ok \<equiv> Inr"

definition is_ok :: "'e + 'a \<Rightarrow> bool" where
  "is_ok r = (case r of Inl _ \<Rightarrow> False | Inr _ \<Rightarrow> True)"

lemma is_ok_simps [simp]: "is_ok (Inr x)" "\<not> is_ok (Inl e)"
  by (simp_all add: is_ok_def)

lemma is_okE: "is_ok r \<Longrightarrow> (\<And>x. r = Inr x \<Longrightarrow> P) \<Longrightarrow> P"
  by (cases r) simp_all

section \<open>Bytes\<close>

definition str_bytes :: "string \<Rightarrow> bytes" where
  "str_bytes s = map of_char s"

definition le_bytes :: "nat \<Rightarrow> 'a::len word \<Rightarrow> bytes" where
  "le_bytes n w = map (\<lambda>i. ucast (drop_bit (8 * i) w)) [0..<n]"

lemma length_str_bytes [simp]: "length (str_bytes s) = length s"
  by (simp add: str_bytes_def)

lemma length_le_bytes [simp]: "length (le_bytes n w) = n"
  by (simp add: le_bytes_def)

lemma of_char_u8_inj: "of_char c = (of_char d :: u8) \<longleftrightarrow> c = d"
proof
  assume "of_char c = (of_char d :: u8)"
  then have "unat (of_nat (of_char c) :: u8) = unat (of_nat (of_char d) :: u8)"
    by (simp only: of_nat_of_char)
  then have "(of_char c :: nat) mod 256 = of_char d mod 256"
    by (simp add: unat_of_nat)
  then show "c = d" by simp
qed simp

lemma str_bytes_inj [simp]: "str_bytes s = str_bytes t \<longleftrightarrow> s = t"
  by (auto simp: str_bytes_def list.inj_map inj_def of_char_u8_inj dest!: map_injective)

lemma str_bytes_empty [simp]: "str_bytes [] = []"
  by (simp add: str_bytes_def)

text \<open>The little-endian bytes of a word determine it.\<close>

lemma le_bytes_inj:
  fixes v w :: "'a::len word"
  assumes "LENGTH('a) = 8 * n"
  shows "le_bytes n v = le_bytes n w \<longleftrightarrow> v = w"
proof
  assume eq: "le_bytes n v = le_bytes n w"
  show "v = w"
  proof (rule bit_eqI)
    fix k
    assume "possible_bit TYPE('a word) k"
    then have k: "k < 8 * n" by (simp add: assms)
    then have "k div 8 < n" by auto
    with eq have "(ucast (drop_bit (8 * (k div 8)) v) :: u8) = ucast (drop_bit (8 * (k div 8)) w)"
      by (simp add: le_bytes_def list_eq_iff_nth_eq)
    then have "bit (ucast (drop_bit (8 * (k div 8)) v) :: u8) (k mod 8)
             = bit (ucast (drop_bit (8 * (k div 8)) w) :: u8) (k mod 8)" by simp
    then show "bit v k = bit w k"
      by (simp add: bit_simps)
  qed
qed simp

lemmas le_bytes_inj_widths [simp] =
  le_bytes_inj [where 'a = 256 and n = 32, simplified]
  le_bytes_inj [where 'a = 64 and n = 8, simplified]
  le_bytes_inj [where 'a = 32 and n = 4, simplified]
  le_bytes_inj [where 'a = 16 and n = 2, simplified]

section \<open>Prefix codes\<close>

text \<open>
  An encoder writes a value in front of whatever follows. It is a prefix code on a domain when the
  encoding and the rest can be told apart: equal streams have equal heads and equal tails. The
  canonical encodings of the program (audit records, checkpoints, registry frames) are built from
  such encoders, and everything the program derives from them (a hash commits to every field)
  rests on this law.
\<close>

locale prefix_code =
  fixes enc :: "'a \<Rightarrow> bytes" and ok :: "'a \<Rightarrow> bool"
  assumes cancel: "ok x \<Longrightarrow> ok y \<Longrightarrow> enc x @ s = enc y @ t \<longleftrightarrow> x = y \<and> s = t"
begin

lemma enc_inj: "ok x \<Longrightarrow> ok y \<Longrightarrow> enc x = enc y \<longleftrightarrow> x = y"
  using cancel [of x y "[]" "[]"] by simp

text \<open>A presence byte in front makes a prefix code for optional values.\<close>

lemma option_cancel:
  assumes "pred_option ok x" and "pred_option ok y"
  shows "(case x of None \<Rightarrow> [0] | Some a \<Rightarrow> 1 # enc a) @ s
       = (case y of None \<Rightarrow> [0] | Some a \<Rightarrow> 1 # enc a) @ t \<longleftrightarrow> x = y \<and> s = t"
  using assms by (auto split: option.splits simp: cancel)

text \<open>So does a known number of consecutive values.\<close>

lemma concat_cancel:
  assumes "list_all ok xs" and "list_all ok ys" and "length xs = length ys"
  shows "concat (map enc xs) @ s = concat (map enc ys) @ t \<longleftrightarrow> xs = ys \<and> s = t"
  using assms(3,1,2) by (induction xs ys rule: list_induct2) (auto simp: cancel)

end

text \<open>Fixed-width injective encoders are prefix codes.\<close>

lemma fixed_width_cancel:
  assumes "length (f x) = length (f y)" and "f x = f y \<longleftrightarrow> x = y"
  shows "f x @ s = f y @ t \<longleftrightarrow> x = y \<and> s = t"
  using assms by auto

interpretation u256_code: prefix_code "le_bytes 32 :: 256 word \<Rightarrow> bytes" "\<lambda>_. True"
  by unfold_locales (rule fixed_width_cancel; simp)

interpretation u64_code: prefix_code "le_bytes 8 :: u64 \<Rightarrow> bytes" "\<lambda>_. True"
  by unfold_locales (rule fixed_width_cancel; simp)

interpretation u32_code: prefix_code "le_bytes 4 :: u32 \<Rightarrow> bytes" "\<lambda>_. True"
  by unfold_locales (rule fixed_width_cancel; simp)

interpretation u16_code: prefix_code "le_bytes 2 :: u16 \<Rightarrow> bytes" "\<lambda>_. True"
  by unfold_locales (rule fixed_width_cancel; simp)

end
