(* ===== verification/Audit_Record.thy ===== *)
theory Audit_Record
  imports Garmr_Prelude
begin

text \<open>
  The audit envelope of \<open>crates/garmr-audit/src/event.rs\<close> and the content policy of
  \<open>content.rs\<close>: the closed enumerations, the record, its builder, and the rule that drops raw content
  in the digest-only modes.

  A \<open>Digest\<close> (\<open>[u8; 32]\<close>) is a 256-bit word whose little-endian bytes are the array; so is a public key.
  \<open>DateTime<Utc>\<close> is a count of seconds and a sub-second nanosecond count. BLAKE3, Ed25519, hex and
  serde are code outside the repository and appear as the record \<open>ext\<close> of functions, an
  argument of every definition that calls them.
\<close>

section \<open>Value types\<close>

type_synonym digest = "256 word"
type_synonym pubkey = "256 word"

definition digest_zero :: digest where
  "digest_zero = 0"

definition digest_bytes :: "digest \<Rightarrow> bytes" where
  "digest_bytes d = le_bytes 32 d"

datatype sig = Sig bytes

primrec sig_bytes :: "sig \<Rightarrow> bytes" where
  "sig_bytes (Sig b) = b"

text \<open>\<open>dt_nanos\<close> is below \<open>2 * 10 ^ 9\<close> (chrono represents a leap second by a value of \<open>10 ^ 9\<close> or more).\<close>

record datetime =
  dt_secs :: int
  dt_nanos :: nat

datatype actor_type = AT_Human | AT_Agent | AT_Executor | AT_System | AT_Collector | AT_Service | AT_Unknown

datatype outcome = OC_Success | OC_Failure | OC_Denied | OC_Error | OC_Pending

datatype policy_verdict = PD_Allowed | PD_Denied | PD_NotApplicable

datatype data_classification = DC_Public | DC_Internal | DC_Confidential | DC_Restricted | DC_Secret

datatype content_mode = CM_Off | CM_DigestOnly | CM_Redacted | CM_Encrypted | CM_Full

text \<open>The named action identifiers, as (constant, value).\<close>

definition action_ids :: "(string \<times> string) list" where
  "action_ids = [
    (''AUTH_LOGIN'', ''auth.login''),
    (''AUTH_LOGIN_FAILED'', ''auth.login_failed''),
    (''AUTH_LOGOUT'', ''auth.logout''),
    (''PASSKEY_REGISTER'', ''auth.passkey_register''),
    (''PASSKEY_REVOKE'', ''auth.passkey_revoke''),
    (''PASSKEY_RENAME'', ''auth.passkey_rename''),
    (''SESSION_REVOKE_ALL'', ''auth.session_revoke_all''),
    (''CREDENTIAL_ISSUE'', ''auth.credential_issue''),
    (''CREDENTIAL_ROTATE'', ''auth.credential_rotate''),
    (''CREDENTIAL_REVOKE'', ''auth.credential_revoke''),
    (''SECRET_SET'', ''secret.set''),
    (''SECRET_ROTATE'', ''secret.rotate''),
    (''SECRET_REMOVE'', ''secret.remove''),
    (''CONFIG_APPLY'', ''config.apply''),
    (''CONFIG_ROLLBACK'', ''config.rollback''),
    (''RECOVERY_ADMIN'', ''recovery.admin_issued''),
    (''AUTHZ_DENIED'', ''authz.denied''),
    (''QUERY'', ''data.query''),
    (''SEARCH_SENSITIVE'', ''data.search_sensitive''),
    (''EXPORT'', ''data.export''),
    (''RETENTION_EXPIRE'', ''retention.expire''),
    (''RETENTION_LEGAL_HOLD'', ''retention.legal_hold''),
    (''DATA_ERASE'', ''data.erase''),
    (''CASE_ASSIGN'', ''case.assign''),
    (''CASE_COMMENT'', ''case.comment''),
    (''CASE_TAG'', ''case.tag''),
    (''CASE_LINK'', ''case.link''),
    (''RULE_PROPOSE'', ''rule.propose''),
    (''RULE_DECIDE'', ''rule.decide''),
    (''THRESHOLD_PROPOSE'', ''threshold.propose''),
    (''THRESHOLD_DECIDE'', ''threshold.decide''),
    (''PROMPT_PROPOSE'', ''prompt.propose''),
    (''PROMPT_DECIDE'', ''prompt.decide''),
    (''MODEL_REGISTER'', ''model.register''),
    (''MODEL_PROMOTE'', ''model.promote''),
    (''TOOLSET_REGISTER'', ''toolset.register''),
    (''TOOLSET_PROMOTE'', ''toolset.promote''),
    (''DATASET_PROMOTE'', ''dataset.promote''),
    (''RELEASE_REGISTER'', ''release.register''),
    (''RELEASE_PROMOTE'', ''release.promote''),
    (''FEATURE_REGISTER'', ''feature.register''),
    (''FEATURE_PROMOTE'', ''feature.promote''),
    (''POLICY_REGISTER'', ''policy.register''),
    (''POLICY_PROMOTE'', ''policy.promote''),
    (''CATALOG_REGISTER'', ''catalog.register''),
    (''CATALOG_PROMOTE'', ''catalog.promote''),
    (''APPLICATION_REGISTER'', ''application.register''),
    (''APPLICATION_PROMOTE'', ''application.promote''),
    (''RESOURCE_REGISTER'', ''resource.register''),
    (''RESOURCE_PROMOTE'', ''resource.promote''),
    (''MONITORING_REGISTER'', ''monitoring.register''),
    (''MONITORING_PROMOTE'', ''monitoring.promote''),
    (''CONFIG_RELOAD'', ''appaudit.config_reload''),
    (''FEEDBACK'', ''feedback.record''),
    (''PREDICTION'', ''prediction.record''),
    (''DECISION'', ''decision.record''),
    (''OUTCOME'', ''incident.outcome''),
    (''FALSE_NEGATIVE'', ''feedback.false_negative''),
    (''MISTAKE'', ''mistake.record''),
    (''DATASET_CREATE'', ''dataset.create''),
    (''TRAIN_RUN'', ''learning.train''),
    (''EVAL_RUN'', ''learning.eval''),
    (''INGEST_AUTH_DENIED'', ''ingest.auth_denied''),
    (''INGEST_SOURCE_DENIED'', ''ingest.source_denied''),
    (''INGEST_SEQ_ANOMALY'', ''ingest.seq_anomaly''),
    (''LESSON_PROPOSE'', ''lesson.propose''),
    (''LESSON_PROMOTE'', ''lesson.promote''),
    (''ACTION_PROPOSE'', ''response.propose''),
    (''ACTION_DECIDE'', ''response.decide''),
    (''ACTION_EXECUTE'', ''response.execute''),
    (''SILENCE'', ''alert.silence''),
    (''CONFIG_CHANGE'', ''config.change''),
    (''BUNDLE_IMPORT'', ''bundle.import''),
    (''BACKUP'', ''ha.backup''),
    (''RESTORE'', ''ha.restore''),
    (''HA_PROMOTE'', ''ha.promote''),
    (''MCP_REGISTER'', ''mcp.register''),
    (''MCP_CALL'', ''mcp.call''),
    (''EGRESS_DECISION'', ''egress.decision''),
    (''AUDIT_VERIFY_FAILED'', ''audit.verify_failed''),
    (''ENV_OBSERVE'', ''env.observe''),
    (''ENV_PROMOTE'', ''env.promote''),
    (''ENV_APPROVE'', ''env.approve''),
    (''ENV_DEMOTE'', ''env.demote''),
    (''ENV_RETIRE'', ''env.retire''),
    (''ENV_IMPORT'', ''env.import''),
    (''ENV_CHANGE_WINDOW'', ''env.change_window''),
    (''ENV_PROMOTE_DENIED'', ''env.promote_denied''),
    (''FINDING'', ''finding.record''),
    (''BASELINE_PROMOTE'', ''baseline.promote''),
    (''BASELINE_PROMOTE_DENIED'', ''baseline.promote_denied''),
    (''BASELINE_SUSPECT'', ''baseline.suspect''),
    (''BASELINE_CLEAR'', ''baseline.clear'')]"

section \<open>The envelope\<close>

record AuditRecord =
  ar_audit_id :: "string"
  ar_global_sequence :: "u64"
  ar_occurred_at :: "datetime"
  ar_recorded_at :: "datetime"
  ar_node_id :: "string"
  ar_process_id :: "string"
  ar_actor_type :: "actor_type"
  ar_actor_id :: "string"
  ar_actor_role :: "string option"
  ar_authentication_method :: "string option"
  ar_action :: "string"
  ar_object_type :: "string"
  ar_object_id :: "string option"
  ar_outcome :: "outcome"
  ar_reason :: "string option"
  ar_correlation_id :: "string option"
  ar_causation_id :: "string option"
  ar_trace_id :: "string option"
  ar_policy_decision :: "policy_verdict"
  ar_input_digest :: "digest option"
  ar_output_digest :: "digest option"
  ar_before_digest :: "digest option"
  ar_after_digest :: "digest option"
  ar_evidence_refs :: "string list"
  ar_event_refs :: "string list"
  ar_case_refs :: "string list"
  ar_query_ref :: "string option"
  ar_model_ref :: "string option"
  ar_prompt_ref :: "string option"
  ar_toolset_ref :: "string option"
  ar_detector_ref :: "string option"
  ar_parser_ref :: "string option"
  ar_data_classification :: "data_classification"
  ar_redaction_profile :: "string option"
  ar_content_mode :: "content_mode"
  ar_content :: "string option"
  ar_previous_hash :: "digest"
  ar_record_hash :: "digest"
  ar_signature :: "sig option"
  ar_signing_key_id :: "string option"

section \<open>External code\<close>

text \<open>
  \<open>blake3\<close> is \<open>blake3::hash\<close>; \<open>hex_encode\<close> is \<open>hex::encode\<close>; \<open>vk_from_bytes pk\<close> says whether
  \<open>VerifyingKey::from_bytes\<close> accepts the key, and \<open>verify_strict\<close> is its \<open>verify_strict\<close>, on the 64 signature
  bytes; \<open>ed_public\<close> and \<open>ed_sign\<close> are the public key and the signature of a \<open>SigningKey\<close> made from a
  seed; \<open>rec_to_json\<close> and \<open>rec_from_json\<close> are \<open>serde_json::to_vec\<close> and \<open>from_slice\<close> on records (\<open>None\<close>
  for an error), and the \<open>cp_\<close> pair the same on the checkpoint type \<open>'cp\<close>; \<open>timestamp_nanos_opt\<close> is chrono's
  method of that name.
\<close>

record 'cp ext =
  blake3 :: "bytes \<Rightarrow> digest"
  hex_encode :: "bytes \<Rightarrow> string"
  timestamp_nanos_opt :: "datetime \<Rightarrow> int option"
  vk_from_bytes :: "pubkey \<Rightarrow> bool"
  verify_strict :: "pubkey \<Rightarrow> bytes \<Rightarrow> bytes \<Rightarrow> bool"
  ed_public :: "bytes \<Rightarrow> pubkey"
  ed_sign :: "bytes \<Rightarrow> bytes \<Rightarrow> bytes"
  rec_to_json :: "AuditRecord \<Rightarrow> bytes option"
  rec_from_json :: "bytes \<Rightarrow> AuditRecord option"
  cp_to_json :: "'cp \<Rightarrow> bytes option"
  cp_from_json :: "bytes \<Rightarrow> 'cp option"

section \<open>The builder\<close>

definition AuditRecord_new :: "datetime \<Rightarrow> string \<Rightarrow> string \<Rightarrow> AuditRecord" where
  "AuditRecord_new now act obj = \<lparr>
     ar_audit_id = [],
     ar_global_sequence = 0,
     ar_occurred_at = now,
     ar_recorded_at = now,
     ar_node_id = [],
     ar_process_id = [],
     ar_actor_type = AT_System,
     ar_actor_id = [],
     ar_actor_role = None,
     ar_authentication_method = None,
     ar_action = act,
     ar_object_type = obj,
     ar_object_id = None,
     ar_outcome = OC_Success,
     ar_reason = None,
     ar_correlation_id = None,
     ar_causation_id = None,
     ar_trace_id = None,
     ar_policy_decision = PD_NotApplicable,
     ar_input_digest = None,
     ar_output_digest = None,
     ar_before_digest = None,
     ar_after_digest = None,
     ar_evidence_refs = [],
     ar_event_refs = [],
     ar_case_refs = [],
     ar_query_ref = None,
     ar_model_ref = None,
     ar_prompt_ref = None,
     ar_toolset_ref = None,
     ar_detector_ref = None,
     ar_parser_ref = None,
     ar_data_classification = DC_Internal,
     ar_redaction_profile = None,
     ar_content_mode = CM_DigestOnly,
     ar_content = None,
     ar_previous_hash = digest_zero,
     ar_record_hash = digest_zero,
     ar_signature = None,
     ar_signing_key_id = None\<rparr>"

definition rec_actor :: "AuditRecord \<Rightarrow> actor_type \<Rightarrow> string \<Rightarrow> string option \<Rightarrow> AuditRecord" where
  "rec_actor r ty i role = r\<lparr>ar_actor_type := ty, ar_actor_id := i, ar_actor_role := role\<rparr>"

definition rec_auth_method :: "AuditRecord \<Rightarrow> string \<Rightarrow> AuditRecord" where
  "rec_auth_method r x = r\<lparr>ar_authentication_method := Some x\<rparr>"

definition rec_object_id :: "AuditRecord \<Rightarrow> string \<Rightarrow> AuditRecord" where
  "rec_object_id r x = r\<lparr>ar_object_id := Some x\<rparr>"

definition rec_outcome :: "AuditRecord \<Rightarrow> outcome \<Rightarrow> AuditRecord" where
  "rec_outcome r x = r\<lparr>ar_outcome := x\<rparr>"

definition rec_reason :: "AuditRecord \<Rightarrow> string \<Rightarrow> AuditRecord" where
  "rec_reason r x = r\<lparr>ar_reason := Some x\<rparr>"

definition rec_policy :: "AuditRecord \<Rightarrow> policy_verdict \<Rightarrow> AuditRecord" where
  "rec_policy r x = r\<lparr>ar_policy_decision := x\<rparr>"

definition rec_classification :: "AuditRecord \<Rightarrow> data_classification \<Rightarrow> AuditRecord" where
  "rec_classification r x = r\<lparr>ar_data_classification := x\<rparr>"

definition rec_correlation :: "AuditRecord \<Rightarrow> string \<Rightarrow> AuditRecord" where
  "rec_correlation r x = r\<lparr>ar_correlation_id := Some x\<rparr>"

definition rec_causation :: "AuditRecord \<Rightarrow> string \<Rightarrow> AuditRecord" where
  "rec_causation r x = r\<lparr>ar_causation_id := Some x\<rparr>"

definition rec_cases :: "AuditRecord \<Rightarrow> string list \<Rightarrow> AuditRecord" where
  "rec_cases r x = r\<lparr>ar_case_refs := x\<rparr>"

definition rec_events :: "AuditRecord \<Rightarrow> string list \<Rightarrow> AuditRecord" where
  "rec_events r x = r\<lparr>ar_event_refs := x\<rparr>"

definition rec_evidence :: "AuditRecord \<Rightarrow> string list \<Rightarrow> AuditRecord" where
  "rec_evidence r x = r\<lparr>ar_evidence_refs := x\<rparr>"

definition rec_model :: "AuditRecord \<Rightarrow> string \<Rightarrow> AuditRecord" where
  "rec_model r x = r\<lparr>ar_model_ref := Some x\<rparr>"

definition rec_prompt :: "AuditRecord \<Rightarrow> string \<Rightarrow> AuditRecord" where
  "rec_prompt r x = r\<lparr>ar_prompt_ref := Some x\<rparr>"

definition rec_toolset :: "AuditRecord \<Rightarrow> string \<Rightarrow> AuditRecord" where
  "rec_toolset r x = r\<lparr>ar_toolset_ref := Some x\<rparr>"

definition rec_detector :: "AuditRecord \<Rightarrow> string \<Rightarrow> AuditRecord" where
  "rec_detector r x = r\<lparr>ar_detector_ref := Some x\<rparr>"

definition rec_parser :: "AuditRecord \<Rightarrow> string \<Rightarrow> AuditRecord" where
  "rec_parser r x = r\<lparr>ar_parser_ref := Some x\<rparr>"

definition rec_query :: "AuditRecord \<Rightarrow> string \<Rightarrow> AuditRecord" where
  "rec_query r x = r\<lparr>ar_query_ref := Some x\<rparr>"

definition rec_input_digest :: "AuditRecord \<Rightarrow> digest \<Rightarrow> AuditRecord" where
  "rec_input_digest r x = r\<lparr>ar_input_digest := Some x\<rparr>"

definition rec_output_digest :: "AuditRecord \<Rightarrow> digest \<Rightarrow> AuditRecord" where
  "rec_output_digest r x = r\<lparr>ar_output_digest := Some x\<rparr>"

definition rec_content :: "AuditRecord \<Rightarrow> string \<Rightarrow> AuditRecord" where
  "rec_content r x = r\<lparr>ar_content := Some x\<rparr>"

definition rec_occurred_at :: "AuditRecord \<Rightarrow> datetime \<Rightarrow> AuditRecord" where
  "rec_occurred_at r x = r\<lparr>ar_occurred_at := x\<rparr>"

definition rec_change_digests :: "AuditRecord \<Rightarrow> digest option \<Rightarrow> digest option \<Rightarrow> AuditRecord" where
  "rec_change_digests r before after = r\<lparr>ar_before_digest := before, ar_after_digest := after\<rparr>"

section \<open>Digests and the content policy\<close>

definition digest_of :: "'cp ext \<Rightarrow> bytes \<Rightarrow> digest" where
  "digest_of D b = blake3 D b"

definition drop_content :: "'cp ext \<Rightarrow> AuditRecord \<Rightarrow> AuditRecord" where
  "drop_content D r =
     (case ar_content r of
        None \<Rightarrow> r
      | Some c \<Rightarrow>
          (let r' = r\<lparr>ar_content := None\<rparr>
           in if ar_input_digest r' = None
              then r'\<lparr>ar_input_digest := Some (digest_of D (str_bytes c))\<rparr> else r'))"

definition apply_content_mode :: "'cp ext \<Rightarrow> AuditRecord \<Rightarrow> AuditRecord" where
  "apply_content_mode D r =
     (case ar_content_mode r of
        CM_Off \<Rightarrow> drop_content D r
      | CM_DigestOnly \<Rightarrow> drop_content D r
      | CM_Redacted \<Rightarrow> r
      | CM_Encrypted \<Rightarrow> r
      | CM_Full \<Rightarrow> r)"

text \<open>Off and digest-only are the modes in which no raw content may survive.\<close>

definition digest_mode :: "content_mode \<Rightarrow> bool" where
  "digest_mode m \<longleftrightarrow> m = CM_Off \<or> m = CM_DigestOnly"

lemma apply_content_mode_content:
  "ar_content (apply_content_mode D r) = (if digest_mode (ar_content_mode r) then None else ar_content r)"
  by (cases "ar_content_mode r")
    (auto simp: apply_content_mode_def drop_content_def digest_mode_def Let_def split: option.split)

lemma apply_content_mode_digest:
  "ar_input_digest (apply_content_mode D r) =
     (case ar_content r of
        Some c \<Rightarrow> if digest_mode (ar_content_mode r) \<and> ar_input_digest r = None
                 then Some (blake3 D (str_bytes c)) else ar_input_digest r
      | None \<Rightarrow> ar_input_digest r)"
  by (cases "ar_content_mode r")
    (auto simp: apply_content_mode_def drop_content_def digest_mode_def digest_of_def Let_def
      split: option.split)

text \<open>Nothing but the content and the input digest changes.\<close>

lemma apply_content_mode_frame:
  "apply_content_mode D r =
     r\<lparr>ar_content := ar_content (apply_content_mode D r),
       ar_input_digest := ar_input_digest (apply_content_mode D r)\<rparr>"
  by (cases "ar_content_mode r")
    (simp_all add: apply_content_mode_def drop_content_def Let_def split: option.split)

lemma apply_content_mode_unchanged [simp]:
  "ar_global_sequence (apply_content_mode D r) = ar_global_sequence r"
  "ar_content_mode (apply_content_mode D r) = ar_content_mode r"
  "ar_node_id (apply_content_mode D r) = ar_node_id r"
  by (cases "ar_content_mode r";
      simp add: apply_content_mode_def drop_content_def Let_def split: option.split)+

end
