(* ===== verification/Audit_Canonical.thy ===== *)
theory Audit_Canonical
  imports Audit_Record
begin

text \<open>
  The canonical encoding of an audit record (\<open>crates/garmr-audit/src/canonical.rs\<close>): the framed
  writers, the tag functions of the closed enumerations, \<open>canonical_body\<close> and the record hash.

  The main result is that the encoding is injective on records whose strings fit their 32-bit length
  frame and whose timestamps fit a nanosecond count: the bytes that are hashed determine every committed
  field. Each writer is an instance of the prefix-code interface of the prelude.
\<close>

section \<open>Framed writers\<close>

definition CANON_MAGIC :: bytes where
  "CANON_MAGIC = str_bytes ''garmr-audit-record'' @ [1]"

definition put_bytes :: "bytes \<Rightarrow> bytes \<Rightarrow> bytes" where
  "put_bytes buf b = (buf @ le_bytes 4 (of_nat (length b) :: u32)) @ b"

definition put_str :: "bytes \<Rightarrow> string \<Rightarrow> bytes" where
  "put_str buf s = put_bytes buf (str_bytes s)"

definition put_u64 :: "bytes \<Rightarrow> u64 \<Rightarrow> bytes" where
  "put_u64 buf n = buf @ le_bytes 8 n"

definition put_i64 :: "bytes \<Rightarrow> int \<Rightarrow> bytes" where
  "put_i64 buf n = buf @ le_bytes 8 (word_of_int n :: u64)"

definition put_opt_str :: "bytes \<Rightarrow> string option \<Rightarrow> bytes" where
  "put_opt_str buf opt =
     (case opt of Some s \<Rightarrow> put_str (buf @ [1]) s | None \<Rightarrow> buf @ [0])"

definition put_opt_digest :: "bytes \<Rightarrow> digest option \<Rightarrow> bytes" where
  "put_opt_digest buf opt =
     (case opt of Some d \<Rightarrow> (buf @ [1]) @ digest_bytes d | None \<Rightarrow> buf @ [0])"

definition put_vec_str :: "bytes \<Rightarrow> string list \<Rightarrow> bytes" where
  "put_vec_str buf v = foldl put_str (put_u64 buf (of_nat (length v))) v"

definition saturating_mul_i64 :: "int \<Rightarrow> int \<Rightarrow> int" where
  "saturating_mul_i64 a b = max (- (2 ^ 63)) (min (2 ^ 63 - 1) (a * b))"

definition ts_nanos :: "'cp ext \<Rightarrow> datetime \<Rightarrow> int" where
  "ts_nanos D t =
     (case timestamp_nanos_opt D t of
        Some n \<Rightarrow> n
      | None \<Rightarrow> saturating_mul_i64 (dt_secs t) 1000000000)"

section \<open>Tags\<close>

fun actor_type_tag :: "actor_type \<Rightarrow> string" where
  "actor_type_tag AT_Human = ''human''"
| "actor_type_tag AT_Agent = ''agent''"
| "actor_type_tag AT_Executor = ''executor''"
| "actor_type_tag AT_System = ''system''"
| "actor_type_tag AT_Collector = ''collector''"
| "actor_type_tag AT_Service = ''service''"
| "actor_type_tag AT_Unknown = ''unknown''"

fun outcome_tag :: "outcome \<Rightarrow> string" where
  "outcome_tag OC_Success = ''success''"
| "outcome_tag OC_Failure = ''failure''"
| "outcome_tag OC_Denied = ''denied''"
| "outcome_tag OC_Error = ''error''"
| "outcome_tag OC_Pending = ''pending''"

fun policy_tag :: "policy_verdict \<Rightarrow> string" where
  "policy_tag PD_Allowed = ''allowed''"
| "policy_tag PD_Denied = ''denied''"
| "policy_tag PD_NotApplicable = ''n/a''"

fun classification_tag :: "data_classification \<Rightarrow> string" where
  "classification_tag DC_Public = ''public''"
| "classification_tag DC_Internal = ''internal''"
| "classification_tag DC_Confidential = ''confidential''"
| "classification_tag DC_Restricted = ''restricted''"
| "classification_tag DC_Secret = ''secret''"

fun content_mode_tag :: "content_mode \<Rightarrow> string" where
  "content_mode_tag CM_Off = ''off''"
| "content_mode_tag CM_DigestOnly = ''digest_only''"
| "content_mode_tag CM_Redacted = ''redacted''"
| "content_mode_tag CM_Encrypted = ''encrypted''"
| "content_mode_tag CM_Full = ''full''"

section \<open>The canonical body and the record hash\<close>

definition canonical_body :: "'cp ext \<Rightarrow> AuditRecord \<Rightarrow> bytes" where
  "canonical_body D r =
    (let b = CANON_MAGIC;
         \<comment> \<open>identity / ordering\<close>
         b = put_str b (ar_audit_id r);
         b = put_u64 b (ar_global_sequence r);
         b = put_i64 b (ts_nanos D (ar_occurred_at r));
         b = put_i64 b (ts_nanos D (ar_recorded_at r));
         b = put_str b (ar_node_id r);
         b = put_str b (ar_process_id r);
         \<comment> \<open>actor\<close>
         b = put_str b (actor_type_tag (ar_actor_type r));
         b = put_str b (ar_actor_id r);
         b = put_opt_str b (ar_actor_role r);
         b = put_opt_str b (ar_authentication_method r);
         \<comment> \<open>action\<close>
         b = put_str b (ar_action r);
         b = put_str b (ar_object_type r);
         b = put_opt_str b (ar_object_id r);
         b = put_str b (outcome_tag (ar_outcome r));
         b = put_opt_str b (ar_reason r);
         \<comment> \<open>correlation\<close>
         b = put_opt_str b (ar_correlation_id r);
         b = put_opt_str b (ar_causation_id r);
         b = put_opt_str b (ar_trace_id r);
         b = put_str b (policy_tag (ar_policy_decision r));
         \<comment> \<open>digests\<close>
         b = put_opt_digest b (ar_input_digest r);
         b = put_opt_digest b (ar_output_digest r);
         b = put_opt_digest b (ar_before_digest r);
         b = put_opt_digest b (ar_after_digest r);
         \<comment> \<open>references\<close>
         b = put_vec_str b (ar_evidence_refs r);
         b = put_vec_str b (ar_event_refs r);
         b = put_vec_str b (ar_case_refs r);
         b = put_opt_str b (ar_query_ref r);
         b = put_opt_str b (ar_model_ref r);
         b = put_opt_str b (ar_prompt_ref r);
         b = put_opt_str b (ar_toolset_ref r);
         b = put_opt_str b (ar_detector_ref r);
         b = put_opt_str b (ar_parser_ref r);
         \<comment> \<open>classification + content\<close>
         b = put_str b (classification_tag (ar_data_classification r));
         b = put_opt_str b (ar_redaction_profile r);
         b = put_str b (content_mode_tag (ar_content_mode r));
         b = put_opt_str b (ar_content r);
         \<comment> \<open>chain\<close>
         b = b @ digest_bytes (ar_previous_hash r)
     in put_opt_str b (ar_signing_key_id r))"

definition compute_record_hash :: "'cp ext \<Rightarrow> AuditRecord \<Rightarrow> digest" where
  "compute_record_hash D r = blake3 D (canonical_body D r)"

section \<open>The writers as prefix codes\<close>

definition str_ok :: "string \<Rightarrow> bool" where
  "str_ok s \<longleftrightarrow> length s < 2 ^ 32"

definition enc_str :: "string \<Rightarrow> bytes" where
  "enc_str s = le_bytes 4 (of_nat (length s) :: u32) @ str_bytes s"

definition enc_opt_str :: "string option \<Rightarrow> bytes" where
  "enc_opt_str x = (case x of None \<Rightarrow> [0] | Some s \<Rightarrow> 1 # enc_str s)"

definition enc_opt_digest :: "digest option \<Rightarrow> bytes" where
  "enc_opt_digest x = (case x of None \<Rightarrow> [0] | Some d \<Rightarrow> 1 # le_bytes 32 d)"

definition enc_vec_str :: "string list \<Rightarrow> bytes" where
  "enc_vec_str v = le_bytes 8 (of_nat (length v) :: u64) @ concat (map enc_str v)"

definition vec_ok :: "string list \<Rightarrow> bool" where
  "vec_ok v \<longleftrightarrow> length v < 2 ^ 64 \<and> list_all str_ok v"

interpretation str_code: prefix_code enc_str str_ok
proof
  fix x y s t
  assume ok: "str_ok x" "str_ok y"
  show "(enc_str x @ s = enc_str y @ t) = (x = y \<and> s = t)"
  proof
    assume eq: "enc_str x @ s = enc_str y @ t"
    then have "(of_nat (length x) :: u32) = of_nat (length y)" and rest: "str_bytes x @ s = str_bytes y @ t"
      by (simp_all add: enc_str_def u32_code.cancel)
    with ok have "length x = length y"
      by (simp add: str_ok_def word_of_nat_eq_iff take_bit_nat_eq_self)
    with rest show "x = y \<and> s = t" by simp
  qed simp
qed

interpretation opt_str_code: prefix_code enc_opt_str "pred_option str_ok"
  by unfold_locales (simp only: enc_opt_str_def str_code.option_cancel)

interpretation opt_digest_code: prefix_code enc_opt_digest "\<lambda>_. True"
  by unfold_locales (simp only: enc_opt_digest_def u256_code.option_cancel option.pred_True)

interpretation vec_str_code: prefix_code enc_vec_str vec_ok
proof
  fix x y s t
  assume ok: "vec_ok x" "vec_ok y"
  show "(enc_vec_str x @ s = enc_vec_str y @ t) = (x = y \<and> s = t)"
  proof
    assume "enc_vec_str x @ s = enc_vec_str y @ t"
    then have "(of_nat (length x) :: u64) = of_nat (length y)"
      and rest: "concat (map enc_str x) @ s = concat (map enc_str y) @ t"
      by (simp_all add: enc_vec_str_def u64_code.cancel)
    with ok have "length x = length y"
      by (simp add: vec_ok_def word_of_nat_eq_iff take_bit_nat_eq_self)
    with rest ok show "x = y \<and> s = t"
      by (simp add: vec_ok_def str_code.concat_cancel)
  qed simp
qed

lemmas prefix_cancel [frame_inj] =
  str_code.cancel opt_str_code.cancel opt_digest_code.cancel vec_str_code.cancel
  u64_code.cancel u32_code.cancel u16_code.cancel u256_code.cancel

text \<open>The writers append the corresponding code word.\<close>

lemma put_str_eq: "put_str buf s = buf @ enc_str s"
  by (simp add: put_str_def put_bytes_def enc_str_def)

lemma put_u64_eq: "put_u64 buf n = buf @ le_bytes 8 n"
  by (simp add: put_u64_def)

lemma put_opt_str_eq: "put_opt_str buf x = buf @ enc_opt_str x"
  by (simp add: put_opt_str_def enc_opt_str_def put_str_eq split: option.split)

lemma put_opt_digest_eq: "put_opt_digest buf x = buf @ enc_opt_digest x"
  by (simp add: put_opt_digest_def enc_opt_digest_def digest_bytes_def split: option.split)

lemma foldl_put_str: "foldl put_str buf v = buf @ concat (map enc_str v)"
  by (induction v arbitrary: buf) (simp_all add: put_str_eq)

lemma put_vec_str_eq: "put_vec_str buf v = buf @ enc_vec_str v"
  by (simp add: put_vec_str_def enc_vec_str_def foldl_put_str put_u64_def)

lemmas put_eqs = put_str_eq put_u64_eq put_i64_def put_opt_str_eq put_opt_digest_eq put_vec_str_eq
  digest_bytes_def

text \<open>The tags of the closed enumerations are short and pairwise distinct.\<close>

lemma tag_inj [simp]:
  "actor_type_tag a = actor_type_tag a' \<longleftrightarrow> a = a'"
  "outcome_tag b = outcome_tag b' \<longleftrightarrow> b = b'"
  "policy_tag c = policy_tag c' \<longleftrightarrow> c = c'"
  "classification_tag d = classification_tag d' \<longleftrightarrow> d = d'"
  "content_mode_tag e = content_mode_tag e' \<longleftrightarrow> e = e'"
  by ((cases a; cases a'; simp), (cases b; cases b'; simp), (cases c; cases c'; simp),
      (cases d; cases d'; simp), (cases e; cases e'; simp))

lemma tag_ok [simp]:
  "str_ok (actor_type_tag a)" "str_ok (outcome_tag b)" "str_ok (policy_tag c)"
  "str_ok (classification_tag d)" "str_ok (content_mode_tag e)"
  by ((cases a; simp add: str_ok_def), (cases b; simp add: str_ok_def), (cases c; simp add: str_ok_def),
      (cases d; simp add: str_ok_def), (cases e; simp add: str_ok_def))

section \<open>The encoding determines the record\<close>

text \<open>
  What the code relies on of chrono: \<open>timestamp_nanos_opt\<close> returns the nanosecond count, and only where
  it fits an \<open>i64\<close>.
\<close>

definition chrono_ok :: "'cp ext \<Rightarrow> bool" where
  "chrono_ok D \<longleftrightarrow> (\<forall>t n. timestamp_nanos_opt D t = Some n \<longrightarrow>
     n = dt_secs t * 1000000000 + int (dt_nanos t) \<and> - (2 ^ 63) \<le> n \<and> n < 2 ^ 63)"

definition ts_ok :: "'cp ext \<Rightarrow> datetime \<Rightarrow> bool" where
  "ts_ok D t \<longleftrightarrow> timestamp_nanos_opt D t \<noteq> None \<and> dt_nanos t < 1000000000"

text \<open>Every field fits its frame.\<close>

definition canon_ok :: "'cp ext \<Rightarrow> AuditRecord \<Rightarrow> bool" where
  "canon_ok D r \<longleftrightarrow>
     list_all str_ok [ar_audit_id r, ar_node_id r, ar_process_id r, ar_actor_id r, ar_action r,
       ar_object_type r] \<and>
     list_all (pred_option str_ok) [ar_actor_role r, ar_authentication_method r, ar_object_id r,
       ar_reason r, ar_correlation_id r, ar_causation_id r, ar_trace_id r, ar_query_ref r,
       ar_model_ref r, ar_prompt_ref r, ar_toolset_ref r, ar_detector_ref r, ar_parser_ref r,
       ar_redaction_profile r, ar_content r, ar_signing_key_id r] \<and>
     list_all vec_ok [ar_evidence_refs r, ar_event_refs r, ar_case_refs r] \<and>
     list_all (ts_ok D) [ar_occurred_at r, ar_recorded_at r]"

text \<open>The committed part of a record: everything but the hash itself and the signature over it.\<close>

definition committed :: "AuditRecord \<Rightarrow> AuditRecord" where
  "committed r = r\<lparr>ar_record_hash := digest_zero, ar_signature := None\<rparr>"

lemma word_of_int_i64_inj:
  assumes "- (2 ^ 63) \<le> m" "m < 2 ^ 63" "- (2 ^ 63) \<le> n" "n < (2 ^ 63 :: int)"
  shows "(word_of_int m :: u64) = word_of_int n \<longleftrightarrow> m = n"
proof
  assume "(word_of_int m :: u64) = word_of_int n"
  then have "sint (word_of_int m :: u64) = sint (word_of_int n :: u64)" by simp
  with assms show "m = n"
    by (simp add: sint_sbintrunc' signed_take_bit_int_eq_self)
qed simp

lemma ts_nanos_inj:
  assumes "chrono_ok D" "ts_ok D t" "ts_ok D u"
  shows "(word_of_int (ts_nanos D t) :: u64) = word_of_int (ts_nanos D u) \<longleftrightarrow> t = u"
proof
  assume eq: "(word_of_int (ts_nanos D t) :: u64) = word_of_int (ts_nanos D u)"
  from assms obtain m n where mn: "timestamp_nanos_opt D t = Some m" "timestamp_nanos_opt D u = Some n"
    by (auto simp: ts_ok_def)
  with assms(1) have bounds: "- (2 ^ 63) \<le> m" "m < 2 ^ 63" "- (2 ^ 63) \<le> n" "n < 2 ^ 63"
    and m: "m = dt_secs t * 1000000000 + int (dt_nanos t)"
    and n: "n = dt_secs u * 1000000000 + int (dt_nanos u)"
    unfolding chrono_ok_def by blast+
  from eq mn bounds have "m = n"
    by (simp add: ts_nanos_def word_of_int_i64_inj)
  with m n assms(2,3) have secs: "dt_secs t = dt_secs u"
    unfolding ts_ok_def by linarith
  with \<open>m = n\<close> m n have "dt_nanos t = dt_nanos u" by simp
  with secs show "t = u" by simp
qed simp

lemma canonical_body_inj:
  assumes "chrono_ok D" "canon_ok D r" "canon_ok D r'"
  shows "canonical_body D r = canonical_body D r' \<longleftrightarrow> committed r = committed r'"
proof
  assume "canonical_body D r = canonical_body D r'"
  with assms show "committed r = committed r'"
    by (simp add: canonical_body_def Let_def put_eqs frame_inj canon_ok_def ts_nanos_inj
        opt_str_code.enc_inj committed_def)
next
  have body: "canonical_body D x = canonical_body D (committed x)" for x
    by (simp add: canonical_body_def committed_def)
  assume "committed r = committed r'"
  then show "canonical_body D r = canonical_body D r'"
    using body [of r] body [of r'] by simp
qed

end
