(* ===== verification/Audit_Checkpoint.thy ===== *)
theory Audit_Checkpoint
  imports Audit_Canonical
begin

text \<open>
  Signing (\<open>crates/garmr-audit/src/sign.rs\<close>) and signed checkpoints (\<open>checkpoint.rs\<close>). The \<open>Signer\<close>
  trait is a record of its three methods; the software signer is its instance over an Ed25519 seed.
\<close>

section \<open>Errors\<close>

datatype integrity_failure =
    ChainBroken u64
  | RecoveredGap u64 u64 \<comment> \<open>expected, got\<close>
  | RecoveredHash u64

datatype AuditError =
    AE_Io
  | AE_Serde
  | AE_Random
  | AE_BadKey
  | AE_Integrity integrity_failure
  | AE_DurabilityFailed

section \<open>Signers\<close>

record Signer =
  sg_key_id :: string
  sg_public_key :: pubkey
  sg_sign :: "bytes \<Rightarrow> sig"

definition key_id_from_public :: "'cp ext \<Rightarrow> pubkey \<Rightarrow> string" where
  "key_id_from_public D pk = ''ed25519-'' @ hex_encode D (take 8 (digest_bytes (blake3 D (le_bytes 32 pk))))"

definition from_seed :: "'cp ext \<Rightarrow> bytes \<Rightarrow> Signer" where
  "from_seed D seed =
     (let pk = ed_public D seed
      in \<lparr>sg_key_id = key_id_from_public D pk, sg_public_key = pk,
          sg_sign = (\<lambda>msg. Sig (ed_sign D seed msg))\<rparr>)"

text \<open>\<open>rand\<close> is what \<open>getrandom\<close> delivers.\<close>

definition signer_generate :: "'cp ext \<Rightarrow> bytes option \<Rightarrow> AuditError + bytes" where
  "signer_generate D rand = (case rand of None \<Rightarrow> Err AE_Random | Some seed \<Rightarrow> Ok seed)"

text \<open>
  The key file as its contents (\<open>None\<close>: absent). \<open>sv\<close> is the outcome of persisting the seed: \<open>None\<close>
  success, \<open>Some f\<close> a failure that leaves the key file as \<open>f\<close>; \<open>readable\<close> says whether an existing
  key file can be read.
\<close>

definition signer_save :: "bytes \<Rightarrow> bytes option option \<Rightarrow> (AuditError + unit) \<times> bytes option" where
  "signer_save seed sv = (case sv of None \<Rightarrow> (Ok (), Some seed) | Some f \<Rightarrow> (Err AE_Io, f))"

definition load_or_create ::
  "'cp ext \<Rightarrow> bytes option \<Rightarrow> bool \<Rightarrow> bytes option \<Rightarrow> bytes option option \<Rightarrow>
     (AuditError + Signer) \<times> bytes option" where
  "load_or_create D file readable rand sv =
     (case file of
        Some b \<Rightarrow>
          (if \<not> readable then Err AE_Io
           else if length b = 32 then Ok (from_seed D b) else Err AE_BadKey, file)
      | None \<Rightarrow>
          (case signer_generate D rand of
             Inl e \<Rightarrow> (Err e, file)
           | Inr seed \<Rightarrow>
               (case signer_save seed sv of
                  (Inl e, f) \<Rightarrow> (Err e, f)
                | (Inr _, f) \<Rightarrow> (Ok (from_seed D seed), f))))"

definition verify :: "'cp ext \<Rightarrow> pubkey \<Rightarrow> bytes \<Rightarrow> sig \<Rightarrow> bool" where
  "verify D pk msg s =
     (if \<not> vk_from_bytes D pk then False
      else if length (sig_bytes s) \<noteq> 64 then False
      else verify_strict D pk msg (sig_bytes s))"

section \<open>Checkpoints\<close>

definition CHECKPOINT_FORMAT :: u16 where
  "CHECKPOINT_FORMAT = 1"

definition CHECKPOINT_MAGIC :: bytes where
  "CHECKPOINT_MAGIC = str_bytes ''garmr-audit-checkpoint'' @ [1]"

record Checkpoint =
  cp_format_version :: u16
  cp_node_id :: string
  cp_segment_id :: u64
  cp_global_sequence :: u64
  cp_record_hash :: digest
  cp_segment_record_count :: u64
  cp_sealed :: bool
  cp_created_at :: datetime
  cp_signing_key_id :: string
  cp_public_key :: string
  cp_signature :: sig

type_synonym env = "Checkpoint ext"

definition signed_body :: "env \<Rightarrow> Checkpoint \<Rightarrow> bytes" where
  "signed_body D c =
     (let b = CHECKPOINT_MAGIC;
          b = b @ le_bytes 2 (cp_format_version c);
          b = b @ le_bytes 4 (of_nat (length (cp_node_id c)) :: u32);
          b = b @ str_bytes (cp_node_id c);
          b = b @ le_bytes 8 (cp_segment_id c);
          b = b @ le_bytes 8 (cp_global_sequence c);
          b = b @ digest_bytes (cp_record_hash c);
          b = b @ le_bytes 8 (cp_segment_record_count c);
          b = b @ [if cp_sealed c then 1 else 0];
          b = b @ le_bytes 8 (word_of_int (ts_nanos D (cp_created_at c)) :: u64);
          b = b @ le_bytes 4 (of_nat (length (cp_signing_key_id c)) :: u32);
          b = b @ str_bytes (cp_signing_key_id c);
          b = b @ le_bytes 4 (of_nat (length (cp_public_key c)) :: u32)
      in b @ str_bytes (cp_public_key c))"

definition Checkpoint_create ::
  "env \<Rightarrow> Signer \<Rightarrow> datetime \<Rightarrow> string \<Rightarrow> u64 \<Rightarrow> u64 \<Rightarrow> digest \<Rightarrow> u64 \<Rightarrow> bool \<Rightarrow> Checkpoint" where
  "Checkpoint_create D sg now node seg sq h count sealed =
     (let c = \<lparr>cp_format_version = CHECKPOINT_FORMAT, cp_node_id = node, cp_segment_id = seg,
               cp_global_sequence = sq, cp_record_hash = h, cp_segment_record_count = count,
               cp_sealed = sealed, cp_created_at = now, cp_signing_key_id = sg_key_id sg,
               cp_public_key = hex_encode D (le_bytes 32 (sg_public_key sg)),
               cp_signature = Sig []\<rparr>
      in c\<lparr>cp_signature := sg_sign sg (signed_body D c)\<rparr>)"

definition verify_with :: "env \<Rightarrow> Checkpoint \<Rightarrow> pubkey \<Rightarrow> bool" where
  "verify_with D c pk = verify D pk (signed_body D c) (cp_signature c)"

section \<open>What the signature covers\<close>

text \<open>The signature field itself is not covered.\<close>

lemma signed_body_signature [simp]: "signed_body D (c\<lparr>cp_signature := s\<rparr>) = signed_body D c"
  by (simp add: signed_body_def)

definition cp_ok :: "env \<Rightarrow> Checkpoint \<Rightarrow> bool" where
  "cp_ok D c \<longleftrightarrow> list_all str_ok [cp_node_id c, cp_signing_key_id c, cp_public_key c] \<and>
     ts_ok D (cp_created_at c)"

lemma signed_body_eq:
  "signed_body D c = CHECKPOINT_MAGIC @ le_bytes 2 (cp_format_version c) @ enc_str (cp_node_id c) @
     le_bytes 8 (cp_segment_id c) @ le_bytes 8 (cp_global_sequence c) @ le_bytes 32 (cp_record_hash c) @
     le_bytes 8 (cp_segment_record_count c) @ (if cp_sealed c then 1 else 0) #
     le_bytes 8 (word_of_int (ts_nanos D (cp_created_at c)) :: u64) @
     enc_str (cp_signing_key_id c) @ enc_str (cp_public_key c)"
  by (simp add: signed_body_def Let_def enc_str_def digest_bytes_def)

lemma signed_body_inj:
  assumes "chrono_ok D" "cp_ok D c" "cp_ok D c'"
  shows "signed_body D c = signed_body D c' \<longleftrightarrow> c\<lparr>cp_signature := Sig []\<rparr> = c'\<lparr>cp_signature := Sig []\<rparr>"
proof
  assume "signed_body D c = signed_body D c'"
  with assms show "c\<lparr>cp_signature := Sig []\<rparr> = c'\<lparr>cp_signature := Sig []\<rparr>"
    by (simp add: signed_body_eq frame_inj cp_ok_def ts_nanos_inj str_code.enc_inj split: if_splits)
next
  assume "c\<lparr>cp_signature := Sig []\<rparr> = c'\<lparr>cp_signature := Sig []\<rparr>"
  then show "signed_body D c = signed_body D c'"
    by (metis signed_body_signature)
qed

text \<open>
  A checkpoint body can never be confused with a record body: their domain tags differ.
\<close>

lemma magic_separates: "signed_body D c \<noteq> canonical_body D r"
  by (simp add: signed_body_eq canonical_body_def Let_def put_eqs CHECKPOINT_MAGIC_def CANON_MAGIC_def
      str_bytes_def of_char_u8_inj)

section \<open>The signer contract\<close>

text \<open>
  What the ledger relies on of its signer: its signatures verify under its own public key. Ed25519's
  documented behaviour gives this for the software signer.
\<close>

definition signer_ok :: "'cp ext \<Rightarrow> Signer \<Rightarrow> bool" where
  "signer_ok D sg \<longleftrightarrow> (\<forall>m. verify D (sg_public_key sg) m (sg_sign sg m))"

definition ed25519_ok :: "'cp ext \<Rightarrow> bool" where
  "ed25519_ok D \<longleftrightarrow> (\<forall>seed m. length seed = 32 \<longrightarrow>
     vk_from_bytes D (ed_public D seed) \<and> length (ed_sign D seed m) = 64 \<and>
     verify_strict D (ed_public D seed) m (ed_sign D seed m))"

lemma from_seed_signer_ok: "ed25519_ok D \<Longrightarrow> length seed = 32 \<Longrightarrow> signer_ok D (from_seed D seed)"
  by (simp add: signer_ok_def from_seed_def verify_def ed25519_ok_def Let_def)

lemma Checkpoint_create_verifies:
  "signer_ok D sg \<Longrightarrow>
     verify_with D (Checkpoint_create D sg now node seg sq h count sealed) (sg_public_key sg)"
  by (simp add: Checkpoint_create_def verify_with_def signer_ok_def Let_def signed_body_eq)

lemma Checkpoint_create_fields [simp]:
  "cp_global_sequence (Checkpoint_create D sg now node seg sq h count sealed) = sq"
  "cp_segment_id (Checkpoint_create D sg now node seg sq h count sealed) = seg"
  "cp_record_hash (Checkpoint_create D sg now node seg sq h count sealed) = h"
  "cp_segment_record_count (Checkpoint_create D sg now node seg sq h count sealed) = count"
  "cp_sealed (Checkpoint_create D sg now node seg sq h count sealed) = sealed"
  "cp_signing_key_id (Checkpoint_create D sg now node seg sq h count sealed) = sg_key_id sg"
  by (simp_all add: Checkpoint_create_def Let_def)

end
