(* ===== verification/Audit_Segment.thy ===== *)
theory Audit_Segment
  imports Audit_Checkpoint "HOL-Library.AList" "HOL-Library.List_Lexorder" "HOL-Library.Char_ord"
begin

text \<open>
  Segment files (\<open>crates/garmr-audit/src/segment.rs\<close>): file names, directory listings and the strict
  reader. A directory is an association list from file names to contents; a segment is a byte list.
\<close>

type_synonym dir = "(string \<times> bytes) list"

section \<open>File names\<close>

definition hex_char :: "nat \<Rightarrow> char" where
  "hex_char n = (if n < 10 then char_of (48 + n) else char_of (87 + n))"

text \<open>\<open>format!("{id:016x}")\<close>: sixteen lowercase hexadecimal digits.\<close>

definition hex16 :: "u64 \<Rightarrow> string" where
  "hex16 w = map (\<lambda>i. hex_char (unat (drop_bit (4 * i) w AND 15))) (rev [0..<16])"

definition segment_filename :: "u64 \<Rightarrow> string" where
  "segment_filename i = hex16 i @ ''.jsonl''"

definition checkpoint_filename :: "u64 \<Rightarrow> string" where
  "checkpoint_filename sq = hex16 sq @ ''.ckpt.json''"

definition strip_suffix :: "string \<Rightarrow> string \<Rightarrow> string option" where
  "strip_suffix suf s =
     (let n = length s - length suf
      in if length suf \<le> length s \<and> drop n s = suf then Some (take n s) else None)"

definition hex_digit :: "char \<Rightarrow> nat option" where
  "hex_digit c =
     (let n = of_char c
      in if 48 \<le> n \<and> n \<le> 57 then Some (n - 48)
         else if 97 \<le> n \<and> n \<le> 102 then Some (n - 87)
         else if 65 \<le> n \<and> n \<le> 70 then Some (n - 55)
         else None)"

fun hex_value :: "nat \<Rightarrow> string \<Rightarrow> nat option" where
  "hex_value acc [] = Some acc"
| "hex_value acc (c # cs) =
     (case hex_digit c of None \<Rightarrow> None | Some d \<Rightarrow> hex_value (16 * acc + d) cs)"

text \<open>
  \<open>u64::from_str_radix(s, 16)\<close>: an optional plus sign, at least one digit, no overflow.
\<close>

definition from_str_radix16 :: "string \<Rightarrow> u64 option" where
  "from_str_radix16 s =
     (let ds = (case s of c # rest \<Rightarrow> if c = CHR ''+'' then rest else s | [] \<Rightarrow> [])
      in if ds = [] then None
         else (case hex_value 0 ds of
                 None \<Rightarrow> None
               | Some n \<Rightarrow> if n < 2 ^ 64 then Some (of_nat n) else None))"

text \<open>\<open>Path::extension\<close> of a file name: what follows its last dot, if something precedes the dot.\<close>

definition path_extension :: "string \<Rightarrow> string option" where
  "path_extension name =
     (let ext_rev = takeWhile (\<lambda>c. c \<noteq> CHR ''.'') (rev name);
          stem_rev = drop (Suc (length ext_rev)) (rev name)
      in if CHR ''.'' \<in> set name \<and> stem_rev \<noteq> [] then Some (rev ext_rev) else None)"

section \<open>Listings\<close>

definition list_segment_ids :: "dir \<Rightarrow> u64 list" where
  "list_segment_ids d =
     sort (List.map_filter (\<lambda>(name, _). Option.bind (strip_suffix ''.jsonl'' name) from_str_radix16) d)"

definition list_checkpoint_paths :: "dir \<Rightarrow> string list" where
  "list_checkpoint_paths d = sort (filter (\<lambda>name. path_extension name = Some ''json'') (map fst d))"

section \<open>Reading a segment\<close>

record SegmentRead =
  sr_records :: "AuditRecord list"
  sr_valid_len :: nat
  sr_torn_tail :: bool

text \<open>
  The byte loop: \<open>cur\<close> is the line read so far (\<open>data[start..i]\<close>), \<open>i\<close> the position. The loop ends
  with a torn tail exactly when \<open>cur\<close> is not empty (\<open>start < data.len()\<close>).
\<close>

fun read_loop :: "env \<Rightarrow> bytes \<Rightarrow> bytes \<Rightarrow> nat \<Rightarrow> AuditRecord list \<Rightarrow> nat \<Rightarrow> AuditError + SegmentRead" where
  "read_loop D [] cur i recs valid = Ok \<lparr>sr_records = recs, sr_valid_len = valid, sr_torn_tail = cur \<noteq> []\<rparr>"
| "read_loop D (b # bs) cur i recs valid =
     (if b = 10 then
        (if cur \<noteq> [] then
           (case rec_from_json D cur of
              None \<Rightarrow> Err AE_Serde
            | Some r \<Rightarrow> read_loop D bs [] (i + 1) (recs @ [r]) (i + 1))
         else read_loop D bs [] (i + 1) recs (i + 1))
      else read_loop D bs (cur @ [b]) (i + 1) recs valid)"

definition read_segment :: "env \<Rightarrow> dir \<Rightarrow> string \<Rightarrow> AuditError + SegmentRead" where
  "read_segment D d name =
     (case map_of d name of None \<Rightarrow> Err AE_Io | Some data \<Rightarrow> read_loop D data [] 0 [] 0)"

section \<open>File names round-trip\<close>

lemma hex_digit_char [simp]: "n < 16 \<Longrightarrow> hex_digit (hex_char n) = Some n"
  by (auto simp: hex_digit_def hex_char_def Let_def)

lemma hex_char_not_plus:
  assumes "n < 16"
  shows "hex_char n \<noteq> CHR ''+''"
proof
  assume "hex_char n = CHR ''+''"
  with assms have "hex_digit CHR ''+'' = Some n" by (metis hex_digit_char)
  then show False by (simp add: hex_digit_def)
qed

lemma unat_u64_bound: "unat (w :: u64) < 2 ^ 64"
  using unsigned_less [of w, where ?'a = nat] by simp

lemma hex16_digit: "unat (drop_bit (4 * i) (w :: u64) AND 15) = unat w div 16 ^ i mod 16"
proof -
  have "drop_bit (4 * i) w AND 15 = take_bit 4 (drop_bit (4 * i) w)"
    by (simp add: take_bit_eq_mask mask_eq_exp_minus_1)
  then have "unat (drop_bit (4 * i) w AND 15) = take_bit 4 (drop_bit (4 * i) (take_bit 64 (unat w)))"
    by (simp only: unsigned_take_bit_eq unsigned_drop_bit_eq) simp
  also have "take_bit 64 (unat w) = unat w"
    using unat_u64_bound [of w] by (simp add: take_bit_nat_eq_self_iff)
  finally show ?thesis
    by (simp add: take_bit_eq_mod drop_bit_eq_div power_mult)
qed

lemma hex_value_digits:
  "hex_value acc (map (\<lambda>i. hex_char (m div 16 ^ i mod 16)) (rev [0..<n])) = Some (acc * 16 ^ n + m mod 16 ^ n)"
proof (induction n arbitrary: acc)
  case 0
  then show ?case by simp
next
  case (Suc n)
  have "m mod 16 ^ Suc n = 16 ^ n * (m div 16 ^ n mod 16) + m mod 16 ^ n"
    by (metis mod_mult2_eq power_Suc2)
  then show ?case
    by (simp add: Suc.IH algebra_simps)
qed

lemma hex_value_hex16: "hex_value 0 (hex16 w) = Some (unat w)"
proof -
  have "unat w < 16 ^ 16"
    using unat_u64_bound [of w] by simp
  then show ?thesis
    by (simp add: hex16_def hex16_digit hex_value_digits del: upt_Suc)
qed

lemma length_hex16 [simp]: "length (hex16 w) = 16"
  by (simp add: hex16_def)

lemma hd_hex16: "hd (hex16 w) \<noteq> CHR ''+''"
  by (simp add: hex16_def hex16_digit hd_map hex_char_not_plus hd_rev last_upt)

lemma from_str_radix16_hex16 [simp]: "from_str_radix16 (hex16 w) = Some w"
proof -
  obtain c cs where h: "hex16 w = c # cs"
    by (cases "hex16 w") (use length_hex16 [of w] in auto)
  then have "c \<noteq> CHR ''+''" using hd_hex16 [of w] by simp
  then have ds: "(case hex16 w of c # rest \<Rightarrow> if c = CHR ''+'' then rest else hex16 w | [] \<Rightarrow> []) = hex16 w"
    by (simp add: h)
  from h have "hex16 w \<noteq> []" by simp
  with unat_u64_bound [of w] show ?thesis
    unfolding from_str_radix16_def Let_def ds by (simp add: hex_value_hex16)
qed

lemma strip_suffix_append [simp]: "strip_suffix suf (s @ suf) = Some s"
  by (simp add: strip_suffix_def)

lemma hex16_inj [simp]: "hex16 v = hex16 w \<longleftrightarrow> v = w"
  by (metis from_str_radix16_hex16 option.inject)

lemma segment_filename_inj [simp]: "segment_filename v = segment_filename w \<longleftrightarrow> v = w"
  by (simp add: segment_filename_def)

lemma checkpoint_filename_inj [simp]: "checkpoint_filename v = checkpoint_filename w \<longleftrightarrow> v = w"
  by (simp add: checkpoint_filename_def)

lemma segment_filename_id:
  "Option.bind (strip_suffix ''.jsonl'' (segment_filename w)) from_str_radix16 = Some w"
  by (simp add: segment_filename_def)

lemma checkpoint_filename_ext [simp]: "path_extension (checkpoint_filename w) = Some ''json''"
  by (simp add: path_extension_def checkpoint_filename_def Let_def)

section \<open>Reading complete lines\<close>

text \<open>
  What the ledger relies on of serde: a record it serialised parses back to itself, and its JSON line is
  neither empty nor contains a newline byte (serde's compact writer escapes control characters).
\<close>

definition serde_ok :: "env \<Rightarrow> bool" where
  "serde_ok D \<longleftrightarrow>
     (\<forall>r b. rec_to_json D r = Some b \<longrightarrow> rec_from_json D b = Some r \<and> b \<noteq> [] \<and> 10 \<notin> set b) \<and>
     (\<forall>c b. cp_to_json D c = Some b \<longrightarrow> cp_from_json D b = Some c)"

lemma read_loop_cur:
  "10 \<notin> set line \<Longrightarrow>
     read_loop D (line @ rest) cur i recs valid = read_loop D rest (cur @ line) (i + length line) recs valid"
  by (induction line arbitrary: cur i) (auto simp: add.assoc)

lemma read_loop_line:
  assumes "10 \<notin> set line" "line \<noteq> []" "rec_from_json D line = Some r"
  shows "read_loop D (line @ 10 # rest) [] i recs valid =
     read_loop D rest [] (i + length line + 1) (recs @ [r]) (i + length line + 1)"
  using assms by (simp add: read_loop_cur)

text \<open>The lines of a list of serialised records.\<close>

definition lines_of :: "bytes list \<Rightarrow> bytes" where
  "lines_of bs = concat (map (\<lambda>b. b @ [10]) bs)"

lemma lines_of_simps [simp]:
  "lines_of [] = []" "lines_of (b # bs) = b @ 10 # lines_of bs"
  by (simp_all add: lines_of_def)

lemma lines_of_append [simp]: "lines_of (xs @ ys) = lines_of xs @ lines_of ys"
  by (simp add: lines_of_def)

lemma read_loop_lines:
  assumes "serde_ok D" "list_all2 (\<lambda>r b. rec_to_json D r = Some b) rs bs"
  shows "read_loop D (lines_of bs @ rest) [] i recs i =
     read_loop D rest [] (i + length (lines_of bs)) (recs @ rs) (i + length (lines_of bs))"
  using assms(2)
proof (induction rs bs arbitrary: i recs rule: list_all2_induct)
  case Nil
  then show ?case by simp
next
  case (Cons r rs b bs)
  from assms(1) Cons.hyps(1) have "10 \<notin> set b" "b \<noteq> []" "rec_from_json D b = Some r"
    by (auto simp: serde_ok_def)
  then show ?case
    by (simp add: read_loop_line Cons.IH add.assoc)
qed

text \<open>Strict reading of complete lines followed by a torn tail.\<close>

lemma read_loop_torn:
  assumes "serde_ok D" "list_all2 (\<lambda>r b. rec_to_json D r = Some b) rs bs" "10 \<notin> set tail"
  shows "read_loop D (lines_of bs @ tail) [] 0 [] 0 =
     Ok \<lparr>sr_records = rs, sr_valid_len = length (lines_of bs), sr_torn_tail = tail \<noteq> []\<rparr>"
  using read_loop_lines [OF assms(1,2), of tail 0 "[]"] read_loop_cur [OF assms(3), of D "[]"] by simp

end
