(* ===== verification/Audit_Ledger.thy ===== *)
theory Audit_Ledger
  imports Audit_Segment
begin

text \<open>
  The append-only writer (\<open>crates/garmr-audit/src/ledger.rs\<close>). The mutex serialises every call, so the
  ledger is a sequential state machine over the writer state \<open>Inner\<close> and the two directories on disk.
  Every I/O step can fail; what the operating system answers is an argument of the call (\<open>io\<close>,
  \<open>open_io\<close>), including how many bytes of a failed write reached the file.
\<close>

section \<open>State\<close>

record LedgerConfig =
  lc_node_id :: string
  lc_content_mode :: content_mode
  lc_per_record_sign :: bool
  lc_segment_max_records :: u64
  lc_checkpoint_every :: u64
  lc_fsync :: bool

definition LedgerConfig_default :: LedgerConfig where
  "LedgerConfig_default =
     \<lparr>lc_node_id = ''garmr'', lc_content_mode = CM_DigestOnly, lc_per_record_sign = False,
      lc_segment_max_records = 10000, lc_checkpoint_every = 1000, lc_fsync = True\<rparr>"

record AuditReceipt =
  rc_audit_id :: string
  rc_global_sequence :: u64
  rc_record_hash :: digest

text \<open>\<open>in_file\<close> names the segment file the open append handle writes to.\<close>

record Inner =
  in_segment_id :: u64
  in_next_seq :: u64
  in_prev_hash :: digest
  in_records_in_segment :: u64
  in_records_since_ckpt :: u64
  in_file :: string

record disk =
  dk_segments :: dir
  dk_checkpoints :: dir

record AuditLedger =
  al_cfg :: LedgerConfig
  al_process_id :: string
  al_signer :: Signer
  al_inner :: Inner
  al_disk :: disk

section \<open>Answers of the operating system\<close>

text \<open>
  \<open>WriteFailed n\<close>: \<open>write_all\<close> or \<open>flush\<close> failed after \<open>n\<close> bytes reached the file; \<open>SyncFailed\<close>: every
  byte was written and \<open>sync_data\<close> failed. \<open>FileFailed None\<close>: \<open>std::fs::write\<close> failed before touching the
  file; \<open>FileFailed (Some n)\<close>: it left the first \<open>n\<close> bytes.
\<close>

datatype write_outcome = WriteOk | WriteFailed nat | SyncFailed

datatype file_outcome = FileOk | FileFailed "nat option"

record io =
  io_now :: datetime
  io_random :: "string option"
  io_write :: write_outcome
  io_seal_now :: datetime
  io_seal :: file_outcome
  io_roll :: bool
  io_ckpt_now :: datetime
  io_ckpt :: file_outcome

record open_io =
  oi_mkdir :: bool
  oi_heal_len :: bool
  oi_heal_sync :: bool
  oi_open :: bool

section \<open>Opening\<close>

fun verify_recovered :: "env \<Rightarrow> digest \<Rightarrow> u64 option \<Rightarrow> AuditRecord list \<Rightarrow> AuditError + unit" where
  "verify_recovered D prev expect [] = Ok ()"
| "verify_recovered D prev expect (r # rs) =
     (if ar_previous_hash r \<noteq> prev then Err (AE_Integrity (ChainBroken (ar_global_sequence r)))
      else if (case expect of Some want \<Rightarrow> ar_global_sequence r \<noteq> want | None \<Rightarrow> False)
      then Err (AE_Integrity (RecoveredGap (the expect) (ar_global_sequence r)))
      else if compute_record_hash D r \<noteq> ar_record_hash r
      then Err (AE_Integrity (RecoveredHash (ar_global_sequence r)))
      else verify_recovered D (ar_record_hash r) (Some (ar_global_sequence r + 1)) rs)"

definition verify_recovered_chain :: "env \<Rightarrow> AuditRecord list \<Rightarrow> AuditError + unit" where
  "verify_recovered_chain D rs = verify_recovered D digest_zero None rs"

definition head_before :: "env \<Rightarrow> dir \<Rightarrow> u64 list \<Rightarrow> u64 \<Rightarrow> AuditError + (u64 \<times> digest)" where
  "head_before D d ids last_id =
     (let prev_ids = filter (\<lambda>i. i < last_id) ids
      in if prev_ids = [] then Ok (1, digest_zero)
         else (case read_segment D d (segment_filename (last prev_ids)) of
                 Inl e \<Rightarrow> Err e
               | Inr rd \<Rightarrow>
                   if sr_records rd = [] then Ok (1, digest_zero)
                   else let l = last (sr_records rd) in Ok (ar_global_sequence l + 1, ar_record_hash l)))"

text \<open>
  Recovery of the writer state from the segment directory: \<open>(segment_id, next_seq, prev_hash,
  records_in_segment)\<close>, with the directory as healing left it.
\<close>

definition recover ::
  "env \<Rightarrow> dir \<Rightarrow> open_io \<Rightarrow> (AuditError + (u64 \<times> u64 \<times> digest \<times> u64)) \<times> dir" where
  "recover D d oi =
     (let ids = list_segment_ids d
      in if ids = [] then (Ok (1, 1, digest_zero, 0), d)
         else
           (let last_id = last ids; name = segment_filename last_id
            in case read_segment D d name of
                 Inl e \<Rightarrow> (Err e, d)
               | Inr rd \<Rightarrow>
                   (if sr_torn_tail rd \<and> \<not> oi_heal_len oi then (Err AE_Io, d)
                    else
                      (let d' = (if sr_torn_tail rd
                                 then AList.update name (take (sr_valid_len rd) (the (map_of d name))) d else d)
                       in if sr_torn_tail rd \<and> \<not> oi_heal_sync oi then (Err AE_Io, d')
                          else
                            (case verify_recovered_chain D (sr_records rd) of
                               Inl e \<Rightarrow> (Err e, d')
                             | Inr _ \<Rightarrow>
                                 (case (if sr_records rd = [] then head_before D d' ids last_id
                                        else let l = last (sr_records rd)
                                             in Ok (ar_global_sequence l + 1, ar_record_hash l)) of
                                    Inl e \<Rightarrow> (Err e, d')
                                  | Inr (next_seq, prev_hash) \<Rightarrow>
                                      (Ok (last_id, next_seq, prev_hash, of_nat (length (sr_records rd))), d')))))))"

text \<open>\<open>OpenOptions::create(true).append(true).open(name)\<close>: the file exists afterwards, contents kept.\<close>

definition touch :: "string \<Rightarrow> dir \<Rightarrow> dir" where
  "touch name d = (case map_of d name of Some _ \<Rightarrow> d | None \<Rightarrow> AList.update name [] d)"

definition open_ledger ::
  "env \<Rightarrow> disk \<Rightarrow> LedgerConfig \<Rightarrow> Signer \<Rightarrow> string \<Rightarrow> open_io \<Rightarrow> (AuditError + AuditLedger) \<times> disk" where
  "open_ledger D dk cfg sg pid oi =
     (if \<not> oi_mkdir oi then (Err AE_Io, dk)
      else
        (case recover D (dk_segments dk) oi of
           (Inl e, d') \<Rightarrow> (Err e, dk\<lparr>dk_segments := d'\<rparr>)
         | (Inr (seg, next_seq, prev_hash, count), d') \<Rightarrow>
             if \<not> oi_open oi then (Err AE_Io, dk\<lparr>dk_segments := d'\<rparr>)
             else
               (let dk' = dk\<lparr>dk_segments := touch (segment_filename seg) d'\<rparr>
                in (Ok \<lparr>al_cfg = cfg, al_process_id = pid, al_signer = sg,
                        al_inner = \<lparr>in_segment_id = seg, in_next_seq = next_seq, in_prev_hash = prev_hash,
                                    in_records_in_segment = count, in_records_since_ckpt = 0,
                                    in_file = segment_filename seg\<rparr>,
                        al_disk = dk'\<rparr>, dk'))))"

section \<open>Writing\<close>

abbreviation with_inner :: "(Inner \<Rightarrow> Inner) \<Rightarrow> AuditLedger \<Rightarrow> AuditLedger" where
  "with_inner f L \<equiv> L\<lparr>al_inner := f (al_inner L)\<rparr>"

definition append_file :: "string \<Rightarrow> bytes \<Rightarrow> AuditLedger \<Rightarrow> AuditLedger" where
  "append_file name b L =
     (let d = dk_segments (al_disk L)
      in L\<lparr>al_disk := (al_disk L)\<lparr>dk_segments :=
             AList.update name ((case map_of d name of None \<Rightarrow> [] | Some c \<Rightarrow> c) @ b) d\<rparr>\<rparr>)"

definition write_line :: "AuditLedger \<Rightarrow> bytes \<Rightarrow> write_outcome \<Rightarrow> bool \<times> AuditLedger" where
  "write_line L line w =
     (let f = in_file (al_inner L)
      in case w of
           WriteFailed n \<Rightarrow> (False, append_file f (take n line) L)
         | SyncFailed \<Rightarrow> (\<not> lc_fsync (al_cfg L), append_file f line L)
         | WriteOk \<Rightarrow> (True, append_file f line L))"

definition write_checkpoint_locked ::
  "env \<Rightarrow> AuditLedger \<Rightarrow> datetime \<Rightarrow> file_outcome \<Rightarrow> bool \<Rightarrow> (AuditError + unit) \<times> AuditLedger" where
  "write_checkpoint_locked D L now out sealed =
     (let inn = al_inner L;
          last_seq = in_next_seq inn - 1;
          c = Checkpoint_create D (al_signer L) now (lc_node_id (al_cfg L)) (in_segment_id inn) last_seq
                (in_prev_hash inn) (in_records_in_segment inn) sealed;
          put = (\<lambda>b. L\<lparr>al_disk := (al_disk L)\<lparr>dk_checkpoints :=
                   AList.update (checkpoint_filename last_seq) b (dk_checkpoints (al_disk L))\<rparr>\<rparr>)
      in case cp_to_json D c of
           None \<Rightarrow> (Err AE_Serde, L)
         | Some b \<Rightarrow>
             (case out of
                FileOk \<Rightarrow> (Ok (), put b)
              | FileFailed None \<Rightarrow> (Err AE_Io, L)
              | FileFailed (Some n) \<Rightarrow> (Err AE_Io, put (take n b))))"

definition seal_locked ::
  "env \<Rightarrow> AuditLedger \<Rightarrow> datetime \<Rightarrow> file_outcome \<Rightarrow> (AuditError + unit) \<times> AuditLedger" where
  "seal_locked D L now out =
     (if in_records_in_segment (al_inner L) = 0 then (Ok (), L)
      else (case write_checkpoint_locked D L now out True of
              (Inl e, L') \<Rightarrow> (Err e, L')
            | (Inr _, L') \<Rightarrow> (Ok (), with_inner (in_records_since_ckpt_update (\<lambda>_. 0)) L')))"

definition roll_locked :: "AuditLedger \<Rightarrow> bool \<Rightarrow> (AuditError + unit) \<times> AuditLedger" where
  "roll_locked L ok =
     (let new_id = in_segment_id (al_inner L) + 1; path = segment_filename new_id
      in if \<not> ok then (Err AE_Io, L)
         else (Ok (), (with_inner (\<lambda>i. i\<lparr>in_segment_id := new_id, in_records_in_segment := 0, in_file := path\<rparr>) L)
                 \<lparr>al_disk := (al_disk L)\<lparr>dk_segments := touch path (dk_segments (al_disk L))\<rparr>\<rparr>))"

text \<open>The stamping of the fields the ledger owns, up to and including hash and signature.\<close>

definition stamp :: "env \<Rightarrow> AuditLedger \<Rightarrow> datetime \<Rightarrow> string \<Rightarrow> AuditRecord \<Rightarrow> AuditRecord" where
  "stamp D L now rid r =
     (let cfg = al_cfg L; inn = al_inner L;
          r = r\<lparr>ar_audit_id := rid, ar_global_sequence := in_next_seq inn, ar_recorded_at := now,
                ar_node_id := lc_node_id cfg, ar_process_id := al_process_id L,
                ar_content_mode := lc_content_mode cfg\<rparr>;
          r = apply_content_mode D r;
          r = r\<lparr>ar_previous_hash := in_prev_hash inn\<rparr>;
          r = (if lc_per_record_sign cfg then r\<lparr>ar_signing_key_id := Some (sg_key_id (al_signer L))\<rparr>
               else r\<lparr>ar_signing_key_id := None, ar_signature := None\<rparr>);
          r = r\<lparr>ar_record_hash := compute_record_hash D r\<rparr>
      in if lc_per_record_sign cfg
         then r\<lparr>ar_signature := Some (sg_sign (al_signer L) (digest_bytes (ar_record_hash r)))\<rparr> else r)"

text \<open>The part of \<open>append\<close> after the segment is ready: stamp, serialise, write, advance, checkpoint.\<close>

definition append_stamped ::
  "env \<Rightarrow> AuditLedger \<Rightarrow> io \<Rightarrow> AuditRecord \<Rightarrow> (AuditError + AuditReceipt) \<times> AuditLedger" where
  "append_stamped D L i r0 =
     (case io_random i of
        None \<Rightarrow> (Err AE_Random, L)
      | Some rid \<Rightarrow>
          (let r = stamp D L (io_now i) rid r0
           in case rec_to_json D r of
                None \<Rightarrow> (Err AE_Serde, L)
              | Some js \<Rightarrow>
                  (case write_line L (js @ [10]) (io_write i) of
                     (False, L') \<Rightarrow> (Err AE_DurabilityFailed, L')
                   | (True, L') \<Rightarrow>
                       (let L'' = with_inner (\<lambda>n. n\<lparr>in_prev_hash := ar_record_hash r,
                                    in_next_seq := in_next_seq n + 1,
                                    in_records_in_segment := in_records_in_segment n + 1,
                                    in_records_since_ckpt := in_records_since_ckpt n + 1\<rparr>) L';
                            receipt = \<lparr>rc_audit_id = ar_audit_id r, rc_global_sequence = ar_global_sequence r,
                                       rc_record_hash = ar_record_hash r\<rparr>
                        in if lc_checkpoint_every (al_cfg L) \<le> in_records_since_ckpt (al_inner L'')
                           then (case write_checkpoint_locked D L'' (io_ckpt_now i) (io_ckpt i) False of
                                   (Inl e, M) \<Rightarrow> (Err e, M)
                                 | (Inr _, M) \<Rightarrow>
                                     (Ok receipt, with_inner (in_records_since_ckpt_update (\<lambda>_. 0)) M))
                           else (Ok receipt, L'')))))"

definition seal_and_roll :: "env \<Rightarrow> AuditLedger \<Rightarrow> io \<Rightarrow> (AuditError + unit) \<times> AuditLedger" where
  "seal_and_roll D L i =
     (case seal_locked D L (io_seal_now i) (io_seal i) of
        (Inl e, L') \<Rightarrow> (Err e, L')
      | (Inr _, L') \<Rightarrow> roll_locked L' (io_roll i))"

definition ledger_append :: "env \<Rightarrow> AuditLedger \<Rightarrow> io \<Rightarrow> AuditRecord \<Rightarrow> (AuditError + AuditReceipt) \<times> AuditLedger" where
  "ledger_append D L i r =
     (if lc_segment_max_records (al_cfg L) \<le> in_records_in_segment (al_inner L)
      then (case seal_and_roll D L i of
              (Inl e, L') \<Rightarrow> (Err e, L')
            | (Inr _, L') \<Rightarrow> append_stamped D L' i r)
      else append_stamped D L i r)"

definition checkpoint :: "env \<Rightarrow> AuditLedger \<Rightarrow> io \<Rightarrow> (AuditError + unit) \<times> AuditLedger" where
  "checkpoint D L i =
     (if in_next_seq (al_inner L) = 1 then (Ok (), L)
      else (case write_checkpoint_locked D L (io_ckpt_now i) (io_ckpt i) False of
              (Inl e, L') \<Rightarrow> (Err e, L')
            | (Inr _, L') \<Rightarrow> (Ok (), with_inner (in_records_since_ckpt_update (\<lambda>_. 0)) L')))"

definition seal :: "env \<Rightarrow> AuditLedger \<Rightarrow> io \<Rightarrow> (AuditError + unit) \<times> AuditLedger" where
  "seal D L i =
     (if in_records_in_segment (al_inner L) = 0 then (Ok (), L) else seal_and_roll D L i)"

definition head_sequence :: "AuditLedger \<Rightarrow> u64" where
  "head_sequence L = (if in_next_seq (al_inner L) = 0 then 0 else in_next_seq (al_inner L) - 1)"

end
