(* ===== verification/Audit_Verify.thy ===== *)
theory Audit_Verify
  imports Audit_Ledger
begin

text \<open>
  Offline verification (\<open>crates/garmr-audit/src/verify.rs\<close>): the trust root, the three passes over the
  segments, and the cross-check of the checkpoints. The details of a finding are kept as the data its
  message is formatted from.
\<close>

section \<open>Trust root, findings, report\<close>

type_synonym TrustRoot = "(string \<times> pubkey) list"

definition trust_new :: TrustRoot where
  "trust_new = []"

definition with_key :: "TrustRoot \<Rightarrow> string \<Rightarrow> pubkey \<Rightarrow> TrustRoot" where
  "with_key t kid pk = AList.update kid pk t"

definition from_public_key :: "env \<Rightarrow> pubkey \<Rightarrow> TrustRoot" where
  "from_public_key D pk = AList.update (key_id_from_public D pk) pk trust_new"

definition trust_is_empty :: "TrustRoot \<Rightarrow> bool" where
  "trust_is_empty t \<longleftrightarrow> t = []"

definition trust_get :: "TrustRoot \<Rightarrow> string \<Rightarrow> pubkey option" where
  "trust_get t kid = map_of t kid"

datatype FindingKind =
    HashMismatch | ChainBreak | SequenceGap | ParseError | BadSignature | Untrusted | Truncated
  | CheckpointMismatch | NoTrustRoot

datatype finding_detail =
    FD_NoTrustRoot
  | FD_UnparseableRecord u64 \<comment> \<open>segment\<close>
  | FD_HashMismatch digest digest \<comment> \<open>stored, computed\<close>
  | FD_ChainBreak
  | FD_SequenceGap u64 u64 \<comment> \<open>expected, found\<close>
  | FD_RecordSignatureInvalid
  | FD_RecordUntrustedKey
  | FD_UnparseableCheckpoint string
  | FD_CheckpointSignatureInvalid u64
  | FD_CheckpointUntrustedKey u64
  | FD_SequenceAbsent u64
  | FD_CheckpointHash u64
  | FD_SealedTruncated u64 u64 u64 \<comment> \<open>segment, sealed at, found\<close>
  | FD_SealedGrew u64 u64 u64 \<comment> \<open>segment, sealed at, now\<close>

record Finding =
  fd_kind :: FindingKind
  fd_sequence :: "u64 option"
  fd_detail :: finding_detail

record VerifyReport =
  vr_ok :: bool
  vr_records_checked :: u64
  vr_segments :: u64
  vr_checkpoints_checked :: u64
  vr_last_sequence :: u64
  vr_last_hash :: "digest option"
  vr_findings :: "Finding list"

definition push :: "FindingKind \<Rightarrow> u64 option \<Rightarrow> finding_detail \<Rightarrow> VerifyReport \<Rightarrow> VerifyReport" where
  "push k sq det rep =
     rep\<lparr>vr_findings := vr_findings rep @ [\<lparr>fd_kind = k, fd_sequence = sq, fd_detail = det\<rparr>], vr_ok := False\<rparr>"

record WalkedRecord =
  wr_sequence :: u64
  wr_segment_id :: u64
  wr_record_hash :: digest

datatype SignatureCheck = SC_Valid | SC_Absent | SC_Invalid | SC_Untrusted

record RecordCrypto =
  rc_recomputed :: digest
  rc_signature :: SignatureCheck

datatype ParsedItem = PI_Record u64 AuditRecord | PI_Unparseable u64

section \<open>Pass 1: parse\<close>

text \<open>\<open>data.split(|&b| b == b'\n')\<close>\<close>

fun split_newline :: "bytes \<Rightarrow> bytes \<Rightarrow> bytes list" where
  "split_newline cur [] = [cur]"
| "split_newline cur (b # bs) =
     (if b = 10 then cur # split_newline [] bs else split_newline (cur @ [b]) bs)"

definition parse_segment :: "env \<Rightarrow> u64 \<Rightarrow> bytes \<Rightarrow> ParsedItem list" where
  "parse_segment D sid data =
     map (\<lambda>line. case rec_from_json D line of Some r \<Rightarrow> PI_Record sid r | None \<Rightarrow> PI_Unparseable sid)
       (filter (\<lambda>line. line \<noteq> []) (split_newline [] data))"

fun parse_segments :: "env \<Rightarrow> dir \<Rightarrow> u64 list \<Rightarrow> AuditError + ParsedItem list" where
  "parse_segments D d [] = Ok []"
| "parse_segments D d (sid # ids) =
     (case map_of d (segment_filename sid) of
        None \<Rightarrow> Err AE_Io
      | Some data \<Rightarrow>
          (case parse_segments D d ids of
             Inl e \<Rightarrow> Err e
           | Inr items \<Rightarrow> Ok (parse_segment D sid data @ items)))"

section \<open>Pass 2: the independent per-record crypto\<close>

definition signature_check :: "env \<Rightarrow> TrustRoot \<Rightarrow> AuditRecord \<Rightarrow> SignatureCheck" where
  "signature_check D trust r =
     (case ar_signature r of
        Some s \<Rightarrow>
          (case Option.bind (ar_signing_key_id r) (trust_get trust) of
             Some pk \<Rightarrow> if verify D pk (digest_bytes (ar_record_hash r)) s then SC_Valid else SC_Invalid
           | None \<Rightarrow> if \<not> trust_is_empty trust then SC_Untrusted else SC_Absent)
      | None \<Rightarrow> SC_Absent)"

definition record_crypto :: "env \<Rightarrow> TrustRoot \<Rightarrow> ParsedItem \<Rightarrow> RecordCrypto" where
  "record_crypto D trust item =
     (case item of
        PI_Record _ r \<Rightarrow> \<lparr>rc_recomputed = compute_record_hash D r, rc_signature = signature_check D trust r\<rparr>
      | PI_Unparseable _ \<Rightarrow> \<lparr>rc_recomputed = digest_zero, rc_signature = SC_Absent\<rparr>)"

section \<open>Pass 3: the chain walk\<close>

record walk =
  wk_report :: VerifyReport
  wk_walked :: "WalkedRecord list"
  wk_by_seq :: "u64 \<rightharpoonup> digest"
  wk_seg_counts :: "u64 \<rightharpoonup> u64"
  wk_prev_hash :: digest
  wk_expected_seq :: u64

definition push_if :: "bool \<Rightarrow> FindingKind \<Rightarrow> u64 option \<Rightarrow> finding_detail \<Rightarrow> VerifyReport \<Rightarrow> VerifyReport" where
  "push_if c k sq det rep = (if c then push k sq det rep else rep)"

fun walk_item :: "walk \<Rightarrow> ParsedItem \<times> RecordCrypto \<Rightarrow> walk" where
  "walk_item w (PI_Unparseable sid, rc) =
     w\<lparr>wk_report := push ParseError None (FD_UnparseableRecord sid) (wk_report w)\<rparr>"
| "walk_item w (PI_Record sid r, rc) =
     (let sq = ar_global_sequence r;
          rep = (wk_report w)\<lparr>vr_records_checked := vr_records_checked (wk_report w) + 1\<rparr>;
          counts = (wk_seg_counts w)(sid \<mapsto> (case wk_seg_counts w sid of None \<Rightarrow> 0 | Some n \<Rightarrow> n) + 1);
          rep = push_if (rc_recomputed rc \<noteq> ar_record_hash r) HashMismatch (Some sq)
                  (FD_HashMismatch (ar_record_hash r) (rc_recomputed rc)) rep;
          rep = push_if (ar_previous_hash r \<noteq> wk_prev_hash w) ChainBreak (Some sq) FD_ChainBreak rep;
          rep = push_if (sq \<noteq> wk_expected_seq w) SequenceGap (Some sq)
                  (FD_SequenceGap (wk_expected_seq w) sq) rep;
          rep = (case rc_signature rc of
                   SC_Invalid \<Rightarrow> push BadSignature (Some sq) FD_RecordSignatureInvalid rep
                 | SC_Untrusted \<Rightarrow> push Untrusted (Some sq) FD_RecordUntrustedKey rep
                 | SC_Valid \<Rightarrow> rep
                 | SC_Absent \<Rightarrow> rep)
      in \<lparr>wk_report = rep,
          wk_walked = wk_walked w @ [\<lparr>wr_sequence = sq, wr_segment_id = sid, wr_record_hash = ar_record_hash r\<rparr>],
          wk_by_seq = (wk_by_seq w)(sq \<mapsto> ar_record_hash r),
          wk_seg_counts = counts,
          wk_prev_hash = ar_record_hash r,
          wk_expected_seq = sq + 1\<rparr>)"

section \<open>Checkpoints\<close>

definition verify_checkpoint :: "env \<Rightarrow> Checkpoint \<Rightarrow> TrustRoot \<Rightarrow> walk \<Rightarrow> VerifyReport \<Rightarrow> VerifyReport" where
  "verify_checkpoint D c trust w rep =
     (let sq = cp_global_sequence c;
          rep = (case trust_get trust (cp_signing_key_id c) of
                   Some pk \<Rightarrow> push_if (\<not> verify_with D c pk) BadSignature (Some sq)
                                (FD_CheckpointSignatureInvalid sq) rep
                 | None \<Rightarrow> push_if (\<not> trust_is_empty trust) Untrusted (Some sq)
                             (FD_CheckpointUntrustedKey sq) rep);
          rep = (case wk_by_seq w sq of
                   None \<Rightarrow> push Truncated (Some sq) (FD_SequenceAbsent sq) rep
                 | Some h \<Rightarrow> push_if (h \<noteq> cp_record_hash c) CheckpointMismatch (Some sq) (FD_CheckpointHash sq) rep)
      in if cp_sealed c
         then
           (let actual = (case wk_seg_counts w (cp_segment_id c) of None \<Rightarrow> 0 | Some n \<Rightarrow> n);
                counted_upto = of_nat (length (filter (\<lambda>x. wr_segment_id x = cp_segment_id c \<and> wr_sequence x \<le> sq)
                                         (wk_walked w)))
            in if counted_upto < cp_segment_record_count c
               then push Truncated (Some sq)
                      (FD_SealedTruncated (cp_segment_id c) (cp_segment_record_count c) counted_upto) rep
               else if cp_segment_record_count c < actual
               then push CheckpointMismatch (Some sq)
                      (FD_SealedGrew (cp_segment_id c) (cp_segment_record_count c) actual) rep
               else rep)
         else rep)"

fun verify_checkpoints ::
  "env \<Rightarrow> dir \<Rightarrow> TrustRoot \<Rightarrow> walk \<Rightarrow> string list \<Rightarrow> VerifyReport \<Rightarrow> AuditError + VerifyReport" where
  "verify_checkpoints D d trust w [] rep = Ok rep"
| "verify_checkpoints D d trust w (path # paths) rep =
     (case map_of d path of
        None \<Rightarrow> Err AE_Io
      | Some b \<Rightarrow>
          (case cp_from_json D b of
             None \<Rightarrow> verify_checkpoints D d trust w paths
                      (push ParseError None (FD_UnparseableCheckpoint path) rep)
           | Some c \<Rightarrow>
               verify_checkpoints D d trust w paths
                 (verify_checkpoint D c trust w
                    (rep\<lparr>vr_checkpoints_checked := vr_checkpoints_checked rep + 1\<rparr>))))"

section \<open>The whole verification\<close>

definition empty_report :: VerifyReport where
  "empty_report = \<lparr>vr_ok = True, vr_records_checked = 0, vr_segments = 0, vr_checkpoints_checked = 0,
     vr_last_sequence = 0, vr_last_hash = None, vr_findings = []\<rparr>"

definition walk_start :: "VerifyReport \<Rightarrow> walk" where
  "walk_start rep = \<lparr>wk_report = rep, wk_walked = [], wk_by_seq = Map.empty, wk_seg_counts = Map.empty,
     wk_prev_hash = digest_zero, wk_expected_seq = 1\<rparr>"

definition finish_walk :: "walk \<Rightarrow> VerifyReport" where
  "finish_walk w =
     (if wk_walked w = [] then wk_report w
      else let l = last (wk_walked w)
           in (wk_report w)\<lparr>vr_last_sequence := wr_sequence l, vr_last_hash := Some (wr_record_hash l)\<rparr>)"

definition verify_dir :: "env \<Rightarrow> disk \<Rightarrow> TrustRoot \<Rightarrow> AuditError + VerifyReport" where
  "verify_dir D dk trust =
     (let rep = push_if (trust_is_empty trust) NoTrustRoot None FD_NoTrustRoot empty_report;
          ids = list_segment_ids (dk_segments dk);
          rep = rep\<lparr>vr_segments := of_nat (length ids)\<rparr>
      in case parse_segments D (dk_segments dk) ids of
           Inl e \<Rightarrow> Err e
         | Inr items \<Rightarrow>
             (let crypto = map (record_crypto D trust) items;
                  w = foldl walk_item (walk_start rep) (zip items crypto)
              in verify_checkpoints D (dk_checkpoints dk) trust w
                   (list_checkpoint_paths (dk_checkpoints dk)) (finish_walk w)))"

end
