(* ===== verification/Audit_Spec.thy ===== *)
theory Audit_Spec
  imports Audit_Verify
begin

text \<open>
  The abstract specification of a sound ledger and the refinement result that \<open>verify_dir\<close> decides it:
  the verifier reports success exactly when the stored records form one unbroken chain from the genesis
  hash with sequence numbers 1, 2, 3, \<open>\<dots>\<close>, every record and checkpoint signature is authentic, and every
  checkpoint's commitment is met.
\<close>

section \<open>Chains\<close>

fun chain_ok :: "env \<Rightarrow> digest \<Rightarrow> u64 \<Rightarrow> AuditRecord list \<Rightarrow> bool" where
  "chain_ok D prev sq [] = True"
| "chain_ok D prev sq (r # rs) \<longleftrightarrow>
     ar_previous_hash r = prev \<and> ar_global_sequence r = sq \<and> compute_record_hash D r = ar_record_hash r \<and>
     chain_ok D (ar_record_hash r) (sq + 1) rs"

definition chain_head :: "digest \<Rightarrow> AuditRecord list \<Rightarrow> digest" where
  "chain_head prev rs = (if rs = [] then prev else ar_record_hash (last rs))"

lemma chain_head_simps [simp]:
  "chain_head p [] = p" "chain_head p (r # rs) = chain_head (ar_record_hash r) rs"
  "chain_head p (rs @ [r]) = ar_record_hash r"
  by (simp_all add: chain_head_def)

lemma chain_ok_append:
  "chain_ok D p sq (xs @ ys) \<longleftrightarrow>
     chain_ok D p sq xs \<and> chain_ok D (chain_head p xs) (sq + of_nat (length xs)) ys"
  by (induction xs arbitrary: p sq) (auto simp: algebra_simps)

lemma chain_ok_nth:
  "chain_ok D p sq rs \<Longrightarrow> i < length rs \<Longrightarrow> ar_global_sequence (rs ! i) = sq + of_nat i"
proof (induction rs arbitrary: p sq i)
  case (Cons r rs)
  then show ?case by (cases i) (auto simp: algebra_simps)
qed simp

text \<open>Below \<open>2 ^ 64\<close> records the sequence numbers of a chain are pairwise distinct.\<close>

lemma of_nat_u64_inj: "m < 2 ^ 64 \<Longrightarrow> n < 2 ^ 64 \<Longrightarrow> (of_nat m :: u64) = of_nat n \<longleftrightarrow> m = n"
  by (simp add: word_of_nat_eq_iff take_bit_nat_eq_self)

lemma chain_ok_distinct:
  assumes "chain_ok D p sq rs" "length rs < 2 ^ 64"
  shows "distinct (map ar_global_sequence rs)"
proof (rule distinct_conv_nth [THEN iffD2], intro allI impI)
  fix i j
  assume "i < length (map ar_global_sequence rs)" "j < length (map ar_global_sequence rs)" "i \<noteq> j"
  with assms show "map ar_global_sequence rs ! i \<noteq> map ar_global_sequence rs ! j"
    by (simp add: chain_ok_nth [OF assms(1)] of_nat_u64_inj)
qed

section \<open>What the checkpoints commit\<close>

type_synonym located = "u64 \<times> AuditRecord"

definition in_segment :: "u64 \<Rightarrow> located list \<Rightarrow> located list" where
  "in_segment sid ps = filter (\<lambda>p. fst p = sid) ps"

definition cp_authentic :: "env \<Rightarrow> TrustRoot \<Rightarrow> Checkpoint \<Rightarrow> bool" where
  "cp_authentic D trust c \<longleftrightarrow>
     (\<exists>pk. trust_get trust (cp_signing_key_id c) = Some pk \<and> verify_with D c pk)"

definition cp_satisfied :: "located list \<Rightarrow> Checkpoint \<Rightarrow> bool" where
  "cp_satisfied ps c \<longleftrightarrow>
     (\<exists>p \<in> set ps. ar_global_sequence (snd p) = cp_global_sequence c \<and> ar_record_hash (snd p) = cp_record_hash c) \<and>
     (cp_sealed c \<longrightarrow>
        (of_nat (length (in_segment (cp_segment_id c) ps)) :: u64) \<le> cp_segment_record_count c \<and>
        cp_segment_record_count c \<le> of_nat (length (filter
          (\<lambda>p. ar_global_sequence (snd p) \<le> cp_global_sequence c) (in_segment (cp_segment_id c) ps))))"

definition record_authentic :: "env \<Rightarrow> TrustRoot \<Rightarrow> AuditRecord \<Rightarrow> bool" where
  "record_authentic D trust r \<longleftrightarrow>
     (case ar_signature r of
        None \<Rightarrow> True
      | Some s \<Rightarrow> (\<exists>kid pk. ar_signing_key_id r = Some kid \<and> trust_get trust kid = Some pk \<and>
                   verify D pk (digest_bytes (ar_record_hash r)) s))"

text \<open>
  A ledger directory is sound for a trust root when its segments hold exactly the located records \<open>ps\<close>
  and everything they and the checkpoints claim is true.
\<close>

definition ledger_sound :: "env \<Rightarrow> disk \<Rightarrow> TrustRoot \<Rightarrow> located list \<Rightarrow> bool" where
  "ledger_sound D dk trust ps \<longleftrightarrow>
     \<not> trust_is_empty trust \<and>
     parse_segments D (dk_segments dk) (list_segment_ids (dk_segments dk)) =
       Ok (map (\<lambda>(sid, r). PI_Record sid r) ps) \<and>
     chain_ok D digest_zero 1 (map snd ps) \<and>
     list_all (record_authentic D trust) (map snd ps) \<and>
     (\<forall>path \<in> set (list_checkpoint_paths (dk_checkpoints dk)).
        \<exists>b c. map_of (dk_checkpoints dk) path = Some b \<and> cp_from_json D b = Some c \<and>
          cp_authentic D trust c \<and> cp_satisfied ps c)"

section \<open>The report only ever turns bad\<close>

lemma vr_ok_push [simp]: "\<not> vr_ok (push k sq det rep)"
  by (simp add: push_def)

lemma vr_ok_push_if [simp]: "vr_ok (push_if c k sq det rep) \<longleftrightarrow> \<not> c \<and> vr_ok rep"
  by (simp add: push_if_def)

definition sig_clean :: "SignatureCheck \<Rightarrow> bool" where
  "sig_clean c \<longleftrightarrow> c = SC_Valid \<or> c = SC_Absent"

lemma sig_clean_authentic:
  "\<not> trust_is_empty trust \<Longrightarrow> sig_clean (signature_check D trust r) \<longleftrightarrow> record_authentic D trust r"
  by (auto simp: sig_clean_def signature_check_def record_authentic_def bind_eq_Some_conv bind_eq_None_conv
      split: option.splits)

abbreviation crypto_zip :: "env \<Rightarrow> TrustRoot \<Rightarrow> ParsedItem list \<Rightarrow> (ParsedItem \<times> RecordCrypto) list" where
  "crypto_zip D trust items \<equiv> zip items (map (record_crypto D trust) items)"

fun item_clean :: "env \<Rightarrow> TrustRoot \<Rightarrow> ParsedItem \<Rightarrow> bool" where
  "item_clean D trust (PI_Record sid r) = sig_clean (signature_check D trust r)"
| "item_clean D trust (PI_Unparseable sid) = False"

fun item_records :: "ParsedItem list \<Rightarrow> located list" where
  "item_records [] = []"
| "item_records (PI_Record sid r # items) = (sid, r) # item_records items"
| "item_records (PI_Unparseable sid # items) = item_records items"

lemma item_records_map: "item_records (map (\<lambda>(sid, r). PI_Record sid r) ps) = ps"
  by (induction ps) auto

lemma items_all_records:
  "list_all (item_clean D trust) items \<Longrightarrow> items = map (\<lambda>(sid, r). PI_Record sid r) (item_records items)"
  by (induction items rule: item_records.induct) auto

lemma walk_item_ok:
  "vr_ok (wk_report (walk_item w (PI_Record sid r, record_crypto D trust (PI_Record sid r)))) \<longleftrightarrow>
     vr_ok (wk_report w) \<and> compute_record_hash D r = ar_record_hash r \<and> ar_previous_hash r = wk_prev_hash w \<and>
     ar_global_sequence r = wk_expected_seq w \<and> sig_clean (signature_check D trust r)"
  by (auto simp: record_crypto_def sig_clean_def Let_def split: SignatureCheck.splits)

lemma walk_item_chain [simp]:
  "wk_prev_hash (walk_item w (PI_Record sid r, rc)) = ar_record_hash r"
  "wk_expected_seq (walk_item w (PI_Record sid r, rc)) = ar_global_sequence r + 1"
  by (simp_all add: Let_def)

lemma walk_item_rest [simp]:
  "wk_walked (walk_item w (PI_Record sid r, rc)) = wk_walked w @
     [\<lparr>wr_sequence = ar_global_sequence r, wr_segment_id = sid, wr_record_hash = ar_record_hash r\<rparr>]"
  "wk_by_seq (walk_item w (PI_Record sid r, rc)) = (wk_by_seq w)(ar_global_sequence r \<mapsto> ar_record_hash r)"
  "wk_seg_counts (walk_item w (PI_Record sid r, rc)) =
     (wk_seg_counts w)(sid \<mapsto> (case wk_seg_counts w sid of None \<Rightarrow> 0 | Some n \<Rightarrow> n) + 1)"
  by (simp_all add: Let_def)

declare walk_item.simps(2) [simp del]

lemma walk_bad: "\<not> vr_ok (wk_report w) \<Longrightarrow> \<not> vr_ok (wk_report (foldl walk_item w (crypto_zip D trust items)))"
proof (induction items arbitrary: w)
  case (Cons i items)
  then show ?case by (cases i) (simp_all add: walk_item_ok)
qed simp

lemma walk_ok_iff:
  "vr_ok (wk_report (foldl walk_item w (crypto_zip D trust items))) \<longleftrightarrow>
     vr_ok (wk_report w) \<and> list_all (item_clean D trust) items \<and>
     chain_ok D (wk_prev_hash w) (wk_expected_seq w) (map snd (item_records items))"
proof (induction items arbitrary: w)
  case (Cons i items)
  show ?case
  proof (cases i)
    case (PI_Record sid r)
    then show ?thesis
      by (auto simp: Cons.IH walk_item_ok)
  next
    case (PI_Unparseable sid)
    then show ?thesis by (simp add: walk_bad)
  qed
qed simp

section \<open>What the walk collects\<close>

abbreviation located_items :: "located list \<Rightarrow> ParsedItem list" where
  "located_items ps \<equiv> map (\<lambda>(sid, r). PI_Record sid r) ps"

definition walked_of :: "located \<Rightarrow> WalkedRecord" where
  "walked_of p = \<lparr>wr_sequence = ar_global_sequence (snd p), wr_segment_id = fst p,
     wr_record_hash = ar_record_hash (snd p)\<rparr>"

lemma walk_walked:
  "wk_walked (foldl walk_item w (crypto_zip D trust (located_items ps))) = wk_walked w @ map walked_of ps"
  by (induction ps arbitrary: w) (auto simp: walked_of_def)

lemma walk_by_seq:
  "wk_by_seq (foldl walk_item w (crypto_zip D trust (located_items ps))) =
     wk_by_seq w ++ map_of (rev (map (\<lambda>p. (ar_global_sequence (snd p), ar_record_hash (snd p))) ps))"
  by (induction ps arbitrary: w) auto

definition seg_count :: "(u64 \<rightharpoonup> u64) \<Rightarrow> u64 \<Rightarrow> u64" where
  "seg_count m sid = (case m sid of None \<Rightarrow> 0 | Some n \<Rightarrow> n)"

lemma walk_seg_counts:
  "seg_count (wk_seg_counts (foldl walk_item w (crypto_zip D trust (located_items ps)))) sid =
     seg_count (wk_seg_counts w) sid + of_nat (length (in_segment sid ps))"
  by (induction ps arbitrary: w) (auto simp: in_segment_def seg_count_def split: option.splits)

text \<open>
  In a sound walk the lookup table by sequence number is exact, since no number occurs twice.
\<close>

lemma by_seq_exact:
  assumes "distinct (map (\<lambda>p. ar_global_sequence (snd p)) ps)"
  shows "map_of (rev (map (\<lambda>p. (ar_global_sequence (snd p), ar_record_hash (snd p))) ps)) sq = Some h \<longleftrightarrow>
     (\<exists>p \<in> set ps. ar_global_sequence (snd p) = sq \<and> ar_record_hash (snd p) = h)"
proof -
  have "distinct (map fst (rev (map (\<lambda>p. (ar_global_sequence (snd p), ar_record_hash (snd p))) ps)))"
    using assms by (simp add: comp_def flip: rev_map)
  from map_of_eq_Some_iff [OF this] show ?thesis by force
qed

text \<open>The checkpoint check agrees with the specification.\<close>

lemma verify_checkpoint_ok:
  assumes "\<not> trust_is_empty trust" "distinct (map (\<lambda>p. ar_global_sequence (snd p)) ps)"
    and walked: "wk_walked w = map walked_of ps"
    and by_seq: "wk_by_seq w = map_of (rev (map (\<lambda>p. (ar_global_sequence (snd p), ar_record_hash (snd p))) ps))"
    and counts: "\<And>sid. seg_count (wk_seg_counts w) sid = of_nat (length (in_segment sid ps))"
  shows "vr_ok (verify_checkpoint D c trust w rep) \<longleftrightarrow> vr_ok rep \<and> cp_authentic D trust c \<and> cp_satisfied ps c"
proof -
  let ?sq = "cp_global_sequence c"
  have upto: "filter (\<lambda>x. wr_segment_id x = cp_segment_id c \<and> wr_sequence x \<le> ?sq) (wk_walked w)
      = map walked_of (filter (\<lambda>p. ar_global_sequence (snd p) \<le> ?sq) (in_segment (cp_segment_id c) ps))"
    by (simp add: walked filter_map comp_def walked_of_def in_segment_def conj_commute)
  have actual: "(case wk_seg_counts w (cp_segment_id c) of None \<Rightarrow> 0 | Some n \<Rightarrow> n)
      = of_nat (length (in_segment (cp_segment_id c) ps))"
    using counts [of "cp_segment_id c"] by (simp only: seg_count_def)
  have present: "wk_by_seq w ?sq = Some (cp_record_hash c) \<longleftrightarrow>
      (\<exists>p \<in> set ps. ar_global_sequence (snd p) = ?sq \<and> ar_record_hash (snd p) = cp_record_hash c)"
    unfolding by_seq by (rule by_seq_exact [OF assms(2)])
  show ?thesis
    unfolding verify_checkpoint_def Let_def upto actual cp_satisfied_def cp_authentic_def present [symmetric]
    using assms(1) by (auto split: option.splits)
qed

lemma verify_checkpoint_bad: "\<not> vr_ok rep \<Longrightarrow> \<not> vr_ok (verify_checkpoint D c trust w rep)"
  by (auto simp: verify_checkpoint_def Let_def split: option.splits)

lemma verify_checkpoints_bad:
  "\<not> vr_ok rep \<Longrightarrow> verify_checkpoints D d trust w paths rep = Ok rep' \<Longrightarrow> \<not> vr_ok rep'"
proof (induction paths arbitrary: rep)
  case (Cons path paths)
  from Cons.prems show ?case
    by (auto split: option.splits simp: verify_checkpoint_bad dest!: Cons.IH [rotated])
qed simp

lemma verify_checkpoints_ok:
  assumes step: "\<And>c rep. vr_ok (verify_checkpoint D c trust w rep) \<longleftrightarrow> vr_ok rep \<and> good c"
  shows "(\<exists>rep'. verify_checkpoints D d trust w paths rep = Ok rep' \<and> vr_ok rep') \<longleftrightarrow>
     vr_ok rep \<and> (\<forall>path \<in> set paths. \<exists>b c. map_of d path = Some b \<and> cp_from_json D b = Some c \<and> good c)"
proof (induction paths arbitrary: rep)
  case Nil
  then show ?case by simp
next
  case (Cons path paths)
  show ?case
  proof (cases "map_of d path")
    case None
    then show ?thesis by simp
  next
    case (Some b)
    show ?thesis
    proof (cases "cp_from_json D b")
      case None
      with Some show ?thesis by (auto dest: verify_checkpoints_bad [rotated])
    next
      case (Some c)
      with \<open>map_of d path = Some b\<close> show ?thesis by (auto simp: Cons.IH step)
    qed
  qed
qed

lemma finish_walk_ok [simp]: "vr_ok (finish_walk w) = vr_ok (wk_report w)"
  by (simp add: finish_walk_def Let_def)

section \<open>The verifier decides soundness\<close>

lemma walk_start_simps [simp]:
  "wk_report (walk_start rep) = rep" "wk_walked (walk_start rep) = []" "wk_by_seq (walk_start rep) = Map.empty"
  "wk_seg_counts (walk_start rep) = Map.empty" "wk_prev_hash (walk_start rep) = digest_zero"
  "wk_expected_seq (walk_start rep) = 1"
  by (simp_all add: walk_start_def)

lemma verify_dir_located:
  assumes items: "parse_segments D (dk_segments dk) (list_segment_ids (dk_segments dk)) = Ok (located_items ps)"
    and trust: "\<not> trust_is_empty trust" and len: "length ps < 2 ^ 64"
    and ok: "chain_ok D digest_zero 1 (map snd ps)" "list_all (record_authentic D trust) (map snd ps)"
  shows "(\<exists>rep. verify_dir D dk trust = Ok rep \<and> vr_ok rep) \<longleftrightarrow>
     (\<forall>path \<in> set (list_checkpoint_paths (dk_checkpoints dk)).
        \<exists>b c. map_of (dk_checkpoints dk) path = Some b \<and> cp_from_json D b = Some c \<and>
          cp_authentic D trust c \<and> cp_satisfied ps c)"
proof -
  define rep where "rep = empty_report\<lparr>vr_segments := of_nat (length (list_segment_ids (dk_segments dk)))\<rparr>"
  define w where "w = foldl walk_item (walk_start rep) (crypto_zip D trust (located_items ps))"
  have distinct: "distinct (map (\<lambda>p. ar_global_sequence (snd p)) ps)"
    using chain_ok_distinct [OF ok(1)] len by (simp add: comp_def)
  have clean: "list_all (item_clean D trust) (located_items ps)"
    using ok(2) by (auto simp: list_all_iff sig_clean_authentic [OF trust])
  have "vr_ok (wk_report w)"
    unfolding w_def walk_ok_iff using clean ok(1) by (simp add: rep_def empty_report_def item_records_map)
  moreover have "verify_dir D dk trust = verify_checkpoints D (dk_checkpoints dk) trust w
      (list_checkpoint_paths (dk_checkpoints dk)) (finish_walk w)"
    using trust by (simp add: verify_dir_def items Let_def push_if_def w_def rep_def)
  moreover have "vr_ok (verify_checkpoint D c trust w rp) \<longleftrightarrow> vr_ok rp \<and> cp_authentic D trust c \<and> cp_satisfied ps c"
    for c rp
    by (rule verify_checkpoint_ok [OF trust distinct], unfold w_def walk_walked walk_by_seq walk_seg_counts)
      (simp_all add: seg_count_def)
  ultimately show ?thesis
    using verify_checkpoints_ok [where w = w] by simp
qed

lemma verify_dir_decides:
  assumes "\<And>items. parse_segments D (dk_segments dk) (list_segment_ids (dk_segments dk)) = Ok items \<Longrightarrow>
    length items < 2 ^ 64"
  shows "(\<exists>rep. verify_dir D dk trust = Ok rep \<and> vr_ok rep) \<longleftrightarrow> (\<exists>ps. ledger_sound D dk trust ps)"
proof
  assume "\<exists>rep. verify_dir D dk trust = Ok rep \<and> vr_ok rep"
  then obtain rep where rep: "verify_dir D dk trust = Ok rep" "vr_ok rep" by blast
  then obtain items where items:
    "parse_segments D (dk_segments dk) (list_segment_ids (dk_segments dk)) = Ok items"
    by (auto simp: verify_dir_def Let_def split: sum.splits)
  define r0 where "r0 = (push_if (trust_is_empty trust) NoTrustRoot None FD_NoTrustRoot empty_report)
    \<lparr>vr_segments := of_nat (length (list_segment_ids (dk_segments dk)))\<rparr>"
  define w where "w = foldl walk_item (walk_start r0) (crypto_zip D trust items)"
  have "verify_checkpoints D (dk_checkpoints dk) trust w (list_checkpoint_paths (dk_checkpoints dk))
      (finish_walk w) = Ok rep"
    using rep(1) items by (simp add: verify_dir_def Let_def r0_def w_def)
  with rep(2) have "vr_ok (finish_walk w)"
    using verify_checkpoints_bad by blast
  then have "vr_ok (wk_report (foldl walk_item (walk_start r0) (crypto_zip D trust items)))"
    by (simp add: w_def)
  then have trust: "\<not> trust_is_empty trust" and clean: "list_all (item_clean D trust) items"
    and chain: "chain_ok D digest_zero 1 (map snd (item_records items))"
    by (auto simp: walk_ok_iff r0_def)
  define ps where "ps = item_records items"
  have eq: "items = located_items ps"
    unfolding ps_def by (rule items_all_records [OF clean])
  have auth: "list_all (record_authentic D trust) (map snd ps)"
    using clean unfolding eq by (auto simp: list_all_iff sig_clean_authentic [OF trust])
  have len: "length ps < 2 ^ 64" using assms [OF items] eq by simp
  show "\<exists>ps. ledger_sound D dk trust ps"
    using verify_dir_located [OF items [unfolded eq] trust len chain [folded ps_def] auth] rep trust items eq
      chain auth
    unfolding ledger_sound_def ps_def [symmetric] by auto
next
  assume "\<exists>ps. ledger_sound D dk trust ps"
  then obtain ps where ps: "ledger_sound D dk trust ps" by blast
  then have "length ps < 2 ^ 64" using assms [of "located_items ps"] by (simp add: ledger_sound_def)
  with ps verify_dir_located [of D dk ps trust] show "\<exists>rep. verify_dir D dk trust = Ok rep \<and> vr_ok rep"
    by (simp add: ledger_sound_def)
qed

section \<open>A hash commits to the whole past\<close>

lemma chain_ok_prev:
  "chain_ok D p sq rs \<Longrightarrow> Suc i < length rs \<Longrightarrow> ar_previous_hash (rs ! Suc i) = ar_record_hash (rs ! i)"
proof (induction rs arbitrary: p sq i)
  case (Cons r rs)
  then show ?case by (cases i; cases rs) auto
qed simp

lemma chain_ok_hash:
  "chain_ok D p sq rs \<Longrightarrow> i < length rs \<Longrightarrow> ar_record_hash (rs ! i) = blake3 D (canonical_body D (rs ! i))"
proof (induction rs arbitrary: p sq i)
  case (Cons r rs)
  then show ?case by (cases i) (auto simp: compute_record_hash_def)
qed simp

lemma committed_fields:
  assumes "committed r = committed r'"
  shows "ar_global_sequence r = ar_global_sequence r'" "ar_previous_hash r = ar_previous_hash r'"
  using arg_cong [OF assms, of ar_global_sequence] arg_cong [OF assms, of ar_previous_hash]
  by (simp_all add: committed_def)

text \<open>
  Two chains that agree on one record hash agree on everything up to and including that record, unless
  two of their canonical bodies collide under BLAKE3.
\<close>

lemma chain_binding:
  assumes xs: "chain_ok D digest_zero 1 xs" "length xs < 2 ^ 64" "list_all (canon_ok D) xs"
    and ys: "chain_ok D digest_zero 1 ys" "length ys < 2 ^ 64" "list_all (canon_ok D) ys"
    and D: "chrono_ok D" "inj_on (blake3 D) (canonical_body D ` (set xs \<union> set ys))"
  shows "i < length xs \<Longrightarrow> j < length ys \<Longrightarrow> ar_record_hash (xs ! i) = ar_record_hash (ys ! j) \<Longrightarrow>
     i = j \<and> map committed (take (Suc i) xs) = map committed (take (Suc j) ys)"
proof -
  have same: "i = j \<and> committed (xs ! i) = committed (ys ! j)"
    if "i < length xs" "j < length ys" "ar_record_hash (xs ! i) = ar_record_hash (ys ! j)" for i j
  proof -
    from that(3) have "blake3 D (canonical_body D (xs ! i)) = blake3 D (canonical_body D (ys ! j))"
      using chain_ok_hash [OF xs(1) that(1)] chain_ok_hash [OF ys(1) that(2)] by simp
    then have "canonical_body D (xs ! i) = canonical_body D (ys ! j)"
      by (rule inj_onD [OF D(2)]) (simp_all add: that)
    with that D(1) xs(3) ys(3) have eq: "committed (xs ! i) = committed (ys ! j)"
      by (simp add: canonical_body_inj list_all_length)
    then have "(of_nat i :: u64) = of_nat j"
      using committed_fields(1) [OF eq] chain_ok_nth [OF xs(1) that(1)] chain_ok_nth [OF ys(1) that(2)] by simp
    with eq that xs(2) ys(2) show ?thesis by (simp add: of_nat_u64_inj)
  qed
  show "i < length xs \<Longrightarrow> j < length ys \<Longrightarrow> ar_record_hash (xs ! i) = ar_record_hash (ys ! j) \<Longrightarrow>
     i = j \<and> map committed (take (Suc i) xs) = map committed (take (Suc j) ys)"
  proof (induction i arbitrary: j)
  case (0 j)
  from same [OF 0] have "j = 0" "committed (xs ! 0) = committed (ys ! j)" by auto
  with 0 show ?case by (cases xs; cases ys) auto
next
  case (Suc i j)
  from same [OF Suc.prems] have j: "Suc i = j" and eq: "committed (xs ! Suc i) = committed (ys ! j)" by auto
  from j eq Suc.prems have "ar_record_hash (xs ! i) = ar_record_hash (ys ! i)"
    using chain_ok_prev [OF xs(1), of i] chain_ok_prev [OF ys(1), of i] committed_fields(2) [OF eq] by simp
  with Suc.IH [of i] Suc.prems j have "map committed (take (Suc i) xs) = map committed (take (Suc i) ys)"
    by simp
  with j eq Suc.prems show ?case
    by (simp add: take_Suc_conv_app_nth)
  qed
qed

end
