(* ===== verification/Audit_Honest.thy ===== *)
theory Audit_Honest
  imports Audit_Spec
begin

text \<open>
  The writer keeps a sound ledger: an invariant that relates the writer state and the two directories to
  the history of records (grouped by segment), its preservation by every operation, and what
  \<open>open_ledger\<close> recovers from a directory the writer left.
\<close>

section \<open>The segment directory of a history\<close>

definition seg_text :: "env \<Rightarrow> AuditRecord list \<Rightarrow> bytes" where
  "seg_text D g = lines_of (map (\<lambda>r. the (rec_to_json D r)) g)"

fun seg_entries :: "env \<Rightarrow> nat \<Rightarrow> AuditRecord list list \<Rightarrow> dir" where
  "seg_entries D n [] = []"
| "seg_entries D n (g # gs) = (segment_filename (of_nat n), seg_text D g) # seg_entries D (Suc n) gs"

fun seg_pairs :: "nat \<Rightarrow> AuditRecord list list \<Rightarrow> located list" where
  "seg_pairs n [] = []"
| "seg_pairs n (g # gs) = map (Pair (of_nat n)) g @ seg_pairs (Suc n) gs"

lemma seg_entries_append:
  "seg_entries D n (xs @ ys) = seg_entries D n xs @ seg_entries D (n + length xs) ys"
  by (induction xs arbitrary: n) simp_all

lemma seg_pairs_append: "seg_pairs n (xs @ ys) = seg_pairs n xs @ seg_pairs (n + length xs) ys"
  by (induction xs arbitrary: n) simp_all

lemma map_snd_seg_pairs [simp]: "map snd (seg_pairs n gs) = concat gs"
  by (induction gs arbitrary: n) (simp_all add: comp_def)

lemma length_seg_pairs [simp]: "length (seg_pairs n gs) = length (concat gs)"
  by (induction gs arbitrary: n) simp_all

lemma seg_keys: "map fst (seg_entries D n gs) = map (\<lambda>k. segment_filename (of_nat k)) [n..<n + length gs]"
proof (induction gs arbitrary: n)
  case (Cons g gs)
  have "[n..<n + length (g # gs)] = n # [Suc n..<Suc n + length gs]"
    by (simp add: upt_rec)
  then show ?case using Cons.IH [of "Suc n"] by simp
qed simp

lemma seg_key_fresh:
  assumes "m < 2 ^ 64" "n + length gs \<le> m"
  shows "segment_filename (of_nat m) \<notin> set (map fst (seg_entries D n gs))"
proof
  assume "segment_filename (of_nat m) \<in> set (map fst (seg_entries D n gs))"
  then obtain k where "n \<le> k" "k < n + length gs" "(of_nat m :: u64) = of_nat k"
    unfolding seg_keys by auto
  with assms show False using of_nat_u64_inj [of m k] by simp
qed

lemma map_of_fresh: "k \<notin> set (map fst xs) \<Longrightarrow> map_of xs k = None"
  by (simp add: map_of_eq_None_iff)

lemma update_fresh: "k \<notin> set (map fst xs) \<Longrightarrow> AList.update k v (xs @ ys) = xs @ AList.update k v ys"
  by (induction xs) auto

lemma list_segment_ids_seg:
  assumes "length gs < 2 ^ 64"
  shows "list_segment_ids (seg_entries D 1 gs) = map of_nat [1..<Suc (length gs)]"
proof -
  have ids: "List.map_filter (\<lambda>(name, _). Option.bind (strip_suffix ''.jsonl'' name) from_str_radix16)
      (seg_entries D n gs) = map of_nat [n..<n + length gs]" for n
  proof (induction gs arbitrary: n)
    case (Cons g gs)
    have "[n..<n + length (g # gs)] = n # [Suc n..<Suc n + length gs]"
      by (simp add: upt_rec)
    then show ?case using Cons.IH [of "Suc n"]
      by (simp add: List.map_filter_simps segment_filename_id)
  qed (simp add: List.map_filter_simps)
  have "sorted (map (of_nat :: nat \<Rightarrow> u64) [1..<Suc (length gs)])"
    using assms by (auto simp: sorted_iff_nth_mono word_le_nat_alt unat_of_nat simp del: upt_Suc of_nat_Suc)
  then show ?thesis
    unfolding list_segment_ids_def ids [of 1] by (simp add: sorted_sort_id del: upt_Suc)
qed

section \<open>Parsing it back\<close>

lemma split_newline_line:
  "10 \<notin> set line \<Longrightarrow> split_newline cur (line @ 10 # rest) = (cur @ line) # split_newline [] rest"
  by (induction line arbitrary: cur) auto

lemma split_newline_lines:
  "list_all (\<lambda>b. 10 \<notin> set b) bs \<Longrightarrow> split_newline [] (lines_of bs) = bs @ [[]]"
  by (induction bs) (simp_all add: split_newline_line)

definition writable :: "env \<Rightarrow> AuditRecord list \<Rightarrow> bool" where
  "writable D rs \<longleftrightarrow> list_all (\<lambda>r. rec_to_json D r \<noteq> None) rs"

lemma parse_seg_text:
  assumes "serde_ok D" "writable D g"
  shows "parse_segment D sid (seg_text D g) = map (PI_Record sid) g"
proof -
  have line: "rec_from_json D (the (rec_to_json D r)) = Some r \<and> the (rec_to_json D r) \<noteq> [] \<and>
      10 \<notin> set (the (rec_to_json D r))" if "r \<in> set g" for r
    using assms that by (auto simp: serde_ok_def writable_def list_all_iff)
  then have "filter (\<lambda>l. l \<noteq> []) (split_newline [] (seg_text D g)) = map (\<lambda>r. the (rec_to_json D r)) g"
    by (subst seg_text_def, subst split_newline_lines) (auto simp: list_all_iff intro!: filter_True)
  then show ?thesis
    unfolding parse_segment_def using line by simp
qed

lemma parse_segments_seg:
  assumes "serde_ok D" "writable D (concat gs)"
    and "\<And>i. i < length gs \<Longrightarrow> map_of d (segment_filename (of_nat (n + i))) = Some (seg_text D (gs ! i))"
  shows "parse_segments D d (map of_nat [n..<n + length gs]) = Ok (located_items (seg_pairs n gs))"
  using assms(2,3)
proof (induction gs arbitrary: n)
  case (Cons g gs)
  have upt: "[n..<n + length (g # gs)] = n # [Suc n..<Suc n + length gs]"
    by (simp add: upt_rec)
  have "parse_segments D d (map of_nat [Suc n..<Suc n + length gs]) = Ok (located_items (seg_pairs (Suc n) gs))"
    by (rule Cons.IH) (use Cons.prems(1) Cons.prems(2) [of "Suc i" for i] in \<open>auto simp: writable_def\<close>)
  moreover have "map_of d (segment_filename (of_nat n)) = Some (seg_text D g)"
    using Cons.prems(2) [of 0] by simp
  moreover have "parse_segment D (of_nat n) (seg_text D g) = map (PI_Record (of_nat n)) g"
    using parse_seg_text [OF assms(1)] Cons.prems(1) by (simp add: writable_def)
  ultimately show ?case
    unfolding upt by simp
qed simp

lemma map_of_seg_entries:
  assumes "n + length gs \<le> 2 ^ 64" "i < length gs"
  shows "map_of (seg_entries D n gs) (segment_filename (of_nat (n + i))) = Some (seg_text D (gs ! i))"
  using assms
proof (induction gs arbitrary: n i)
  case (Cons g gs)
  show ?case
  proof (cases i)
    case (Suc j)
    with Cons.prems have "(of_nat n :: u64) \<noteq> of_nat (n + i)"
      by (subst of_nat_u64_inj) auto
    with Cons.IH [of "Suc n" j] Cons.prems Suc show ?thesis by simp
  qed simp
qed simp

lemma parse_segments_history:
  assumes "serde_ok D" "writable D (concat gs)" "length gs < 2 ^ 64"
  shows "parse_segments D (seg_entries D 1 gs) (list_segment_ids (seg_entries D 1 gs)) =
    Ok (located_items (seg_pairs 1 gs))"
  unfolding list_segment_ids_seg [OF assms(3)]
  using parse_segments_seg [OF assms(1,2), of "seg_entries D 1 gs" 1] map_of_seg_entries [of 1 gs _ D] assms(3)
  by (simp del: upt_Suc of_nat_add of_nat_Suc)

section \<open>The invariant\<close>

lemma unat_of_nat_u64: "n < 2 ^ 64 \<Longrightarrow> unat (of_nat n :: u64) = n"
  by (simp add: unat_of_nat)

lemma of_nat_u64_le: "m \<le> n \<Longrightarrow> n < 2 ^ 64 \<Longrightarrow> (of_nat m :: u64) \<le> of_nat n"
  by (simp add: word_le_nat_alt unat_of_nat)

definition sig_honest :: "env \<Rightarrow> Signer \<Rightarrow> AuditRecord \<Rightarrow> bool" where
  "sig_honest D sg r \<longleftrightarrow>
     (case ar_signature r of
        None \<Rightarrow> True
      | Some s \<Rightarrow> ar_signing_key_id r = Some (sg_key_id sg) \<and>
                 verify D (sg_public_key sg) (digest_bytes (ar_record_hash r)) s)"

text \<open>
  An honest checkpoint: signed by the ledger's key, committing a recorded (sequence, hash); if sealed, its
  segment held exactly the committed number of records. It is closed when no further record can enter its
  segment: it is not sealed, another segment is current, or the segment is full.
\<close>

definition cp_honest :: "env \<Rightarrow> Signer \<Rightarrow> AuditRecord list list \<Rightarrow> Checkpoint \<Rightarrow> bool" where
  "cp_honest D sg gs c \<longleftrightarrow>
     cp_signing_key_id c = sg_key_id sg \<and> verify_with D c (sg_public_key sg) \<and>
     unat (cp_segment_id c) \<le> length gs \<and>
     (\<exists>r \<in> set (concat gs). ar_global_sequence r = cp_global_sequence c \<and> ar_record_hash r = cp_record_hash c) \<and>
     (cp_sealed c \<longrightarrow>
        cp_segment_record_count c = of_nat (length (in_segment (cp_segment_id c) (seg_pairs 1 gs))) \<and>
        (\<forall>p \<in> set (in_segment (cp_segment_id c) (seg_pairs 1 gs)).
           ar_global_sequence (snd p) \<le> cp_global_sequence c))"

definition cp_elsewhere :: "AuditLedger \<Rightarrow> Checkpoint \<Rightarrow> bool" where
  "cp_elsewhere L c \<longleftrightarrow> (cp_sealed c \<longrightarrow> cp_segment_id c \<noteq> in_segment_id (al_inner L))"

definition segment_full :: "AuditLedger \<Rightarrow> bool" where
  "segment_full L \<longleftrightarrow> lc_segment_max_records (al_cfg L) \<le> in_records_in_segment (al_inner L)"

text \<open>Every checkpoint on disk parses to one with the property.\<close>

definition cps_all :: "env \<Rightarrow> AuditLedger \<Rightarrow> (Checkpoint \<Rightarrow> bool) \<Rightarrow> bool" where
  "cps_all D L P \<longleftrightarrow> (\<forall>b \<in> snd ` set (dk_checkpoints (al_disk L)). \<exists>c. cp_from_json D b = Some c \<and> P c)"

definition writer_inv :: "env \<Rightarrow> AuditLedger \<Rightarrow> AuditRecord list list \<Rightarrow> bool" where
  "writer_inv D L gs \<longleftrightarrow>
     gs \<noteq> [] \<and> writable D (concat gs) \<and> chain_ok D digest_zero 1 (concat gs) \<and>
     list_all (sig_honest D (al_signer L)) (concat gs) \<and>
     dk_segments (al_disk L) = seg_entries D 1 gs \<and>
     in_segment_id (al_inner L) = of_nat (length gs) \<and>
     in_file (al_inner L) = segment_filename (of_nat (length gs)) \<and>
     in_next_seq (al_inner L) = of_nat (Suc (length (concat gs))) \<and>
     in_prev_hash (al_inner L) = chain_head digest_zero (concat gs) \<and>
     in_records_in_segment (al_inner L) = of_nat (length (last gs))"

definition ledger_inv :: "env \<Rightarrow> AuditLedger \<Rightarrow> AuditRecord list list \<Rightarrow> bool" where
  "ledger_inv D L gs \<longleftrightarrow> writer_inv D L gs \<and> cps_all D L (cp_honest D (al_signer L) gs) \<and>
     (segment_full L \<or> cps_all D L (cp_elsewhere L))"

text \<open>Only the current segment can be empty.\<close>

definition no_gap :: "AuditRecord list list \<Rightarrow> bool" where
  "no_gap gs \<longleftrightarrow> list_all (\<lambda>g. g \<noteq> []) (butlast gs)"

lemma no_gap_roll: "gs \<noteq> [] \<Longrightarrow> no_gap gs \<Longrightarrow> last gs \<noteq> [] \<Longrightarrow> no_gap (gs @ [[]])"
  using list_all_append [of "\<lambda>g. g \<noteq> []" "butlast gs" "[last gs]"] by (simp add: no_gap_def)

text \<open>Segment and sequence numbers have not wrapped.\<close>

definition room :: "AuditRecord list list \<Rightarrow> bool" where
  "room gs \<longleftrightarrow> length gs < 2 ^ 64 \<and> length (concat gs) < 2 ^ 64"

lemma room_next [simp]: "room (gs @ [[]]) \<Longrightarrow> room gs"
  by (simp add: room_def)

text \<open>The invariant gives the specification of a sound directory.\<close>

lemma in_segment_pairs:
  "in_segment sid (xs @ ys) = in_segment sid xs @ in_segment sid ys"
  by (simp add: in_segment_def)

lemma cp_honest_spec:
  assumes "cp_honest D sg gs c" "trust_get trust (sg_key_id sg) = Some (sg_public_key sg)"
  shows "cp_authentic D trust c \<and> cp_satisfied (seg_pairs 1 gs) c"
proof
  show "cp_authentic D trust c"
    using assms by (simp add: cp_authentic_def cp_honest_def)
  have "set (concat gs) = snd ` set (seg_pairs 1 gs)"
    by (metis map_snd_seg_pairs set_map)
  moreover have "filter (\<lambda>p. ar_global_sequence (snd p) \<le> cp_global_sequence c)
      (in_segment (cp_segment_id c) (seg_pairs 1 gs)) = in_segment (cp_segment_id c) (seg_pairs 1 gs)"
    if "cp_sealed c"
    using assms(1) that by (simp add: cp_honest_def)
  ultimately show "cp_satisfied (seg_pairs 1 gs) c"
    using assms(1) by (auto simp: cp_honest_def cp_satisfied_def)
qed

lemma ledger_inv_sound:
  assumes inv: "ledger_inv D L gs" and "serde_ok D" "length gs < 2 ^ 64"
    and trust: "trust_get trust (sg_key_id (al_signer L)) = Some (sg_public_key (al_signer L))"
  shows "ledger_sound D (al_disk L) trust (seg_pairs 1 gs)"
proof -
  from inv have w: "writer_inv D L gs" and c: "cps_all D L (cp_honest D (al_signer L) gs)" by (simp_all add: ledger_inv_def)
  have "\<not> trust_is_empty trust" using trust by (auto simp: trust_is_empty_def trust_get_def)
  moreover have "list_all (record_authentic D trust) (concat gs)"
    using w trust by (auto simp: writer_inv_def sig_honest_def record_authentic_def list_all_iff
        split: option.splits)
  moreover have "\<exists>b c. map_of (dk_checkpoints (al_disk L)) path = Some b \<and> cp_from_json D b = Some c \<and>
      cp_authentic D trust c \<and> cp_satisfied (seg_pairs 1 gs) c"
    if "path \<in> set (list_checkpoint_paths (dk_checkpoints (al_disk L)))" for path
  proof -
    from that have "path \<in> fst ` set (dk_checkpoints (al_disk L))"
      by (auto simp: list_checkpoint_paths_def)
    then obtain b where b: "map_of (dk_checkpoints (al_disk L)) path = Some b"
      by (metis map_of_eq_None_iff not_None_eq)
    then have "b \<in> snd ` set (dk_checkpoints (al_disk L))"
      by (metis image_eqI map_of_SomeD snd_conv)
    with c b show ?thesis
      using cp_honest_spec [OF _ trust] by (auto simp: cps_all_def)
  qed
  ultimately show ?thesis
    using w parse_segments_history [OF assms(2) _ assms(3)]
    by (simp add: ledger_sound_def writer_inv_def)
qed

section \<open>Stamping\<close>

lemma canonical_body_ignores [simp]:
  "canonical_body D (r\<lparr>ar_record_hash := h\<rparr>) = canonical_body D r"
  "canonical_body D (r\<lparr>ar_signature := s\<rparr>) = canonical_body D r"
  by (simp_all add: canonical_body_def)

lemma compute_record_hash_ignores [simp]:
  "compute_record_hash D (r\<lparr>ar_record_hash := h\<rparr>) = compute_record_hash D r"
  "compute_record_hash D (r\<lparr>ar_signature := s\<rparr>) = compute_record_hash D r"
  by (simp_all add: compute_record_hash_def)

lemma stamp_chain [simp]:
  "ar_global_sequence (stamp D L now rid r) = in_next_seq (al_inner L)"
  "ar_previous_hash (stamp D L now rid r) = in_prev_hash (al_inner L)"
  "compute_record_hash D (stamp D L now rid r) = ar_record_hash (stamp D L now rid r)"
  by (simp_all add: stamp_def Let_def)

lemma stamp_signature:
  "signer_ok D (al_signer L) \<Longrightarrow> sig_honest D (al_signer L) (stamp D L now rid r)"
  by (simp add: stamp_def Let_def sig_honest_def signer_ok_def)

section \<open>The operations keep the invariant\<close>

text \<open>
  \<open>advance\<close> is what \<open>append\<close> does to the writer state once the line of \<open>r\<close> is in the file.
\<close>

definition advance :: "AuditRecord \<Rightarrow> Inner \<Rightarrow> Inner" where
  "advance r n = n\<lparr>in_prev_hash := ar_record_hash r, in_next_seq := in_next_seq n + 1,
     in_records_in_segment := in_records_in_segment n + 1, in_records_since_ckpt := in_records_since_ckpt n + 1\<rparr>"

definition push_record :: "AuditRecord list list \<Rightarrow> AuditRecord \<Rightarrow> AuditRecord list list" where
  "push_record gs r = butlast gs @ [last gs @ [r]]"

lemma push_record_simps [simp]:
  assumes "gs \<noteq> []"
  shows "concat (push_record gs r) = concat gs @ [r]" "length (push_record gs r) = length gs"
    "last (push_record gs r) = last gs @ [r]" "push_record gs r \<noteq> []"
proof -
  have "gs = butlast gs @ [last gs]" using assms by simp
  then have "concat gs = concat (butlast gs) @ last gs" by (metis concat.simps concat_append append_Nil2)
  then show "concat (push_record gs r) = concat gs @ [r]" by (simp add: push_record_def)
qed (use assms in \<open>simp_all add: push_record_def\<close>)

lemma seg_pairs_push:
  assumes "gs \<noteq> []"
  shows "seg_pairs 1 (push_record gs r) = seg_pairs 1 gs @ [(of_nat (length gs), r)]"
proof -
  have gs: "gs = butlast gs @ [last gs]" using assms by simp
  have "seg_pairs 1 gs = seg_pairs 1 (butlast gs) @ map (Pair (of_nat (length gs))) (last gs)"
    by (subst gs, subst seg_pairs_append) (use assms in simp)
  then show ?thesis
    unfolding push_record_def seg_pairs_append using assms by simp
qed

lemma seg_entries_push:
  assumes "gs \<noteq> []" "length gs < 2 ^ 64" "rec_to_json D r = Some js"
  shows "AList.update (segment_filename (of_nat (length gs)))
      ((case map_of (seg_entries D 1 gs) (segment_filename (of_nat (length gs))) of None \<Rightarrow> [] | Some c \<Rightarrow> c)
         @ js @ [10]) (seg_entries D 1 gs) = seg_entries D 1 (push_record gs r)"
proof -
  let ?f = "segment_filename (of_nat (length gs))"
  have gs: "gs = butlast gs @ [last gs]" using assms by simp
  have split: "seg_entries D 1 gs = seg_entries D 1 (butlast gs) @ [(?f, seg_text D (last gs))]"
    by (subst gs, subst seg_entries_append) (use assms(1) in simp)
  have fresh: "?f \<notin> set (map fst (seg_entries D 1 (butlast gs)))"
    by (rule seg_key_fresh) (use assms in auto)
  then have "map_of (seg_entries D 1 gs) ?f = Some (seg_text D (last gs))"
    unfolding split by (simp add: map_add_def map_of_fresh)
  then show ?thesis
    unfolding split update_fresh [OF fresh] push_record_def seg_entries_append
    using assms by (simp add: seg_text_def)
qed

lemma append_record_writer:
  assumes "writer_inv D L gs" "room gs" "rec_to_json D r = Some js"
    and "ar_global_sequence r = in_next_seq (al_inner L)" "ar_previous_hash r = in_prev_hash (al_inner L)"
      "compute_record_hash D r = ar_record_hash r" "sig_honest D (al_signer L) r"
  shows "writer_inv D (with_inner (advance r) (append_file (in_file (al_inner L)) (js @ [10]) L)) (push_record gs r)"
proof -
  have ne: "gs \<noteq> []" and len: "length gs < 2 ^ 64"
    using assms(1,2) by (auto simp: writer_inv_def room_def)
  show ?thesis
    using assms seg_entries_push [OF ne len assms(3)] ne
    by (simp add: writer_inv_def append_file_def advance_def Let_def chain_ok_append writable_def)
qed

text \<open>
  A clean answer of the operating system: a failed write leaves nothing behind. (What happens otherwise is
  the subject of the fault theorems below.)
\<close>

definition clean_write :: "bool \<Rightarrow> write_outcome \<Rightarrow> bool" where
  "clean_write fsync w = (case w of WriteOk \<Rightarrow> True | WriteFailed n \<Rightarrow> n = 0 | SyncFailed \<Rightarrow> \<not> fsync)"

definition clean_file :: "file_outcome \<Rightarrow> bool" where
  "clean_file f \<longleftrightarrow> f = FileOk \<or> f = FileFailed None"

lemma writer_inv_cong:
  assumes "writer_inv D L gs" "al_signer L' = al_signer L" "dk_segments (al_disk L') = dk_segments (al_disk L)"
    "in_segment_id (al_inner L') = in_segment_id (al_inner L)" "in_file (al_inner L') = in_file (al_inner L)"
    "in_next_seq (al_inner L') = in_next_seq (al_inner L)" "in_prev_hash (al_inner L') = in_prev_hash (al_inner L)"
    "in_records_in_segment (al_inner L') = in_records_in_segment (al_inner L)"
  shows "writer_inv D L' gs"
  using assms by (simp add: writer_inv_def)

lemma cps_all_mono: "cps_all D L P \<Longrightarrow> dk_checkpoints (al_disk L') = dk_checkpoints (al_disk L) \<Longrightarrow>
    (\<And>c. P c \<Longrightarrow> Q c) \<Longrightarrow> cps_all D L' Q"
  by (fastforce simp: cps_all_def)

lemma update_snd_set: "snd ` set (AList.update k v xs) \<subseteq> insert v (snd ` set xs)"
  by (induction xs) auto

lemma seq_le_head:
  assumes "chain_ok D digest_zero 1 rs" "length rs < 2 ^ 64" "r \<in> set rs"
  shows "ar_global_sequence r \<le> of_nat (length rs)"
proof -
  from assms(3) obtain i where "i < length rs" "rs ! i = r" by (auto simp: in_set_conv_nth)
  then show ?thesis
    using chain_ok_nth [OF assms(1), of i] of_nat_u64_le [of "Suc i" "length rs"] assms(2) by simp
qed

lemma in_segment_last:
  assumes "gs \<noteq> []" "length gs < 2 ^ 64"
  shows "in_segment (of_nat (length gs)) (seg_pairs 1 gs) = map (Pair (of_nat (length gs))) (last gs)"
proof -
  have gs: "gs = butlast gs @ [last gs]" using assms by simp
  have "fst p \<noteq> of_nat (length gs)" if "p \<in> set (seg_pairs n xs)" "n + length xs \<le> length gs" for p n xs
    using that
  proof (induction xs arbitrary: n)
    case (Cons x xs)
    have "(of_nat n :: u64) \<noteq> of_nat (length gs)"
      using of_nat_u64_inj [of n "length gs"] Cons.prems(2) assms(2) by simp
    moreover have "fst p \<noteq> of_nat (length gs)" if "p \<in> set (seg_pairs (Suc n) xs)"
      using Cons.IH [OF that] Cons.prems(2) by simp
    ultimately show ?case
      using Cons.prems(1) by auto
  qed simp
  then have "in_segment (of_nat (length gs)) (seg_pairs 1 (butlast gs)) = []"
    using assms(1) by (force simp: in_segment_def filter_empty_conv)
  then show ?thesis
    by (subst (2) gs, subst seg_pairs_append) (use assms(1) in \<open>simp add: in_segment_def filter_map comp_def\<close>)
qed

lemma new_checkpoint_honest:
  assumes "writer_inv D L gs" "room gs" "signer_ok D (al_signer L)" "concat gs \<noteq> []"
  shows "cp_honest D (al_signer L) gs
    (Checkpoint_create D (al_signer L) now node (in_segment_id (al_inner L)) (in_next_seq (al_inner L) - 1)
       (in_prev_hash (al_inner L)) (in_records_in_segment (al_inner L)) sealed)"
proof -
  from assms(1,2) have ne: "gs \<noteq> []" and len: "length gs < 2 ^ 64" "length (concat gs) < 2 ^ 64"
    and chain: "chain_ok D digest_zero 1 (concat gs)"
    and inn: "in_segment_id (al_inner L) = of_nat (length gs)"
      "in_next_seq (al_inner L) - 1 = of_nat (length (concat gs))"
      "in_prev_hash (al_inner L) = ar_record_hash (last (concat gs))"
      "in_records_in_segment (al_inner L) = of_nat (length (last gs))"
    using assms(4) by (auto simp: writer_inv_def room_def chain_head_def)
  have "ar_global_sequence (last (concat gs)) = of_nat (length (concat gs))"
    using chain_ok_nth [OF chain, of "length (concat gs) - 1"] assms(4)
    by (simp add: last_conv_nth del: length_concat)
  moreover have "last (concat gs) \<in> set (concat gs)" using assms(4) last_in_set by blast
  moreover have "ar_global_sequence r \<le> of_nat (length (concat gs))" if "r \<in> set (last gs)" for r
    by (rule seq_le_head [OF chain len(2)]) (use that ne in auto)
  ultimately show ?thesis
    unfolding cp_honest_def inn Checkpoint_create_fields in_segment_last [OF ne len(1)]
    using assms(3) len ne in_segment_last [OF ne len(1)]
    by (auto simp: Checkpoint_create_verifies unat_of_nat_u64 simp del: length_concat)
qed

text \<open>Writing a checkpoint of the current state keeps the segments and adds at most one honest checkpoint.\<close>

lemma write_checkpoint_frame:
  assumes "write_checkpoint_locked D L now out sealed = (res, L')"
  shows "al_cfg L' = al_cfg L" "al_signer L' = al_signer L" "al_inner L' = al_inner L"
    "dk_segments (al_disk L') = dk_segments (al_disk L)" "al_process_id L' = al_process_id L"
  using assms by (auto simp: write_checkpoint_locked_def Let_def split: option.splits file_outcome.splits)

lemma write_checkpoint_cps:
  assumes "write_checkpoint_locked D L now out sealed = (res, L')" "clean_file out" "serde_ok D"
    and "cps_all D L P"
    and "P (Checkpoint_create D (al_signer L) now (lc_node_id (al_cfg L)) (in_segment_id (al_inner L))
       (in_next_seq (al_inner L) - 1) (in_prev_hash (al_inner L)) (in_records_in_segment (al_inner L)) sealed)"
  shows "cps_all D L' P"
proof (cases "dk_checkpoints (al_disk L') = dk_checkpoints (al_disk L)")
  case True
  with assms(4) show ?thesis by (simp add: cps_all_def)
next
  case False
  with assms(1,2) obtain b where b: "cp_to_json D (Checkpoint_create D (al_signer L) now (lc_node_id (al_cfg L))
      (in_segment_id (al_inner L)) (in_next_seq (al_inner L) - 1) (in_prev_hash (al_inner L))
      (in_records_in_segment (al_inner L)) sealed) = Some b"
    and d: "dk_checkpoints (al_disk L') =
      AList.update (checkpoint_filename (in_next_seq (al_inner L) - 1)) b (dk_checkpoints (al_disk L))"
    by (auto simp: write_checkpoint_locked_def Let_def clean_file_def split: option.splits file_outcome.splits)
  have "\<exists>c. cp_from_json D x = Some c \<and> P c" if "x \<in> snd ` set (dk_checkpoints (al_disk L'))" for x
  proof -
    have "x \<in> insert b (snd ` set (dk_checkpoints (al_disk L)))"
      by (rule subsetD [OF update_snd_set that [unfolded d]])
    then consider "x = b" | "x \<in> snd ` set (dk_checkpoints (al_disk L))" by (rule insertE)
    then show ?thesis
    proof cases
      case 1
      with assms(3) b have "cp_from_json D x = Some (Checkpoint_create D (al_signer L) now
          (lc_node_id (al_cfg L)) (in_segment_id (al_inner L)) (in_next_seq (al_inner L) - 1)
          (in_prev_hash (al_inner L)) (in_records_in_segment (al_inner L)) sealed)"
        by (simp add: serde_ok_def)
      with assms(5) show ?thesis by blast
    qed (use assms(4) in \<open>auto simp: cps_all_def\<close>)
  qed
  then show ?thesis by (simp add: cps_all_def)
qed

text \<open>Sealing and rolling.\<close>

lemma seg_pairs_roll [simp]: "seg_pairs 1 (gs @ [[]]) = seg_pairs 1 gs"
  by (simp add: seg_pairs_append)

lemma cp_honest_roll: "cp_honest D sg gs c \<Longrightarrow> cp_honest D sg (gs @ [[]]) c"
  by (auto simp: cp_honest_def simp flip: One_nat_def)

lemma seal_locked_inv:
  assumes inv: "writer_inv D L gs" "cps_all D L (cp_honest D (al_signer L) gs)" and "room gs"
    and "signer_ok D (al_signer L)" "serde_ok D" "clean_file out"
    and run: "seal_locked D L now out = (res, L')"
  shows "writer_inv D L' gs" "cps_all D L' (cp_honest D (al_signer L') gs)" "al_signer L' = al_signer L"
    "al_cfg L' = al_cfg L" "in_records_in_segment (al_inner L') = in_records_in_segment (al_inner L)"
    "in_segment_id (al_inner L') = in_segment_id (al_inner L)"
    "is_ok res \<or> L' = L"
proof -
  have "writer_inv D L' gs \<and> cps_all D L' (cp_honest D (al_signer L') gs) \<and> al_signer L' = al_signer L \<and>
    al_cfg L' = al_cfg L \<and> in_records_in_segment (al_inner L') = in_records_in_segment (al_inner L) \<and>
    in_segment_id (al_inner L') = in_segment_id (al_inner L) \<and> (is_ok res \<or> L' = L)"
  proof (cases "in_records_in_segment (al_inner L) = 0")
    case True
    with run inv show ?thesis by (simp add: seal_locked_def)
  next
    case False
    obtain res1 L1 where w: "write_checkpoint_locked D L now out True = (res1, L1)" by fastforce
    note frame = write_checkpoint_frame [OF w]
    have "last gs \<noteq> []" "gs \<noteq> []" using False inv(1) by (auto simp: writer_inv_def)
    then have "concat gs \<noteq> []" using last_in_set by auto
    from write_checkpoint_cps [OF w assms(6,5) inv(2) new_checkpoint_honest [OF inv(1) assms(3,4) this]]
    have cps: "cps_all D L1 (cp_honest D (al_signer L) gs)" .
    have err: "L1 = L" if "\<not> is_ok res1"
      using w that assms(6)
      by (auto simp: write_checkpoint_locked_def Let_def clean_file_def split: option.splits file_outcome.splits)
    have "writer_inv D L' gs"
      by (rule writer_inv_cong [OF inv(1)]; use run False w frame in \<open>simp add: seal_locked_def split: sum.splits\<close>; force)
    moreover have "cps_all D L' (cp_honest D (al_signer L') gs)"
      by (rule cps_all_mono [OF cps]; use run False w frame in \<open>simp add: seal_locked_def split: sum.splits\<close>; force)
    ultimately show ?thesis
      using run False w frame err by (auto simp: seal_locked_def split: sum.splits)
  qed
  then show "writer_inv D L' gs" "cps_all D L' (cp_honest D (al_signer L') gs)" "al_signer L' = al_signer L"
    "al_cfg L' = al_cfg L" "in_records_in_segment (al_inner L') = in_records_in_segment (al_inner L)"
    "in_segment_id (al_inner L') = in_segment_id (al_inner L)"
    "is_ok res \<or> L' = L" by blast+
qed

lemma seg_entries_roll:
  assumes "Suc (length gs) < 2 ^ 64"
  shows "touch (segment_filename (of_nat (Suc (length gs)))) (seg_entries D 1 gs) = seg_entries D 1 (gs @ [[]])"
proof -
  have fresh: "segment_filename (of_nat (Suc (length gs))) \<notin> set (map fst (seg_entries D 1 gs))"
    by (rule seg_key_fresh) (use assms in auto)
  show ?thesis
    using update_fresh [OF fresh, of "[]" "[]"] map_of_fresh [OF fresh]
    by (simp add: touch_def seg_entries_append seg_text_def)
qed

lemma roll_locked_inv:
  assumes inv: "writer_inv D L gs" "cps_all D L (cp_honest D (al_signer L) gs)" and room: "room (gs @ [[]])"
    and run: "roll_locked L True = (res, L')"
  shows "ledger_inv D L' (gs @ [[]]) \<and> cps_all D L' (cp_elsewhere L') \<and> al_signer L' = al_signer L"
proof -
  have len: "Suc (length gs) < 2 ^ 64" using room by (simp add: room_def)
  have w: "writer_inv D L' (gs @ [[]])"
    using inv(1) run seg_entries_roll [OF len]
    by (auto simp: writer_inv_def roll_locked_def Let_def add.commute)
  have same: "al_signer L' = al_signer L" "dk_checkpoints (al_disk L') = dk_checkpoints (al_disk L)"
    "in_segment_id (al_inner L') = of_nat (Suc (length gs))"
    using run inv(1) by (auto simp: roll_locked_def Let_def writer_inv_def add.commute)
  have "cps_all D L' (cp_honest D (al_signer L') (gs @ [[]]))"
    using cps_all_mono [OF inv(2) same(2) cp_honest_roll] same(1) by simp
  moreover have "cp_elsewhere L' c" if "cp_honest D (al_signer L) gs c" for c
    using that unat_of_nat_u64 [OF len] same(3) by (auto simp: cp_elsewhere_def cp_honest_def)
  then have "cps_all D L' (cp_elsewhere L')"
    by (rule cps_all_mono [OF inv(2) same(2)])
  ultimately show ?thesis
    using w same(1) by (simp add: ledger_inv_def)
qed

lemma seal_and_roll_cfg: "seal_and_roll D L i = (res, L') \<Longrightarrow> al_cfg L' = al_cfg L"
  by (auto simp: seal_and_roll_def seal_locked_def roll_locked_def Let_def
      dest!: write_checkpoint_frame(1) split: prod.splits sum.splits if_splits)

lemma seal_and_roll_inv:
  assumes inv: "ledger_inv D L gs" and room: "room (gs @ [[]])"
    and env: "signer_ok D (al_signer L)" "serde_ok D" "clean_file (io_seal i)"
    and roll: "io_roll i \<or> segment_full L"
    and run: "seal_and_roll D L i = (res, L')"
  shows "al_signer L' = al_signer L \<and>
    (if is_ok res then ledger_inv D L' (gs @ [[]]) \<and> cps_all D L' (cp_elsewhere L') else ledger_inv D L' gs)"
proof -
  obtain res1 L1 where s: "seal_locked D L (io_seal_now i) (io_seal i) = (res1, L1)" by fastforce
  have w: "writer_inv D L gs" "cps_all D L (cp_honest D (al_signer L) gs)"
    using inv by (simp_all add: ledger_inv_def)
  note L1 = seal_locked_inv [OF w room_next [OF room] env s]
  show ?thesis
  proof (cases "is_ok res1 \<and> io_roll i")
    case True
    then have "roll_locked L1 True = (res, L')" "is_ok res"
      using run s by (auto simp: seal_and_roll_def roll_locked_def Let_def split: sum.splits)
    with roll_locked_inv [OF L1(1,2) room this(1)] L1(3) show ?thesis by simp
  next
    case False
    then have "L' = L1" "\<not> is_ok res"
      using run s by (auto simp: seal_and_roll_def roll_locked_def Let_def split: sum.splits)
    with False L1 roll inv show ?thesis
      by (auto simp: ledger_inv_def segment_full_def)
  qed
qed

text \<open>Appending.\<close>

lemma current_segment_file:
  assumes "writer_inv D L gs" "room gs"
  shows "map_of (dk_segments (al_disk L)) (in_file (al_inner L)) = Some (seg_text D (last gs))"
proof -
  have "length gs - 1 < length gs" "Suc (length gs - 1) = length gs" "1 + length gs \<le> 2 ^ 64"
    using assms by (auto simp: writer_inv_def room_def)
  then show ?thesis
    using map_of_seg_entries [of 1 gs "length gs - 1" D] assms(1)
    by (simp add: writer_inv_def last_conv_nth)
qed

lemma append_nothing:
  assumes "writer_inv D L gs" "room gs"
  shows "append_file (in_file (al_inner L)) [] L = L"
  using current_segment_file [OF assms] by (simp add: append_file_def Let_def AList.update_triv)

lemma append_file_frame [simp]:
  "al_inner (append_file f b L) = al_inner L" "al_cfg (append_file f b L) = al_cfg L"
  "al_signer (append_file f b L) = al_signer L"
  "dk_checkpoints (al_disk (append_file f b L)) = dk_checkpoints (al_disk L)"
  by (simp_all add: append_file_def Let_def)

lemma cp_honest_push:
  assumes "cp_honest D sg gs c" "cp_sealed c \<longrightarrow> cp_segment_id c \<noteq> of_nat (length gs)" "gs \<noteq> []"
  shows "cp_honest D sg (push_record gs r) c"
proof -
  have "in_segment (cp_segment_id c) (seg_pairs 1 (push_record gs r)) = in_segment (cp_segment_id c) (seg_pairs 1 gs)"
    if "cp_sealed c"
    using assms(2) that unfolding seg_pairs_push [OF assms(3)] by (simp add: in_segment_def)
  then show ?thesis
    using assms(1,3) unfolding cp_honest_def by (auto simp del: One_nat_def)
qed

text \<open>The state right after the record is on disk.\<close>

lemma advanced_inv:
  assumes inv: "ledger_inv D L gs" "cps_all D L (cp_elsewhere L)" and room: "room gs"
    and env: "signer_ok D (al_signer L)" and r: "r = stamp D L now rid r0" and js: "rec_to_json D r = Some js"
    and L': "L' = with_inner (advance r) (append_file (in_file (al_inner L)) (js @ [10]) L)"
  shows "writer_inv D L' (push_record gs r)" "cps_all D L' (cp_honest D (al_signer L') (push_record gs r))"
    "cps_all D L' (cp_elsewhere L')"
proof -
  have w: "writer_inv D L gs" using inv(1) by (simp add: ledger_inv_def)
  show "writer_inv D L' (push_record gs r)"
    unfolding L' by (rule append_record_writer [OF w room js]) (simp_all add: r stamp_signature env)
  have sid: "in_segment_id (al_inner L) = of_nat (length gs)" "gs \<noteq> []" using w by (simp_all add: writer_inv_def)
  have "cps_all D L (\<lambda>c. cp_honest D (al_signer L) gs c \<and> cp_elsewhere L c)"
    using inv by (fastforce simp: cps_all_def ledger_inv_def)
  then show "cps_all D L' (cp_honest D (al_signer L') (push_record gs r))"
    by (rule cps_all_mono) (simp_all add: L' cp_honest_push sid cp_elsewhere_def)
  show "cps_all D L' (cp_elsewhere L')"
    by (rule cps_all_mono [OF inv(2)]) (simp_all add: L' cp_elsewhere_def advance_def)
qed

lemma checkpoint_inv:
  assumes w: "writer_inv D L gs" and c: "cps_all D L (cp_honest D (al_signer L) gs)"
    and e: "segment_full L \<or> cps_all D L (cp_elsewhere L)" and room: "room gs" and ne: "concat gs \<noteq> []"
    and env: "signer_ok D (al_signer L)" "serde_ok D" "clean_file out"
    and run: "write_checkpoint_locked D L now out False = (res, L')"
  shows "ledger_inv D L' gs \<and> (cps_all D L (cp_elsewhere L) \<longrightarrow> cps_all D L' (cp_elsewhere L')) \<and>
    al_signer L' = al_signer L"
proof -
  note frame = write_checkpoint_frame [OF run]
  have "writer_inv D L' gs"
    by (rule writer_inv_cong [OF w]) (simp_all add: frame)
  moreover have "cps_all D L' (cp_honest D (al_signer L) gs)"
    by (rule write_checkpoint_cps [OF run env(3,2) c]) (rule new_checkpoint_honest [OF w room env(1) ne])
  moreover have else': "cps_all D L' (cp_elsewhere L)" if "cps_all D L (cp_elsewhere L)"
    by (rule write_checkpoint_cps [OF run env(3,2) that]) (simp add: cp_elsewhere_def)
  then have "cps_all D L' (cp_elsewhere L')" if "cps_all D L (cp_elsewhere L)"
    using that by (simp add: cp_elsewhere_def cps_all_def frame)
  ultimately show ?thesis
    using e frame by (auto simp: ledger_inv_def segment_full_def)
qed

lemma ckpt_counter_inv:
  "ledger_inv D (with_inner (in_records_since_ckpt_update f) L) gs = ledger_inv D L gs"
  "cps_all D (with_inner (in_records_since_ckpt_update f) L) (cp_elsewhere (with_inner (in_records_since_ckpt_update f) L))
     = cps_all D L (cp_elsewhere L)"
  by (simp_all add: ledger_inv_def writer_inv_def cps_all_def cp_elsewhere_def segment_full_def)

text \<open>\<open>append\<close> once the line is durable.\<close>

definition receipt_of :: "AuditRecord \<Rightarrow> AuditReceipt" where
  "receipt_of r = \<lparr>rc_audit_id = ar_audit_id r, rc_global_sequence = ar_global_sequence r,
     rc_record_hash = ar_record_hash r\<rparr>"

lemma append_stamped_written:
  assumes "io_random i = Some rid" "r = stamp D L (io_now i) rid r0" "rec_to_json D r = Some js"
    and "write_line L (js @ [10]) (io_write i) = (True, append_file (in_file (al_inner L)) (js @ [10]) L)"
    and "M = with_inner (advance r) (append_file (in_file (al_inner L)) (js @ [10]) L)"
  shows "append_stamped D L i r0 =
    (if lc_checkpoint_every (al_cfg L) \<le> in_records_since_ckpt (al_inner M)
     then (case write_checkpoint_locked D M (io_ckpt_now i) (io_ckpt i) False of
             (Inl e, M') \<Rightarrow> (Err e, M')
           | (Inr _, M') \<Rightarrow> (Ok (receipt_of r), with_inner (in_records_since_ckpt_update (\<lambda>_. 0)) M'))
     else (Ok (receipt_of r), M))"
  using assms by (auto simp: append_stamped_def Let_def advance_def receipt_of_def split: prod.splits sum.splits)

lemma write_line_ok:
  assumes "clean_write (lc_fsync (al_cfg L)) w" "w \<noteq> WriteFailed 0"
  shows "write_line L line w = (True, append_file (in_file (al_inner L)) line L)"
  using assms by (auto simp: write_line_def clean_write_def split: write_outcome.splits)

lemma append_stamped_inv:
  assumes inv: "ledger_inv D L gs" "cps_all D L (cp_elsewhere L)"
    and room: "room gs" "Suc (length (concat gs)) < 2 ^ 64"
    and env: "signer_ok D (al_signer L)" "serde_ok D" "clean_write (lc_fsync (al_cfg L)) (io_write i)"
      "clean_file (io_ckpt i)"
    and run: "append_stamped D L i r0 = (res, L')"
  shows "\<exists>gs'. ledger_inv D L' gs' \<and> al_signer L' = al_signer L \<and> length gs' = length gs \<and>
    (gs' = gs \<and> \<not> is_ok res \<or>
     (\<exists>rid. gs' = push_record gs (stamp D L (io_now i) rid r0)))"
proof -
  have w: "writer_inv D L gs" and ne: "gs \<noteq> []" using inv(1) by (auto simp: ledger_inv_def writer_inv_def)
  consider (early) "L' = L" "\<not> is_ok res"
    | (written) rid js where "io_random i = Some rid" "rec_to_json D (stamp D L (io_now i) rid r0) = Some js"
        "io_write i \<noteq> WriteFailed 0"
  proof (cases "io_random i")
    case (Some rid)
    show ?thesis
    proof (cases "rec_to_json D (stamp D L (io_now i) rid r0)")
      case js: (Some js)
      show ?thesis
        using run Some js env(3) append_nothing [OF w room(1)] that
        by (cases "io_write i = WriteFailed 0") (auto simp: append_stamped_def write_line_def Let_def)
    qed (use run Some that in \<open>auto simp: append_stamped_def Let_def\<close>)
  qed (use run that in \<open>auto simp: append_stamped_def\<close>)
  then show ?thesis
  proof cases
    case early
    with inv show ?thesis by auto
  next
    case (written rid js)
    define r where "r = stamp D L (io_now i) rid r0"
    define M where "M = with_inner (advance r) (append_file (in_file (al_inner L)) (js @ [10]) L)"
    note M = advanced_inv [OF inv room(1) env(1) r_def written(2) [folded r_def] M_def]
    note app = append_stamped_written [OF written(1) r_def written(2) [folded r_def]
        write_line_ok [OF env(3) written(3)] M_def]
    have M_inv: "ledger_inv D M (push_record gs r)" using M by (simp add: ledger_inv_def)
    have sg: "al_signer M = al_signer L" by (simp add: M_def)
    have room': "room (push_record gs r)" "concat (push_record gs r) \<noteq> []"
      using room ne by (simp_all add: room_def)
    have "ledger_inv D L' (push_record gs r) \<and> al_signer L' = al_signer L"
    proof (cases "lc_checkpoint_every (al_cfg L) \<le> in_records_since_ckpt (al_inner M)")
      case False
      with run app M_inv sg show ?thesis by simp
    next
      case True
      obtain res1 M1 where k: "write_checkpoint_locked D M (io_ckpt_now i) (io_ckpt i) False = (res1, M1)"
        by fastforce
      from checkpoint_inv [OF M(1,2) disjI2 [OF M(3)] room' _ env(2,4) k] env(1) sg
      have M1: "ledger_inv D M1 (push_record gs r)" "al_signer M1 = al_signer L" by simp_all
      have "L' = M1 \<or> L' = with_inner (in_records_since_ckpt_update (\<lambda>_. 0)) M1"
        using run app True k by (cases res1) auto
      with M1 show ?thesis by (auto simp: ckpt_counter_inv)
    qed
    then show ?thesis using ne r_def by auto
  qed
qed

lemma no_gap_push [simp]: "no_gap (push_record gs r) = no_gap gs"
  by (simp add: no_gap_def push_record_def)

text \<open>The three public operations.\<close>

lemma segment_full_nonempty:
  assumes "ledger_inv D L gs" "segment_full L" "0 < lc_segment_max_records (al_cfg L)"
  shows "last gs \<noteq> []"
  using assms by (auto simp: ledger_inv_def writer_inv_def segment_full_def)

lemma ledger_append_inv:
  assumes inv: "ledger_inv D L gs" and room: "room (gs @ [[]])" "Suc (length (concat gs)) < 2 ^ 64"
    and env: "signer_ok D (al_signer L)" "serde_ok D" "clean_write (lc_fsync (al_cfg L)) (io_write i)"
      "clean_file (io_ckpt i)" "clean_file (io_seal i)"
    and run: "ledger_append D L i r0 = (res, L')"
  shows "\<exists>gs'. ledger_inv D L' gs' \<and> al_signer L' = al_signer L \<and> length gs' \<le> Suc (length gs) \<and>
    (0 < lc_segment_max_records (al_cfg L) \<and> no_gap gs \<longrightarrow> no_gap gs') \<and>
    (concat gs' = concat gs \<and> \<not> is_ok res \<or> (\<exists>r. concat gs' = concat gs @ [r]))"
proof -
  have step: "\<exists>gs'. ledger_inv D L' gs' \<and> al_signer L' = al_signer K \<and> length gs' = length hs \<and>
      (no_gap hs \<longrightarrow> no_gap gs') \<and> (concat gs' = concat hs \<and> \<not> is_ok res \<or> (\<exists>r. concat gs' = concat hs @ [r]))"
    if "append_stamped D K i r0 = (res, L')" "ledger_inv D K hs" "cps_all D K (cp_elsewhere K)" "room hs"
      "concat hs = concat gs" "al_signer K = al_signer L" "al_cfg K = al_cfg L" for K hs
  proof -
    have ne: "hs \<noteq> []" using that(2) by (simp add: ledger_inv_def writer_inv_def)
    have "\<exists>gs'. ledger_inv D L' gs' \<and> al_signer L' = al_signer K \<and> length gs' = length hs \<and>
        (gs' = hs \<and> \<not> is_ok res \<or> (\<exists>rid. gs' = push_record hs (stamp D K (io_now i) rid r0)))"
      by (rule append_stamped_inv) (use that room(2) env in simp_all)
    then show ?thesis
      using push_record_simps [OF ne] no_gap_push by metis
  qed
  show ?thesis
  proof (cases "segment_full L")
    case False
    then have "append_stamped D L i r0 = (res, L')" "cps_all D L (cp_elsewhere L)"
      using run inv by (simp_all add: ledger_append_def segment_full_def ledger_inv_def)
    with step [OF _ inv] room show ?thesis by (fastforce intro: room_next)
  next
    case True
    obtain res1 K where k: "seal_and_roll D L i = (res1, K)" by fastforce
    note K = seal_and_roll_inv [OF inv room(1) env(1,2,5) disjI2 [OF True] k]
    show ?thesis
    proof (cases res1)
      case (Inl e)
      with run True k K show ?thesis by (auto simp: ledger_append_def segment_full_def)
    next
      case (Inr u)
      with run True k have "append_stamped D K i r0 = (res, L')"
        by (simp add: ledger_append_def segment_full_def)
      moreover have "0 < lc_segment_max_records (al_cfg L) \<and> no_gap gs \<longrightarrow> no_gap (gs @ [[]])"
        using segment_full_nonempty [OF inv True] inv no_gap_roll by (auto simp: ledger_inv_def writer_inv_def)
      ultimately show ?thesis
        using step [of K "gs @ [[]]"] K Inr room by (auto simp: seal_and_roll_cfg [OF k])
    qed
  qed
qed

end
