(* ===== verification/Audit_Tamper.thy ===== *)
theory Audit_Tamper
  imports Audit_Spec
begin

text \<open>
  What a checkpoint guarantees about a directory that somebody may have edited: two directories that both
  pass the verifier and share one checkpoint hold the same history up to it, unless two of the canonical
  bodies involved collide under BLAKE3.
\<close>

definition ledger_items :: "env \<Rightarrow> disk \<Rightarrow> ParsedItem list" where
  "ledger_items D dk =
     (case parse_segments D (dk_segments dk) (list_segment_ids (dk_segments dk)) of Inl _ \<Rightarrow> [] | Inr items \<Rightarrow> items)"

definition ledger_records :: "env \<Rightarrow> disk \<Rightarrow> AuditRecord list" where
  "ledger_records D dk = map snd (item_records (ledger_items D dk))"

definition has_checkpoint :: "env \<Rightarrow> disk \<Rightarrow> Checkpoint \<Rightarrow> bool" where
  "has_checkpoint D dk c \<longleftrightarrow>
     list_ex (\<lambda>path. Option.bind (map_of (dk_checkpoints dk) path) (cp_from_json D) = Some c)
       (list_checkpoint_paths (dk_checkpoints dk))"

definition verifies :: "env \<Rightarrow> disk \<Rightarrow> TrustRoot \<Rightarrow> bool" where
  "verifies D dk trust \<longleftrightarrow> (case verify_dir D dk trust of Inl _ \<Rightarrow> False | Inr rep \<Rightarrow> vr_ok rep)"

lemma verifies_sound:
  assumes "verifies D dk trust" "length (ledger_items D dk) < 2 ^ 64"
  obtains ps where "ledger_sound D dk trust ps" "ledger_records D dk = map snd ps" "length ps < 2 ^ 64"
proof -
  have "\<exists>rep. verify_dir D dk trust = Ok rep \<and> vr_ok rep"
    using assms(1) by (auto simp: verifies_def split: sum.splits)
  moreover have "length items < 2 ^ 64"
    if "parse_segments D (dk_segments dk) (list_segment_ids (dk_segments dk)) = Ok items" for items
    using that assms(2) by (simp add: ledger_items_def)
  ultimately obtain ps where ps: "ledger_sound D dk trust ps"
    using verify_dir_decides [of D dk trust] by blast
  then have "ledger_items D dk = located_items ps"
    by (simp add: ledger_sound_def ledger_items_def)
  with ps assms(2) show ?thesis
    by (intro that [of ps]) (simp_all add: ledger_records_def item_records_map)
qed

text \<open>A checkpoint of a verified directory pins the record at its sequence number.\<close>

lemma checkpoint_pins:
  assumes "verifies D dk trust" "length (ledger_items D dk) < 2 ^ 64" "has_checkpoint D dk c"
  obtains i where "i < length (ledger_records D dk)" "cp_global_sequence c = of_nat (Suc i)"
    "ar_record_hash (ledger_records D dk ! i) = cp_record_hash c" "chain_ok D digest_zero 1 (ledger_records D dk)"
    "length (ledger_records D dk) < 2 ^ 64"
proof -
  from verifies_sound [OF assms(1,2)] obtain ps where ps: "ledger_sound D dk trust ps"
      "ledger_records D dk = map snd ps" "length ps < 2 ^ 64" .
  from assms(3) obtain path where path: "path \<in> set (list_checkpoint_paths (dk_checkpoints dk))"
      "Option.bind (map_of (dk_checkpoints dk) path) (cp_from_json D) = Some c"
    by (auto simp: has_checkpoint_def list_ex_iff)
  with ps(1) have "cp_satisfied ps c" by (fastforce simp: ledger_sound_def bind_eq_Some_conv)
  then obtain p where "p \<in> set ps" "ar_global_sequence (snd p) = cp_global_sequence c"
      "ar_record_hash (snd p) = cp_record_hash c"
    by (auto simp: cp_satisfied_def)
  then obtain i where i: "i < length ps" "ar_global_sequence (map snd ps ! i) = cp_global_sequence c"
      "ar_record_hash (map snd ps ! i) = cp_record_hash c"
    by (auto simp: in_set_conv_nth)
  moreover have "chain_ok D digest_zero 1 (map snd ps)" using ps(1) by (simp add: ledger_sound_def)
  ultimately show ?thesis
    using that [of i] chain_ok_nth [of D digest_zero 1 "map snd ps" i] ps(2,3) by simp
qed

lemma same_checkpoint_same_past:
  assumes "verifies D dk trust" "length (ledger_items D dk) < 2 ^ 64" "has_checkpoint D dk c"
    and "verifies D dk' trust'" "length (ledger_items D dk') < 2 ^ 64" "has_checkpoint D dk' c"
    and "list_all (canon_ok D) (ledger_records D dk)" "list_all (canon_ok D) (ledger_records D dk')" "chrono_ok D"
    and "inj_on (blake3 D) (canonical_body D ` (set (ledger_records D dk) \<union> set (ledger_records D dk')))"
  shows "unat (cp_global_sequence c) \<le> length (ledger_records D dk)"
    "map committed (take (unat (cp_global_sequence c)) (ledger_records D dk)) =
     map committed (take (unat (cp_global_sequence c)) (ledger_records D dk'))"
proof -
  from checkpoint_pins [OF assms(1-3)] obtain i where i: "i < length (ledger_records D dk)"
      "cp_global_sequence c = of_nat (Suc i)" "ar_record_hash (ledger_records D dk ! i) = cp_record_hash c"
      "chain_ok D digest_zero 1 (ledger_records D dk)" "length (ledger_records D dk) < 2 ^ 64" .
  from checkpoint_pins [OF assms(4-6)] obtain j where j: "j < length (ledger_records D dk')"
      "cp_global_sequence c = of_nat (Suc j)" "ar_record_hash (ledger_records D dk' ! j) = cp_record_hash c"
      "chain_ok D digest_zero 1 (ledger_records D dk')" "length (ledger_records D dk') < 2 ^ 64" .
  have n: "unat (cp_global_sequence c) = Suc i"
    using i(1,2,5) by (simp add: unat_of_nat del: of_nat_Suc)
  then show "unat (cp_global_sequence c) \<le> length (ledger_records D dk)" using i(1) by simp
  show "map committed (take (unat (cp_global_sequence c)) (ledger_records D dk)) =
     map committed (take (unat (cp_global_sequence c)) (ledger_records D dk'))"
    using chain_binding [OF i(4,5) assms(7) j(4,5) assms(8,9,10) i(1) j(1)] i(3) j(3) n by auto
qed

end
