(* ===== verification/Audit_Run.thy ===== *)
theory Audit_Run
  imports Audit_Honest Audit_Tamper "HOL-Library.Sublist"
begin

text \<open>
  Runs of the ledger: a step relation whose steps are the calls of the public interface with any answer of
  the operating system that leaves no partial write behind, reachability from a freshly opened ledger, and
  what a later \<open>open_ledger\<close> recovers.
\<close>

section \<open>Steps\<close>

definition clean_io :: "LedgerConfig \<Rightarrow> io \<Rightarrow> bool" where
  "clean_io cfg i \<longleftrightarrow> clean_write (lc_fsync cfg) (io_write i) \<and> clean_file (io_ckpt i) \<and> clean_file (io_seal i)"

text \<open>
  A call of \<open>append\<close>, \<open>checkpoint\<close> or \<open>seal\<close>, whatever it returns. For \<open>seal\<close> the step asks that the
  next segment file can be opened: what happens otherwise is the subject of a theorem below.
\<close>

inductive ledger_step :: "env \<Rightarrow> AuditLedger \<Rightarrow> AuditLedger \<Rightarrow> bool" for D where
  step_append: "clean_io (al_cfg L) i \<Longrightarrow> ledger_append D L i r = (res, L') \<Longrightarrow> ledger_step D L L'"
| step_checkpoint: "clean_io (al_cfg L) i \<Longrightarrow> checkpoint D L i = (res', L') \<Longrightarrow> ledger_step D L L'"
| step_seal: "clean_io (al_cfg L) i \<Longrightarrow> io_roll i \<Longrightarrow> seal D L i = (res', L') \<Longrightarrow> ledger_step D L L'"

inductive_cases ledger_stepE [elim!]: "ledger_step D L L'"

inductive ledger_reach :: "env \<Rightarrow> AuditLedger \<Rightarrow> nat \<Rightarrow> AuditLedger \<Rightarrow> bool" for D L0 where
  reach_start: "ledger_reach D L0 0 L0"
| reach_step: "ledger_reach D L0 n L \<Longrightarrow> ledger_step D L L' \<Longrightarrow> ledger_reach D L0 (Suc n) L'"

lemma public_checkpoint_inv:
  assumes inv: "ledger_inv D L gs" and room: "room gs"
    and env: "signer_ok D (al_signer L)" "serde_ok D" "clean_file (io_ckpt i)"
    and run: "checkpoint D L i = (res, L')"
  shows "ledger_inv D L' gs \<and> al_signer L' = al_signer L"
proof (cases "in_next_seq (al_inner L) = 1")
  case True
  with inv run show ?thesis by (simp add: checkpoint_def)
next
  case False
  have w: "writer_inv D L gs" "cps_all D L (cp_honest D (al_signer L) gs)"
      "segment_full L \<or> cps_all D L (cp_elsewhere L)"
    using inv by (simp_all add: ledger_inv_def)
  have ne: "concat gs \<noteq> []"
    using False w(1) by (auto simp: writer_inv_def simp del: concat_eq_Nil_conv)
  obtain res1 M where k: "write_checkpoint_locked D L (io_ckpt_now i) (io_ckpt i) False = (res1, M)"
    by fastforce
  have "L' = M \<or> L' = with_inner (in_records_since_ckpt_update (\<lambda>_. 0)) M"
    using run False k by (cases res1) (auto simp: checkpoint_def)
  with checkpoint_inv [OF w room ne env k] show ?thesis
    by (auto simp: ckpt_counter_inv)
qed

lemma public_seal_inv:
  assumes inv: "ledger_inv D L gs" and room: "room (gs @ [[]])"
    and env: "signer_ok D (al_signer L)" "serde_ok D" "clean_file (io_seal i)" "io_roll i"
    and run: "seal D L i = (res, L')"
  shows "\<exists>gs'. ledger_inv D L' gs' \<and> al_signer L' = al_signer L \<and> (no_gap gs \<longrightarrow> no_gap gs') \<and>
    (gs' = gs \<or> gs' = gs @ [[]])"
proof (cases "in_records_in_segment (al_inner L) = 0")
  case True
  with inv run show ?thesis by (auto simp: seal_def)
next
  case False
  then have "last gs \<noteq> []" "gs \<noteq> []" using inv by (auto simp: ledger_inv_def writer_inv_def)
  with seal_and_roll_inv [OF inv room env(1,2,3), of res L'] env(4) run False no_gap_roll show ?thesis
    by (auto simp: seal_def split: if_splits)
qed

section \<open>Reachable states\<close>

lemma write_checkpoint_snd [simp]:
  "al_cfg (snd (write_checkpoint_locked D L now out sealed)) = al_cfg L"
  "al_cfg (snd (write_line L line w)) = al_cfg L"
  by (auto simp: write_checkpoint_locked_def write_line_def Let_def
      split: option.splits file_outcome.splits write_outcome.splits)

lemma append_stamped_cfg: "al_cfg (snd (append_stamped D L i r)) = al_cfg L"
proof (cases "io_random i")
  case (Some rid)
  show ?thesis
  proof (cases "rec_to_json D (stamp D L (io_now i) rid r)")
    case js: (Some js)
    obtain ok L1 where w: "write_line L (js @ [10]) (io_write i) = (ok, L1)" by fastforce
    then have L1: "al_cfg L1 = al_cfg L" using write_checkpoint_snd(2) [of L "js @ [10]" "io_write i"] by simp
    show ?thesis
      using Some js w L1 write_checkpoint_frame(1)
      by (auto simp: append_stamped_def Let_def split: bool.splits prod.splits sum.splits)
  qed (simp add: append_stamped_def Some Let_def)
qed (simp add: append_stamped_def)

lemma ledger_append_cfg: "ledger_append D L i r = (res, L') \<Longrightarrow> al_cfg L' = al_cfg L"
proof (cases "segment_full L")
  case True
  obtain res1 K where k: "seal_and_roll D L i = (res1, K)" by fastforce
  show "ledger_append D L i r = (res, L') \<Longrightarrow> al_cfg L' = al_cfg L"
    using True k seal_and_roll_cfg [OF k] append_stamped_cfg [of D K i r]
    by (cases res1) (auto simp: ledger_append_def segment_full_def)
next
  case False
  then show "ledger_append D L i r = (res, L') \<Longrightarrow> al_cfg L' = al_cfg L"
    using append_stamped_cfg [of D L i r] by (auto simp: ledger_append_def segment_full_def)
qed

lemma ledger_step_cfg: "ledger_step D L L' \<Longrightarrow> al_cfg L' = al_cfg L"
proof (erule ledger_stepE)
  fix i res' assume "checkpoint D L i = (res', L')"
  then show "al_cfg L' = al_cfg L"
    by (auto simp: checkpoint_def dest!: write_checkpoint_frame(1) split: if_splits prod.splits sum.splits)
qed (auto simp: seal_def dest: seal_and_roll_cfg ledger_append_cfg split: if_splits)

text \<open>Every step keeps the invariant and adds at most one segment and one record.\<close>

lemma ledger_step_inv:
  assumes inv: "ledger_inv D L gs" and room: "room (gs @ [[]])" "Suc (length (concat gs)) < 2 ^ 64"
    and env: "signer_ok D (al_signer L)" "serde_ok D" and step: "ledger_step D L L'"
  shows "\<exists>gs'. ledger_inv D L' gs' \<and> al_signer L' = al_signer L \<and> length gs' \<le> Suc (length gs) \<and>
    (0 < lc_segment_max_records (al_cfg L) \<and> no_gap gs \<longrightarrow> no_gap gs') \<and>
    length (concat gs') \<le> Suc (length (concat gs)) \<and> prefix (concat gs) (concat gs')"
  using step
proof (rule ledger_stepE)
  fix i r res assume "clean_io (al_cfg L) i" "ledger_append D L i r = (res, L')"
  with ledger_append_inv [OF inv room env, of i r res L'] show ?thesis
    by (fastforce simp: clean_io_def)
next
  fix i res assume "clean_io (al_cfg L) i" "checkpoint D L i = (res, L')"
  with public_checkpoint_inv [OF inv room_next [OF room(1)] env, of i res L'] show ?thesis
    by (auto simp: clean_io_def simp del: length_concat)
next
  fix i res assume "clean_io (al_cfg L) i" "io_roll i" "seal D L i = (res, L')"
  with public_seal_inv [OF inv room(1) env, of i res L'] show ?thesis
    by (fastforce simp: clean_io_def)
qed

lemma ledger_reach_inv:
  assumes reach: "ledger_reach D L0 n L" and inv: "ledger_inv D L0 gs" "no_gap gs"
    and len: "length gs + n < 2 ^ 64" "length (concat gs) + n < 2 ^ 64"
    and env: "signer_ok D (al_signer L0)" "serde_ok D" "0 < lc_segment_max_records (al_cfg L0)"
  shows "\<exists>gs'. ledger_inv D L gs' \<and> no_gap gs' \<and> al_signer L = al_signer L0 \<and> al_cfg L = al_cfg L0 \<and>
    length gs' \<le> length gs + n \<and> length (concat gs') \<le> length (concat gs) + n \<and> prefix (concat gs) (concat gs')"
  using reach len
proof (induction rule: ledger_reach.induct)
  case reach_start
  with inv show ?case by auto
next
  case (reach_step n L L')
  then obtain hs where hs: "ledger_inv D L hs" "no_gap hs" "al_signer L = al_signer L0" "al_cfg L = al_cfg L0"
      "length hs \<le> length gs + n" "length (concat hs) \<le> length (concat gs) + n" "prefix (concat gs) (concat hs)"
    by auto
  have room: "room (hs @ [[]])" "Suc (length (concat hs)) < 2 ^ 64"
    using hs(5,6) reach_step.prems by (simp_all add: room_def del: length_concat)
  from ledger_step_inv [OF hs(1) room _ env(2) reach_step.hyps(2)] env hs
  obtain hs' where hs': "ledger_inv D L' hs'" "al_signer L' = al_signer L" "length hs' \<le> Suc (length hs)"
      "no_gap hs'" "length (concat hs') \<le> Suc (length (concat hs))" "prefix (concat hs) (concat hs')"
    by (auto simp del: length_concat)
  have "length hs' \<le> length gs + Suc n" "length (concat hs') \<le> length (concat gs) + Suc n"
    using hs hs' by linarith+
  moreover have "prefix (concat gs) (concat hs')" using hs(7) hs'(6) by (rule prefix_order.trans)
  ultimately show ?case
    using hs hs' ledger_step_cfg [OF reach_step.hyps(2)] by (intro exI [of _ hs']) (simp del: length_concat)
qed

section \<open>A fresh ledger\<close>

definition empty_disk :: disk where
  "empty_disk = \<lparr>dk_segments = [], dk_checkpoints = []\<rparr>"

definition fresh_ledger :: "LedgerConfig \<Rightarrow> Signer \<Rightarrow> string \<Rightarrow> AuditLedger" where
  "fresh_ledger cfg sg pid =
     \<lparr>al_cfg = cfg, al_process_id = pid, al_signer = sg,
      al_inner = \<lparr>in_segment_id = 1, in_next_seq = 1, in_prev_hash = digest_zero, in_records_in_segment = 0,
                  in_records_since_ckpt = 0, in_file = segment_filename 1\<rparr>,
      al_disk = \<lparr>dk_segments = [(segment_filename 1, [])], dk_checkpoints = []\<rparr>\<rparr>"

lemma open_fresh:
  "oi_mkdir oi \<Longrightarrow> oi_open oi \<Longrightarrow> fst (open_ledger D empty_disk cfg sg pid oi) = Ok (fresh_ledger cfg sg pid)"
  by (simp add: open_ledger_def recover_def empty_disk_def fresh_ledger_def list_segment_ids_def
      List.map_filter_simps touch_def Let_def)

lemma fresh_inv: "ledger_inv D (fresh_ledger cfg sg pid) [[]]"
  by (simp add: ledger_inv_def writer_inv_def fresh_ledger_def writable_def cps_all_def seg_text_def)

lemma fresh_reach_inv:
  assumes "ledger_reach D (fresh_ledger cfg sg pid) n L" "Suc n < 2 ^ 64"
    and "signer_ok D sg" "serde_ok D" "0 < lc_segment_max_records cfg"
  shows "\<exists>gs. ledger_inv D L gs \<and> no_gap gs \<and> al_signer L = sg \<and> al_cfg L = cfg \<and> room gs"
proof -
  have "\<exists>gs. ledger_inv D L gs \<and> no_gap gs \<and> al_signer L = sg \<and> al_cfg L = cfg \<and>
      length gs \<le> Suc n \<and> length (concat gs) \<le> n"
    using ledger_reach_inv [OF assms(1) fresh_inv] assms(2-) by (fastforce simp: no_gap_def fresh_ledger_def)
  then show ?thesis
    using assms(2) by (fastforce simp: room_def)
qed

lemma inv_verifies:
  assumes "ledger_inv D L gs" "room gs" "serde_ok D"
    and "trust_get trust (sg_key_id (al_signer L)) = Some (sg_public_key (al_signer L))"
  shows "\<exists>rep. verify_dir D (al_disk L) trust = Ok rep \<and> vr_ok rep"
proof -
  have "ledger_sound D (al_disk L) trust (seg_pairs 1 gs)"
    by (rule ledger_inv_sound) (use assms in \<open>auto simp: room_def\<close>)
  with verify_dir_located [of D "al_disk L" "seg_pairs 1 gs" trust] assms(2) show ?thesis
    by (simp add: ledger_sound_def room_def)
qed

text \<open>The writer state and the disk show the shape of the history.\<close>

lemma inv_shape:
  assumes "ledger_inv D L gs" "room gs"
  shows "length gs = 1 \<longleftrightarrow> in_segment_id (al_inner L) = 1"
    "last gs = [] \<longleftrightarrow> in_records_in_segment (al_inner L) = 0"
proof -
  have gs: "gs \<noteq> []" "in_segment_id (al_inner L) = of_nat (length gs)"
      "in_records_in_segment (al_inner L) = of_nat (length (last gs))"
    using assms(1) by (simp_all add: ledger_inv_def writer_inv_def)
  then have "length (last gs) \<le> length (concat gs)"
    by (cases gs rule: rev_cases) simp_all
  then have "length (last gs) < 2 ^ 64" "length gs < 2 ^ 64" using assms(2) by (auto simp: room_def)
  with gs show "length gs = 1 \<longleftrightarrow> in_segment_id (al_inner L) = 1"
    "last gs = [] \<longleftrightarrow> in_records_in_segment (al_inner L) = 0"
    using of_nat_u64_inj [of "length gs" 1] of_nat_u64_inj [of "length (last gs)" 0] by simp_all
qed

lemma inv_records:
  assumes "ledger_inv D L gs" "room gs" "serde_ok D"
  shows "ledger_records D (al_disk L) = concat gs"
proof -
  have "ledger_items D (al_disk L) = located_items (seg_pairs 1 gs)"
    using parse_segments_history [OF assms(3), of gs] assms(1,2)
    by (simp add: ledger_items_def ledger_inv_def writer_inv_def room_def)
  then show ?thesis by (simp add: ledger_records_def item_records_map)
qed

section \<open>Reopening\<close>

lemma segment_json:
  assumes "writer_inv D L gs" "g \<in> set gs"
  shows "list_all2 (\<lambda>r b. rec_to_json D r = Some b) g (map (\<lambda>r. the (rec_to_json D r)) g)"
  using assms by (fastforce simp: list_all2_map2 list_all2_same writer_inv_def writable_def list_all_iff)

lemma read_segment_seg:
  assumes "writer_inv D L gs" "room gs" "serde_ok D" "i < length gs"
  shows "read_segment D (dk_segments (al_disk L)) (segment_filename (of_nat (Suc i))) =
    Ok \<lparr>sr_records = gs ! i, sr_valid_len = length (seg_text D (gs ! i)), sr_torn_tail = False\<rparr>"
proof -
  have "1 + length gs \<le> 2 ^ 64" using assms(2) by (simp add: room_def)
  from map_of_seg_entries [OF this assms(4), of D] assms(1)
  have m: "map_of (dk_segments (al_disk L)) (segment_filename (of_nat (Suc i))) = Some (seg_text D (gs ! i))"
    by (simp add: writer_inv_def del: of_nat_Suc)
  have "list_all2 (\<lambda>r b. rec_to_json D r = Some b) (gs ! i) (map (\<lambda>r. the (rec_to_json D r)) (gs ! i))"
    by (rule segment_json [OF assms(1)]) (simp add: assms(4))
  from read_loop_torn [OF assms(3) this, of "[]"] show ?thesis
    by (simp add: read_segment_def m seg_text_def del: of_nat_Suc)
qed

lemma verify_recovered_chain_ok:
  assumes "chain_ok D p sq rs"
  shows "verify_recovered D p (Some sq) rs = Ok ()"
  using assms by (induction rs arbitrary: p sq) auto

lemma verify_recovered_none:
  assumes "chain_ok D p sq rs"
  shows "verify_recovered D q None rs =
    (if rs \<noteq> [] \<and> p \<noteq> q then Err (AE_Integrity (ChainBroken sq)) else Ok ())"
  using assms verify_recovered_chain_ok [of D _ _ "tl rs"] by (cases rs) auto

text \<open>The last segment continues the chain where the earlier ones end.\<close>

lemma last_segment_chain:
  assumes "writer_inv D L gs"
  shows "chain_ok D (chain_head digest_zero (concat (butlast gs))) (1 + of_nat (length (concat (butlast gs)))) (last gs)"
    "concat gs = concat (butlast gs) @ last gs"
proof -
  show split: "concat gs = concat (butlast gs) @ last gs"
    using assms append_butlast_last_id [of gs] by (metis concat.simps concat_append append_Nil2 writer_inv_def)
  show "chain_ok D (chain_head digest_zero (concat (butlast gs))) (1 + of_nat (length (concat (butlast gs)))) (last gs)"
    using assms unfolding writer_inv_def split chain_ok_append by simp
qed

lemma last_ids:
  assumes "gs \<noteq> []" "length gs < 2 ^ 64"
  shows "last (list_segment_ids (seg_entries D 1 gs)) = of_nat (length gs)"
    "list_segment_ids (seg_entries D 1 gs) \<noteq> []"
    "filter (\<lambda>i. i < of_nat (length gs)) (list_segment_ids (seg_entries D 1 gs)) = map of_nat [1..<length gs]"
proof -
  have ids: "list_segment_ids (seg_entries D 1 gs) = map of_nat [1..<length gs] @ [of_nat (length gs)]"
    using list_segment_ids_seg [OF assms(2)] assms(1) by (cases "length gs") simp_all
  then show "last (list_segment_ids (seg_entries D 1 gs)) = of_nat (length gs)"
    "list_segment_ids (seg_entries D 1 gs) \<noteq> []" by simp_all
  have "(of_nat k :: u64) < of_nat (length gs)" if "k < length gs" for k
    using that assms(2) by (simp add: word_less_nat_alt unat_of_nat)
  then show "filter (\<lambda>i. i < of_nat (length gs)) (list_segment_ids (seg_entries D 1 gs)) = map of_nat [1..<length gs]"
    unfolding ids by (simp add: filter_True)
qed

lemma chain_last_seq:
  assumes "chain_ok D p 1 rs" "rs \<noteq> []"
  shows "ar_global_sequence (last rs) = of_nat (length rs)"
  using assms by (cases rs rule: rev_cases) (auto simp: chain_ok_append)

lemma head_before_inv:
  assumes inv: "writer_inv D L gs" "room gs" "serde_ok D" "no_gap gs" and "last gs = []"
  shows "head_before D (dk_segments (al_disk L)) (list_segment_ids (dk_segments (al_disk L))) (of_nat (length gs))
    = Ok (in_next_seq (al_inner L), in_prev_hash (al_inner L))"
proof -
  have ne: "gs \<noteq> []" and len: "length gs < 2 ^ 64" and d: "dk_segments (al_disk L) = seg_entries D 1 gs"
    and nx: "in_next_seq (al_inner L) = of_nat (Suc (length (concat gs)))"
    and pv: "in_prev_hash (al_inner L) = chain_head digest_zero (concat gs)"
    and chain: "chain_ok D digest_zero 1 (concat gs)"
    using inv by (auto simp: writer_inv_def room_def)
  note ids = last_ids(3) [OF ne len, of D, folded d]
  show ?thesis
  proof (cases "length gs = 1")
    case True
    then have "concat gs = []" using assms(5) by (cases gs) auto
    with True nx pv show ?thesis unfolding head_before_def ids by simp
  next
    case False
    then obtain k where k: "length gs = Suc (Suc k)" using ne by (cases "length gs"; cases "length gs - 1") auto
    have prev: "last (map of_nat [1..<length gs]) = (of_nat (Suc k) :: u64)" "[1..<length gs] \<noteq> []"
      using k by simp_all
    have "butlast gs \<noteq> []" using k by (cases gs rule: rev_cases) auto
    then have bl: "last (butlast gs) = gs ! k" "butlast gs \<noteq> []"
      using k by (simp_all add: last_conv_nth nth_butlast)
    then have g: "gs ! k \<noteq> []" "gs ! k \<in> set (butlast gs)"
      using inv(4) last_in_set [of "butlast gs"] by (auto simp: no_gap_def list_all_iff)
    have "concat (butlast gs) = concat (butlast (butlast gs)) @ gs ! k"
      using append_butlast_last_id [OF bl(2)] bl(1) by (metis concat.simps concat_append append_Nil2)
    then have all: "concat gs \<noteq> []" "last (concat gs) = last (gs ! k)"
      using last_segment_chain(2) [OF inv(1)] assms(5) g(1) by auto
    then have "ar_global_sequence (last (gs ! k)) + 1 = of_nat (Suc (length (concat gs)))"
      using chain_last_seq [OF chain] by (simp del: length_concat concat_eq_Nil_conv)
    moreover have "read_segment D (dk_segments (al_disk L)) (segment_filename (of_nat (Suc k))) =
        Ok \<lparr>sr_records = gs ! k, sr_valid_len = length (seg_text D (gs ! k)), sr_torn_tail = False\<rparr>"
      by (rule read_segment_seg [OF inv(1,2,3)]) (simp add: k)
    ultimately show ?thesis
      unfolding head_before_def Let_def ids prev(1) nx pv chain_head_def
      using prev(2) all g(1) by (simp del: of_nat_Suc upt_Suc length_concat concat_eq_Nil_conv)
  qed
qed

text \<open>What the recovery check says of the last segment: it accepts it only in a one-segment ledger.\<close>

lemma recovered_chain:
  assumes w: "writer_inv D L gs" and "no_gap gs" "last gs \<noteq> []"
    and nz: "length gs = 1 \<or> list_all (\<lambda>r. ar_record_hash r \<noteq> digest_zero) (concat gs)"
  shows "verify_recovered_chain D (last gs) =
    (if length gs = 1 then Ok ()
     else Err (AE_Integrity (ChainBroken (of_nat (Suc (length (concat (butlast gs))))))))"
proof -
  have ne: "gs \<noteq> []" using w by (simp add: writer_inv_def)
  have "chain_head digest_zero (concat (butlast gs)) = digest_zero \<longleftrightarrow> length gs = 1"
  proof (cases "length gs = 1")
    case False
    then have "butlast gs \<noteq> []" using ne by (cases gs rule: rev_cases) auto
    then have b: "concat (butlast gs) \<noteq> []"
      using assms(2) hd_in_set [of "butlast gs"] by (auto simp: no_gap_def list_all_iff)
    then have "last (concat (butlast gs)) \<in> set (concat gs)"
      unfolding last_segment_chain(2) [OF w] using last_in_set [OF b] by simp
    with nz b False show ?thesis by (simp add: chain_head_def list_all_iff del: set_concat concat_eq_Nil_conv)
  next
    case True
    then have "butlast gs = []" by (cases gs) auto
    with True show ?thesis by simp
  qed
  then show ?thesis
    unfolding verify_recovered_chain_def verify_recovered_none [OF last_segment_chain(1) [OF w]]
    using assms(3) by simp
qed

lemma recover_last:
  assumes w: "writer_inv D L gs" and "room gs" "serde_ok D"
  shows "recover D (dk_segments (al_disk L)) oi =
    (case verify_recovered_chain D (last gs) of
       Inl e \<Rightarrow> (Err e, dk_segments (al_disk L))
     | Inr _ \<Rightarrow>
         (case (if last gs = []
                then head_before D (dk_segments (al_disk L)) (list_segment_ids (dk_segments (al_disk L))) (of_nat (length gs))
                else Ok (ar_global_sequence (last (last gs)) + 1, ar_record_hash (last (last gs)))) of
            Inl e \<Rightarrow> (Err e, dk_segments (al_disk L))
          | Inr (next_seq, prev_hash) \<Rightarrow>
              (Ok (of_nat (length gs), next_seq, prev_hash, of_nat (length (last gs))), dk_segments (al_disk L))))"
proof -
  have ne: "gs \<noteq> []" and len: "length gs < 2 ^ 64" and d: "dk_segments (al_disk L) = seg_entries D 1 gs"
    using assms by (auto simp: writer_inv_def room_def)
  note ids = last_ids(1,2) [OF ne len, of D, folded d]
  have "last gs = gs ! (length gs - 1)" "length gs = Suc (length gs - 1)" using ne by (auto simp: last_conv_nth)
  with read_segment_seg [OF assms, of "length gs - 1"]
  have "read_segment D (dk_segments (al_disk L)) (segment_filename (of_nat (length gs))) =
      Ok \<lparr>sr_records = last gs, sr_valid_len = length (seg_text D (last gs)), sr_torn_tail = False\<rparr>" by simp
  then show ?thesis
    unfolding recover_def Let_def ids using ids(2) by (auto split: sum.splits)
qed

lemma recovered_state:
  assumes w: "writer_inv D L gs" and "room gs" "serde_ok D" "no_gap gs"
    and nz: "length gs = 1 \<or> last gs = [] \<or> list_all (\<lambda>r. ar_record_hash r \<noteq> digest_zero) (concat gs)"
  shows "recover D (dk_segments (al_disk L)) oi =
    (if length gs = 1 \<or> last gs = []
     then Ok (in_segment_id (al_inner L), in_next_seq (al_inner L), in_prev_hash (al_inner L),
              in_records_in_segment (al_inner L))
     else Err (AE_Integrity (ChainBroken (of_nat (Suc (length (concat (butlast gs))))))), dk_segments (al_disk L))"
proof (cases "last gs = []")
  case True
  then show ?thesis
    unfolding recover_last [OF w assms(2,3)] head_before_inv [OF w assms(2-4) True]
    using w by (simp add: verify_recovered_chain_def writer_inv_def)
next
  case False
  then have nz': "length gs = 1 \<or> list_all (\<lambda>r. ar_record_hash r \<noteq> digest_zero) (concat gs)" using nz by blast
  have "concat gs \<noteq> []" "last (concat gs) = last (last gs)"
    using last_segment_chain(2) [OF w] False by simp_all
  then have "ar_global_sequence (last (last gs)) + 1 = in_next_seq (al_inner L)"
      "ar_record_hash (last (last gs)) = in_prev_hash (al_inner L)"
    using w chain_last_seq [of D digest_zero "concat gs"]
    by (auto simp: writer_inv_def chain_head_def simp del: length_concat concat_eq_Nil_conv)
  with False w show ?thesis
    unfolding recover_last [OF w assms(2,3)] recovered_chain [OF w assms(4) False nz']
    by (simp add: writer_inv_def)
qed

lemma reopen:
  assumes inv: "ledger_inv D L gs" "room gs" "no_gap gs" and env: "serde_ok D" "oi_mkdir oi" "oi_open oi"
    and nz: "length gs = 1 \<or> last gs = [] \<or> list_all (\<lambda>r. ar_record_hash r \<noteq> digest_zero) (concat gs)"
  shows "fst (open_ledger D (al_disk L) (al_cfg L) (al_signer L) pid oi) =
    (if length gs = 1 \<or> last gs = []
     then Ok (L\<lparr>al_process_id := pid, al_inner := (al_inner L)\<lparr>in_records_since_ckpt := 0\<rparr>\<rparr>)
     else Err (AE_Integrity (ChainBroken (of_nat (Suc (length (concat (butlast gs))))))))"
proof -
  have w: "writer_inv D L gs" using inv(1) by (simp add: ledger_inv_def)
  have "touch (segment_filename (in_segment_id (al_inner L))) (dk_segments (al_disk L)) = dk_segments (al_disk L)"
    using current_segment_file [OF w inv(2)] w by (simp add: touch_def writer_inv_def)
  then show ?thesis
    using env w recovered_state [OF w inv(2) env(1) inv(3) nz, of oi]
    by (simp add: open_ledger_def Let_def writer_inv_def)
qed

section \<open>Crash recovery\<close>

lemma list_segment_ids_keys: "map fst d = map fst d' \<Longrightarrow> list_segment_ids d = list_segment_ids d'"
proof -
  assume eq: "map fst d = map fst d'"
  have "List.map_filter (\<lambda>(name, _). f name) xs = List.map_filter f (map fst xs)" for f :: "string \<Rightarrow> u64 option" and xs :: dir
    by (induction xs) (auto simp: List.map_filter_simps split: option.splits)
  with eq show ?thesis by (simp add: list_segment_ids_def)
qed

text \<open>
  A directory whose current segment ends in an unfinished line is recovered as if the line had never been
  begun.
\<close>

lemma recover_torn:
  assumes w: "writer_inv D L gs" and "room gs" "serde_ok D" "10 \<notin> set tail" "oi_heal_len oi" "oi_heal_sync oi"
  shows "recover D (dk_segments (al_disk (append_file (in_file (al_inner L)) tail L))) oi =
    recover D (dk_segments (al_disk L)) oi"
proof -
  let ?d = "dk_segments (al_disk L)" and ?f = "in_file (al_inner L)" and ?t = "seg_text D (last gs)"
  let ?d' = "AList.update ?f (?t @ tail) ?d"
  have ne: "gs \<noteq> []" and len: "length gs < 2 ^ 64" and d: "?d = seg_entries D 1 gs"
    and f: "?f = segment_filename (of_nat (length gs))"
    using assms by (auto simp: writer_inv_def room_def)
  have cur: "map_of ?d ?f = Some ?t" by (rule current_segment_file [OF w assms(2)])
  then have "?f \<in> set (map fst ?d)" by (metis map_of_eq_None_iff option.distinct(1) set_map)
  then have ids: "list_segment_ids ?d' = list_segment_ids ?d"
    by (intro list_segment_ids_keys) (simp add: AList.update_keys)
  have restore: "AList.update ?f ?t ?d' = ?d"
    using AList.update_triv [OF cur] by simp
  have json: "list_all2 (\<lambda>r b. rec_to_json D r = Some b) (last gs) (map (\<lambda>r. the (rec_to_json D r)) (last gs))"
    by (rule segment_json [OF w]) (use ne in simp)
  have rd: "read_segment D ?d' ?f =
      Ok \<lparr>sr_records = last gs, sr_valid_len = length ?t, sr_torn_tail = tail \<noteq> []\<rparr>"
    using read_loop_torn [OF assms(3) json assms(4)]
    by (simp add: read_segment_def update_conv' seg_text_def)
  have disk: "dk_segments (al_disk (append_file ?f tail L)) = ?d'"
    by (simp add: append_file_def Let_def cur)
  have rd0: "read_segment D ?d ?f = Ok \<lparr>sr_records = last gs, sr_valid_len = length ?t, sr_torn_tail = False\<rparr>"
    using read_loop_torn [OF assms(3) json, of "[]"] by (simp add: read_segment_def cur seg_text_def)
  have heal: "(if tail \<noteq> [] then AList.update ?f (take (length ?t) (the (map_of ?d' ?f))) ?d' else ?d') = ?d"
    using restore by (simp add: update_conv' AList.update_triv [OF cur])
  show ?thesis
    unfolding disk recover_def Let_def ids last_ids(1) [OF ne len, of D, folded d] f [symmetric] rd rd0
      SegmentRead.simps sum.case heal
    using assms(5,6) last_ids(2) [OF ne len, of D, folded d] by simp
qed

lemma crash_reopen:
  assumes "ledger_inv D L gs" "room gs" "serde_ok D" "rec_to_json D r = Some js" "n \<le> length js"
    and "oi_heal_len oi" "oi_heal_sync oi" "oi_mkdir oi"
  shows "open_ledger D (al_disk (snd (write_line L (js @ [10]) (WriteFailed n)))) cfg sg pid oi =
    open_ledger D (al_disk L) cfg sg pid oi"
proof -
  have w: "writer_inv D L gs" using assms(1) by (simp add: ledger_inv_def)
  have "10 \<notin> set (take n (js @ [10]))"
    using assms(3,4,5) by (auto simp: serde_ok_def dest: in_set_takeD)
  note rec = recover_torn [OF w assms(2,3) this assms(6,7)]
  have "(al_disk (append_file (in_file (al_inner L)) b L))\<lparr>dk_segments := x\<rparr> = (al_disk L)\<lparr>dk_segments := x\<rparr>" for b x
    by (simp add: append_file_def Let_def)
  with rec assms(8) show ?thesis
    by (simp add: open_ledger_def write_line_def Let_def del: take_append split: prod.splits sum.splits)
qed

end
