(* ===== verification/Audit_Faults.thy ===== *)
theory Audit_Faults
  imports Audit_Honest
begin

text \<open>
  What a caller of \<open>append\<close> may conclude from the value it returns, whatever the operating system answers:
  a receipt means the record is the last line of the current segment and the new head of the chain, and an
  error other than a failed periodic checkpoint means that the chain in memory did not move.
\<close>

section \<open>The head of the chain\<close>

definition head_of :: "AuditLedger \<Rightarrow> u64 \<times> digest" where
  "head_of L = (in_next_seq (al_inner L), in_prev_hash (al_inner L))"

lemma write_line_frame [simp]: "al_inner (snd (write_line L line w)) = al_inner L"
  by (auto simp: write_line_def Let_def split: write_outcome.splits)

lemma write_line_true:
  assumes "write_line L line w = (True, L')"
  shows "L' = append_file (in_file (al_inner L)) line L"
  using assms by (auto simp: write_line_def Let_def split: write_outcome.splits)

lemma seal_and_roll_head:
  assumes "seal_and_roll D L i = (res, L')"
  shows "head_of L' = head_of L"
  using assms write_checkpoint_frame(3) [of D L]
  by (auto simp: head_of_def seal_and_roll_def seal_locked_def roll_locked_def Let_def
      split: prod.splits sum.splits if_splits)

text \<open>The record \<open>r\<close> is on disk: its line is the last one of the file being written.\<close>

definition last_line :: "env \<Rightarrow> AuditLedger \<Rightarrow> AuditRecord \<Rightarrow> bool" where
  "last_line D L r \<longleftrightarrow> (\<exists>pre js. rec_to_json D r = Some js \<and>
     map_of (dk_segments (al_disk L)) (in_file (al_inner L)) = Some (pre @ js @ [10]))"

definition linked :: "env \<Rightarrow> AuditLedger \<Rightarrow> AuditRecord \<Rightarrow> AuditLedger \<Rightarrow> bool" where
  "linked D L r L' \<longleftrightarrow> last_line D L' r \<and> (ar_global_sequence r, ar_previous_hash r) = head_of L \<and>
     compute_record_hash D r = ar_record_hash r \<and>
     head_of L' = (ar_global_sequence r + 1, ar_record_hash r)"

lemma advance_linked:
  assumes "r = stamp D L now rid r0" "rec_to_json D r = Some js"
  shows "linked D L r (with_inner (advance r) (append_file (in_file (al_inner L)) (js @ [10]) L))"
  using assms unfolding linked_def last_line_def head_of_def advance_def append_file_def Let_def
  by (simp add: update_Some_unfold update_conv')

lemma linked_checkpoint:
  assumes "write_checkpoint_locked D M now out sealed = (res, M')" "linked D L r M"
  shows "linked D L r M'" "linked D L r (with_inner (in_records_since_ckpt_update f) M')"
  using assms(2) write_checkpoint_frame [OF assms(1)]
  by (simp_all add: linked_def last_line_def head_of_def)

lemma append_stamped_outcome:
  assumes run: "append_stamped D L i r0 = (res, L')"
  shows "(\<exists>r. linked D L r L' \<and> (\<exists>rid. r = stamp D L (io_now i) rid r0) \<and>
            (res = Ok (receipt_of r) \<or> res = Err AE_Io \<or> res = Err AE_Serde)) \<or>
    al_inner L' = al_inner L \<and> (\<exists>e \<in> {AE_Random, AE_Serde, AE_DurabilityFailed}. res = Err e)"
proof (cases "io_random i")
  case None
  with run show ?thesis by (auto simp: append_stamped_def)
next
  case (Some rid)
  define r where "r = stamp D L (io_now i) rid r0"
  show ?thesis
  proof (cases "rec_to_json D r")
    case None
    with run Some show ?thesis by (auto simp: append_stamped_def Let_def r_def)
  next
    case js: (Some js)
    obtain ok K where w: "write_line L (js @ [10]) (io_write i) = (ok, K)" by fastforce
    show ?thesis
    proof (cases ok)
      case False
      with run Some js w write_line_frame [of L "js @ [10]" "io_write i"] show ?thesis
        by (auto simp: append_stamped_def Let_def r_def)
    next
      case True
      define M where "M = with_inner (advance r) (append_file (in_file (al_inner L)) (js @ [10]) L)"
      have M: "linked D L r M" unfolding M_def by (rule advance_linked [OF r_def js])
      have w': "write_line L (js @ [10]) (io_write i) = (True, append_file (in_file (al_inner L)) (js @ [10]) L)"
        using w True write_line_true [of L "js @ [10]" "io_write i" K] by simp
      note app = append_stamped_written [OF Some r_def js w' M_def]
      obtain res1 M' where c: "write_checkpoint_locked D M (io_ckpt_now i) (io_ckpt i) False = (res1, M')"
        by fastforce
      have "res1 = Ok () \<or> res1 = Err AE_Io \<or> res1 = Err AE_Serde"
        using c by (auto simp: write_checkpoint_locked_def Let_def split: option.splits file_outcome.splits)
      with run app c M linked_checkpoint [OF c M] r_def show ?thesis
        by (cases res1) (auto split: if_splits)
    qed
  qed
qed

lemma linked_head: "head_of K = head_of L \<Longrightarrow> linked D K r L' = linked D L r L'"
  by (simp add: linked_def)

text \<open>Every outcome of \<open>append\<close>.\<close>

lemma ledger_append_outcome:
  assumes run: "ledger_append D L i r0 = (res, L')"
  shows "(\<exists>r. linked D L r L' \<and> (res = Ok (receipt_of r) \<or> res = Err AE_Io \<or> res = Err AE_Serde)) \<or>
    head_of L' = head_of L \<and> \<not> is_ok res"
proof -
  have done_: ?thesis if "append_stamped D K i r0 = (res, L')" "head_of K = head_of L" for K
    using append_stamped_outcome [OF that(1)] that(2) linked_head [OF that(2)] by (auto simp: head_of_def)
  show ?thesis
  proof (cases "lc_segment_max_records (al_cfg L) \<le> in_records_in_segment (al_inner L)")
    case True
    obtain res1 K where k: "seal_and_roll D L i = (res1, K)" by fastforce
    with True run done_ [of K] seal_and_roll_head [OF k] show ?thesis
      by (cases res1) (auto simp: ledger_append_def)
  qed (use run done_ [of L] in \<open>simp add: ledger_append_def\<close>)
qed

lemma append_checkpoint_failure:
  assumes "\<not> segment_full L" "io_random i = Some rid" "rec_to_json D (stamp D L (io_now i) rid r0) = Some js"
    and "io_write i = WriteOk" "lc_checkpoint_every (al_cfg L) \<le> in_records_since_ckpt (al_inner L) + 1"
    and "io_ckpt i = FileFailed n" "ledger_append D L i r0 = (res, L')"
  shows "linked D L (stamp D L (io_now i) rid r0) L'" "res = Err AE_Io \<or> res = Err AE_Serde"
proof -
  define r where "r = stamp D L (io_now i) rid r0"
  define M where "M = with_inner (advance r) (append_file (in_file (al_inner L)) (js @ [10]) L)"
  have "write_line L (js @ [10]) (io_write i) = (True, append_file (in_file (al_inner L)) (js @ [10]) L)"
    using assms(4) by (simp add: write_line_def)
  note app = append_stamped_written [OF assms(2) r_def assms(3) [folded r_def] this M_def]
  have M: "linked D L r M" unfolding M_def by (rule advance_linked [OF r_def assms(3) [folded r_def]])
  obtain res1 M' where c: "write_checkpoint_locked D M (io_ckpt_now i) (io_ckpt i) False = (res1, M')" by fastforce
  then have res1: "res1 = Err AE_Io \<or> res1 = Err AE_Serde"
    using assms(6) by (auto simp: write_checkpoint_locked_def Let_def split: option.splits)
  have "ledger_append D L i r0 = (case (res1, M') of (Inl e, M') \<Rightarrow> (Err e, M')
      | (Inr _, M') \<Rightarrow> (Ok (receipt_of r), with_inner (in_records_since_ckpt_update (\<lambda>_. 0)) M'))"
    using assms(1,5) by (simp add: ledger_append_def segment_full_def app c) (simp add: M_def advance_def)
  with assms(7) res1 linked_checkpoint(1) [OF c M]
  show "linked D L (stamp D L (io_now i) rid r0) L'" "res = Err AE_Io \<or> res = Err AE_Serde"
    by (auto simp: r_def)
qed

end
