(* ===== verification/Audit_Examples.thy ===== *)
theory Audit_Examples
  imports Audit_Run Audit_Tamper Audit_Faults
begin

text \<open>
  A concrete run: an instance of the external functions, a ledger that rolls after every record, and the
  states its first two appends reach. The theorems about the ledger are applied to it.
\<close>

definition ex_now :: datetime where
  "ex_now = \<lparr>dt_secs = 1000, dt_nanos = 5\<rparr>"

definition ex_pre :: env where
  "ex_pre = \<lparr>blake3 = \<lambda>_. 0, hex_encode = \<lambda>_. ''00'',
     timestamp_nanos_opt = (\<lambda>t. let n = dt_secs t * 1000000000 + int (dt_nanos t)
       in if - (2 ^ 63) \<le> n \<and> n < 2 ^ 63 then Some n else None),
     vk_from_bytes = \<lambda>_. True, verify_strict = \<lambda>pk m s. pk = 9 \<and> s = replicate 64 1,
     ed_public = \<lambda>_. 9, ed_sign = \<lambda>_ _. replicate 64 1,
     rec_to_json = \<lambda>_. None, rec_from_json = \<lambda>_. None, cp_to_json = \<lambda>_. None, cp_from_json = \<lambda>_. None\<rparr>"

definition ex_signer :: Signer where
  "ex_signer = \<lparr>sg_key_id = ''k'', sg_public_key = 9, sg_sign = \<lambda>_. Sig (replicate 64 1)\<rparr>"

definition ex_trust :: TrustRoot where
  "ex_trust = [(''k'', 9)]"

definition ex_cfg :: LedgerConfig where
  "ex_cfg = LedgerConfig_default\<lparr>lc_segment_max_records := 1\<rparr>"

definition ex_io :: io where
  "ex_io = \<lparr>io_now = ex_now, io_random = Some ''id'', io_write = WriteOk, io_seal_now = ex_now, io_seal = FileOk,
     io_roll = True, io_ckpt_now = ex_now, io_ckpt = FileOk\<rparr>"

definition ex_open :: open_io where
  "ex_open = \<lparr>oi_mkdir = True, oi_heal_len = True, oi_heal_sync = True, oi_open = True\<rparr>"

definition ex_r :: AuditRecord where
  "ex_r = AuditRecord_new ex_now ''case.create'' ''case''"

definition ex_L0 :: AuditLedger where
  "ex_L0 = fresh_ledger ex_cfg ex_signer ''p''"

text \<open>A hash that tells the two canonical bodies of the run apart.\<close>

definition ex_ext :: env where
  "ex_ext = ex_pre\<lparr>blake3 := \<lambda>b. if b = canonical_body ex_pre (stamp ex_pre ex_L0 ex_now ''id'' ex_r) then 7 else 8\<rparr>"

definition ex_rec1 :: AuditRecord where
  "ex_rec1 = stamp ex_ext ex_L0 ex_now ''id'' ex_r"

definition ex_L1 :: AuditLedger where
  "ex_L1 = ex_L0\<lparr>al_inner := \<lparr>in_segment_id = 1, in_next_seq = 2, in_prev_hash = 7, in_records_in_segment = 1,
       in_records_since_ckpt = 1, in_file = segment_filename 1\<rparr>,
     al_disk := \<lparr>dk_segments = [(segment_filename 1, [65, 10])], dk_checkpoints = []\<rparr>\<rparr>"

definition ex_rec2 :: AuditRecord where
  "ex_rec2 = stamp ex_ext ex_L1 ex_now ''id'' ex_r"

definition ex_cp :: Checkpoint where
  "ex_cp = Checkpoint_create ex_ext ex_signer ex_now ''garmr'' 1 1 7 1 True"

definition ex_L2 :: AuditLedger where
  "ex_L2 = ex_L0\<lparr>al_inner := \<lparr>in_segment_id = 2, in_next_seq = 3, in_prev_hash = 8, in_records_in_segment = 1,
       in_records_since_ckpt = 1, in_file = segment_filename 2\<rparr>,
     al_disk := \<lparr>dk_segments = [(segment_filename 1, [65, 10]), (segment_filename 2, [66, 10])],
       dk_checkpoints = [(checkpoint_filename 1, [67])]\<rparr>\<rparr>"

definition ex_env :: env where
  "ex_env = ex_ext\<lparr>
     rec_to_json := (\<lambda>r. if r = ex_rec1 then Some [65] else if r = ex_rec2 then Some [66] else None),
     rec_from_json := (\<lambda>b. if b = [65] then Some ex_rec1 else if b = [66] then Some ex_rec2 else None),
     cp_to_json := (\<lambda>c. if c = ex_cp then Some [67] else None),
     cp_from_json := (\<lambda>b. if b = [67] then Some ex_cp else None)\<rparr>"

section \<open>The assumptions hold\<close>

lemma ex_ext_simps [simp]:
  "blake3 ex_env = blake3 ex_ext" "hex_encode ex_env = hex_encode ex_ext"
  "timestamp_nanos_opt ex_env = timestamp_nanos_opt ex_ext" "timestamp_nanos_opt ex_ext = timestamp_nanos_opt ex_pre"
  "vk_from_bytes ex_env = vk_from_bytes ex_ext" "verify_strict ex_env = verify_strict ex_ext"
  by (simp_all add: ex_ext_def ex_env_def)

lemma ex_body [simp]: "canonical_body ex_env = canonical_body ex_ext" "canonical_body ex_ext = canonical_body ex_pre"
  by (simp_all add: fun_eq_iff canonical_body_def ts_nanos_def)

lemma ex_stamp [simp]: "stamp ex_env = stamp ex_ext"
proof -
  have "drop_content ex_env = drop_content ex_ext"
    by (simp add: fun_eq_iff drop_content_def digest_of_def Let_def split: option.split)
  then have "apply_content_mode ex_env = apply_content_mode ex_ext"
    by (simp add: fun_eq_iff apply_content_mode_def split: content_mode.split)
  then show ?thesis
    by (simp add: fun_eq_iff stamp_def Let_def compute_record_hash_def)
qed

lemma ex_create [simp]: "Checkpoint_create ex_env = Checkpoint_create ex_ext"
  by (simp add: fun_eq_iff Checkpoint_create_def signed_body_def Let_def ts_nanos_def)

lemma ex_chrono: "chrono_ok ex_env" "chrono_ok ex_pre"
  by (simp_all add: chrono_ok_def ex_pre_def Let_def)

lemmas ex_run_defs = ex_L1_def ex_L0_def fresh_ledger_def ex_cfg_def LedgerConfig_default_def ex_r_def AuditRecord_new_def

text \<open>Without content the stamped record does not depend on the content mode.\<close>

lemma no_content: "ar_content r = None \<Longrightarrow> apply_content_mode D r = r"
  by (simp add: apply_content_mode_def drop_content_def split: content_mode.split)

lemma ex_canon: "list_all (canon_ok ex_pre) [ex_rec1, ex_rec2]" "list_all (canon_ok ex_env) [ex_rec1, ex_rec2]"
  by (simp_all add: canon_ok_def ex_rec1_def ex_rec2_def stamp_def Let_def no_content ex_run_defs
      str_ok_def vec_ok_def ts_ok_def ex_now_def)
    (simp_all add: ex_pre_def)

lemma ex_seq [simp]: "ar_global_sequence ex_rec1 = 1" "ar_global_sequence ex_rec2 = 2"
  by (simp_all add: ex_rec1_def ex_rec2_def ex_L0_def fresh_ledger_def ex_L1_def)

lemma ex_bodies: "canonical_body ex_pre ex_rec1 \<noteq> canonical_body ex_pre ex_rec2"
proof
  assume "canonical_body ex_pre ex_rec1 = canonical_body ex_pre ex_rec2"
  then have "committed ex_rec1 = committed ex_rec2"
    using canonical_body_inj [OF ex_chrono(2), of ex_rec1 ex_rec2] ex_canon(1) by simp
  from committed_fields(1) [OF this] show False by simp
qed

lemma ex_first: "canonical_body ex_pre (stamp ex_pre ex_L0 ex_now ''id'' ex_r) = canonical_body ex_pre ex_rec1"
proof -
  have "ar_content ex_r = None" "\<not> lc_per_record_sign (al_cfg ex_L0)"
    by (simp_all add: ex_run_defs)
  then show ?thesis
    by (simp add: ex_rec1_def stamp_def Let_def no_content)
qed

lemma ex_blake3: "blake3 ex_ext b = (if b = canonical_body ex_pre ex_rec1 then 7 else 8)"
  using ex_first by (simp add: ex_ext_def)

lemma ex_hash [simp]: "ar_record_hash ex_rec1 = 7" "ar_record_hash ex_rec2 = 8"
proof -
  have "ar_record_hash ex_rec1 = blake3 ex_ext (canonical_body ex_pre ex_rec1)"
    "ar_record_hash ex_rec2 = blake3 ex_ext (canonical_body ex_pre ex_rec2)"
    using stamp_chain(3) [of ex_ext] by (simp_all add: compute_record_hash_def ex_rec1_def ex_rec2_def)
  with ex_bodies show "ar_record_hash ex_rec1 = 7" "ar_record_hash ex_rec2 = 8"
    by (auto simp: ex_blake3)
qed

lemma ex_distinct [simp]: "ex_rec1 \<noteq> ex_rec2" "ex_rec2 \<noteq> ex_rec1"
proof -
  have "(1 :: u64) \<noteq> 2" by simp
  then show "ex_rec1 \<noteq> ex_rec2" by (metis ex_seq)
  then show "ex_rec2 \<noteq> ex_rec1" by simp
qed

lemma ex_word [simp]: "\<not> (1000 :: u64) \<le> 1" "\<not> (1 :: u64) \<le> 0" "\<not> (1000 :: u64) \<le> 2"
  by (simp_all add: word_le_nat_alt)

lemma ex_json [simp]:
  "rec_to_json ex_env ex_rec1 = Some [65]" "rec_to_json ex_env ex_rec2 = Some [66]" "cp_to_json ex_env ex_cp = Some [67]"
  "rec_from_json ex_env [65] = Some ex_rec1" "rec_from_json ex_env [66] = Some ex_rec2"
  "cp_from_json ex_env [67] = Some ex_cp"
  by (simp_all add: ex_env_def)

lemma ex_serde: "serde_ok ex_env"
  by (simp add: serde_ok_def ex_env_def)

lemma ex_signer_ok: "signer_ok ex_env ex_signer"
  by (simp add: signer_ok_def verify_def ex_signer_def ex_ext_def ex_pre_def)

section \<open>The run\<close>

lemma ex_append1: "ledger_append ex_env ex_L0 ex_io ex_r = (Ok (receipt_of ex_rec1), ex_L1)"
  by (simp add: ledger_append_def append_stamped_def ex_io_def write_line_def append_file_def Let_def receipt_of_def
      flip: ex_rec1_def)
    (simp add: ex_L0_def ex_L1_def fresh_ledger_def ex_cfg_def LedgerConfig_default_def)

text \<open>The second append seals the first segment, rolls, and writes to the second.\<close>

definition ex_K :: AuditLedger where
  "ex_K = ex_L0\<lparr>al_inner := \<lparr>in_segment_id = 2, in_next_seq = 2, in_prev_hash = 7, in_records_in_segment = 0,
       in_records_since_ckpt = 0, in_file = segment_filename 2\<rparr>,
     al_disk := \<lparr>dk_segments = [(segment_filename 1, [65, 10]), (segment_filename 2, [])],
       dk_checkpoints = [(checkpoint_filename 1, [67])]\<rparr>\<rparr>"

lemma ex_roll: "seal_and_roll ex_env ex_L1 ex_io = (Ok (), ex_K)"
proof -
  have "write_checkpoint_locked ex_env ex_L1 ex_now FileOk True =
      (Ok (), ex_L1\<lparr>al_disk := (al_disk ex_L1)\<lparr>dk_checkpoints := [(checkpoint_filename 1, [67])]\<rparr>\<rparr>)"
    by (simp add: write_checkpoint_locked_def Let_def ex_L1_def ex_L0_def fresh_ledger_def ex_cfg_def
        LedgerConfig_default_def flip: ex_cp_def)
  then show ?thesis
    by (simp add: seal_and_roll_def seal_locked_def ex_io_def roll_locked_def Let_def touch_def)
      (simp add: ex_L1_def ex_K_def ex_L0_def)
qed

lemma ex_rec2_K: "stamp ex_ext ex_K ex_now ''id'' ex_r = ex_rec2"
  by (simp add: ex_rec2_def stamp_def Let_def ex_K_def ex_L1_def)

lemma ex_append2: "ledger_append ex_env ex_L1 ex_io ex_r = (Ok (receipt_of ex_rec2), ex_L2)"
proof -
  have "append_stamped ex_env ex_K ex_io ex_r = (Ok (receipt_of ex_rec2), ex_L2)"
    by (simp add: append_stamped_def ex_io_def write_line_def append_file_def Let_def receipt_of_def ex_rec2_K)
      (simp add: ex_K_def ex_L0_def ex_L2_def fresh_ledger_def ex_cfg_def LedgerConfig_default_def)
  moreover have "lc_segment_max_records (al_cfg ex_L1) \<le> in_records_in_segment (al_inner ex_L1)"
    by (simp add: ex_L1_def ex_L0_def fresh_ledger_def ex_cfg_def)
  ultimately show ?thesis
    by (simp add: ledger_append_def ex_roll)
qed

lemma ex_reach1: "ledger_reach ex_env ex_L0 1 ex_L1"
  unfolding One_nat_def
  by (rule reach_step [OF reach_start step_append [OF _ ex_append1]])
    (simp add: clean_io_def clean_write_def clean_file_def ex_io_def)

lemma ex_reach2: "ledger_reach ex_env ex_L0 2 ex_L2"
  unfolding numeral_2_eq_2
  by (rule reach_step [OF ex_reach1 [unfolded One_nat_def] step_append [OF _ ex_append2]])
    (simp add: clean_io_def clean_write_def clean_file_def ex_io_def)

lemma ex_items: "ledger_items ex_env (al_disk ex_L2) = [PI_Record 1 ex_rec1, PI_Record 2 ex_rec2]"
proof -
  have "dk_segments (al_disk ex_L2) = seg_entries ex_env 1 [[ex_rec1], [ex_rec2]]"
    by (simp add: ex_L2_def seg_text_def)
  moreover have "writable ex_env (concat [[ex_rec1], [ex_rec2]])" by (simp add: writable_def)
  ultimately show ?thesis
    using parse_segments_history [OF ex_serde, of "[[ex_rec1], [ex_rec2]]"] by (simp add: ledger_items_def)
qed

lemma ex_records: "ledger_records ex_env (al_disk ex_L2) = [ex_rec1, ex_rec2]"
  by (simp add: ledger_records_def ex_items)

lemma ex_checkpoint: "has_checkpoint ex_env (al_disk ex_L2) ex_cp"
  by (simp add: has_checkpoint_def list_checkpoint_paths_def ex_L2_def)

lemma ex_verifies: "verifies ex_env (al_disk ex_L2) ex_trust"
proof -
  have "Suc 2 < (2 :: nat) ^ 64" "0 < lc_segment_max_records ex_cfg" by (simp_all add: ex_cfg_def)
  from fresh_reach_inv [OF ex_reach2 [unfolded ex_L0_def] this(1) ex_signer_ok ex_serde this(2)]
  obtain gs where gs: "ledger_inv ex_env ex_L2 gs" "al_signer ex_L2 = ex_signer" "room gs" by blast
  have "trust_get ex_trust (sg_key_id (al_signer ex_L2)) = Some (sg_public_key (al_signer ex_L2))"
    unfolding gs(2) by (simp add: trust_get_def ex_trust_def ex_signer_def)
  from inv_verifies [OF gs(1,3) ex_serde this] show ?thesis by (auto simp: verifies_def)
qed

lemma ex_no_collision: "inj_on (blake3 ex_env) (canonical_body ex_env ` {ex_rec1, ex_rec2})"
  using ex_bodies by (auto simp: inj_on_def ex_blake3)

end
