(* ===== verification/Garmr_Strings.thy ===== *)
theory Garmr_Strings
  imports Garmr_Prelude "HOL-Library.List_Lexorder" "HOL-Library.Char_ord" "HOL-Library.Product_Lexorder"
    "HOL-Library.Multiset"
begin

text \<open>
  The parts of Rust's \<open>str\<close>, \<open>Iterator\<close> and \<open>Ord\<close> the configuration components use, on strings as UTF-8
  bytes. \<open>String\<close>'s order is the lexicographic order of the bytes, which is the order the list and character
  instances of the library give.
\<close>

section \<open>Strings\<close>

text \<open>The UTF-8 encodings of the characters with the Unicode property \<open>White_Space\<close>.\<close>

definition white_space :: "string list" where
  "white_space =
     map (\<lambda>n. [char_of (n :: nat)]) [9, 10, 11, 12, 13, 32] @
     map (map char_of)
       ([[0xC2, 0x85], [0xC2, 0xA0], [0xE1, 0x9A, 0x80]] @
        map (\<lambda>n. [0xE2, 0x80, n]) [0x80..<0x8B] @
        [[0xE2, 0x80, 0xA8], [0xE2, 0x80, 0xA9], [0xE2, 0x80, 0xAF], [0xE2, 0x81, 0x9F], [0xE3, 0x80, 0x80 :: nat]])"

text \<open>The length of the white-space character a string starts with, 0 if none.\<close>

definition ws_prefix :: "string list \<Rightarrow> string \<Rightarrow> nat" where
  "ws_prefix ws s = (case find (\<lambda>w. take (length w) s = w) ws of None \<Rightarrow> 0 | Some w \<Rightarrow> length w)"

function strip_ws :: "string list \<Rightarrow> string \<Rightarrow> string" where
  "strip_ws ws s = (if ws_prefix ws s = 0 \<or> s = [] then s else strip_ws ws (drop (ws_prefix ws s) s))"
  by pat_completeness auto
termination
  by (relation "measure (length \<circ> snd)") auto

declare strip_ws.simps [simp del]

definition trim :: "string \<Rightarrow> string" where
  "trim s = rev (strip_ws (map rev white_space) (rev (strip_ws white_space s)))"

definition to_lower_char :: "char \<Rightarrow> char" where
  "to_lower_char c = (let n = of_char c in if 65 \<le> n \<and> n \<le> (90 :: nat) then char_of (n + 32) else c)"

definition to_ascii_lowercase :: "string \<Rightarrow> string" where
  "to_ascii_lowercase s = map to_lower_char s"

definition eq_ignore_ascii_case :: "string \<Rightarrow> string \<Rightarrow> bool" where
  "eq_ignore_ascii_case s t \<longleftrightarrow> to_ascii_lowercase s = to_ascii_lowercase t"

definition starts_with :: "string \<Rightarrow> string \<Rightarrow> bool" where
  "starts_with s p \<longleftrightarrow> take (length p) s = p"

definition ends_with :: "string \<Rightarrow> string \<Rightarrow> bool" where
  "ends_with s p \<longleftrightarrow> length p \<le> length s \<and> drop (length s - length p) s = p"

lemma to_lower_char_idem [simp]: "to_lower_char (to_lower_char c) = to_lower_char c"
proof -
  have "of_char (char_of (of_char c + 32 :: nat) :: char) = (of_char c + 32 :: nat)"
    if "(of_char c :: nat) \<le> 90"
    using that by (simp add: of_char_of)
  then show ?thesis by (auto simp: to_lower_char_def Let_def)
qed

lemma to_ascii_lowercase_idem [simp]: "to_ascii_lowercase (to_ascii_lowercase s) = to_ascii_lowercase s"
  by (simp add: to_ascii_lowercase_def)

text \<open>\<open>trim\<close> leaves a string alone that starts and ends with a printing ASCII character.\<close>

definition graphic :: "char \<Rightarrow> bool" where
  "graphic c \<longleftrightarrow> 33 \<le> (of_char c :: nat) \<and> (of_char c :: nat) \<le> 126"

lemma strip_ws_graphic:
  assumes "list_all (\<lambda>w. w \<noteq> [] \<and> \<not> graphic (hd w)) ws" "s = [] \<or> graphic (hd s)"
  shows "strip_ws ws s = s"
proof (cases s)
  case Nil
  then show ?thesis by (simp add: strip_ws.simps)
next
  case (Cons c cs)
  have "take (length w) s \<noteq> w" if "w \<in> set ws" for w
  proof -
    have "w \<noteq> []" "\<not> graphic (hd w)" using that assms(1) by (auto simp: list_all_iff)
    then show ?thesis using assms(2) Cons by (cases w) auto
  qed
  then have "find (\<lambda>w. take (length w) s = w) ws = None" by (simp add: find_None_iff)
  then show ?thesis by (simp add: strip_ws.simps ws_prefix_def)
qed

lemma white_space_graphic:
  "list_all (\<lambda>w. w \<noteq> [] \<and> \<not> graphic (hd w)) white_space"
  "list_all (\<lambda>w. w \<noteq> [] \<and> \<not> graphic (hd w)) (map rev white_space)"
  by code_simp+

lemma trim_graphic:
  assumes "s = [] \<or> graphic (hd s) \<and> graphic (last s)"
  shows "trim s = s"
proof -
  have "strip_ws white_space s = s" by (rule strip_ws_graphic [OF white_space_graphic(1)]) (use assms in blast)
  moreover have "strip_ws (map rev white_space) (rev s) = rev s"
    by (rule strip_ws_graphic [OF white_space_graphic(2)]) (use assms in \<open>auto simp: hd_rev\<close>)
  ultimately show ?thesis by (simp add: trim_def)
qed

section \<open>Iterators\<close>

text \<open>\<open>Iterator::max_by\<close> with a key: the last of the maximal elements.\<close>

definition max_by_key :: "('a \<Rightarrow> 'k::linorder) \<Rightarrow> 'a list \<Rightarrow> 'a option" where
  "max_by_key k xs =
     (case xs of [] \<Rightarrow> None | x # xs' \<Rightarrow> Some (foldl (\<lambda>b y. if k b \<le> k y then y else b) x xs'))"

lemma max_by_key_Nil [simp]: "max_by_key k [] = None"
  by (simp add: max_by_key_def)

lemma foldl_max_by:
  defines "f k \<equiv> \<lambda>b y. if k b \<le> k y then y else b"
  shows "foldl (f k) x xs \<in> set (x # xs) \<and> (\<forall>y \<in> set (x # xs). k y \<le> (k (foldl (f k) x xs) :: 'k::linorder))"
proof (induction xs arbitrary: x)
  case (Cons y ys)
  from Cons.IH [of "f k x y"] show ?case
    unfolding f_def by (auto split: if_splits intro: order_trans)
qed simp

lemma max_by_key_Some:
  assumes "max_by_key k xs = Some x"
  shows "x \<in> set xs" "y \<in> set xs \<Longrightarrow> k y \<le> k x"
  using assms foldl_max_by [of k "hd xs" "tl xs"] by (cases xs; auto simp: max_by_key_def)+

lemma max_by_key_None [simp]: "max_by_key k xs = None \<longleftrightarrow> xs = []"
  by (cases xs) (simp_all add: max_by_key_def)

lemma max_by_key_strict:
  assumes "x \<in> set xs" "\<And>y. y \<in> set xs \<Longrightarrow> y = x \<or> k y < k x"
  shows "max_by_key k xs = Some x"
proof (cases "max_by_key k xs")
  case (Some y)
  from max_by_key_Some(1) [OF Some] max_by_key_Some(2) [OF Some assms(1)] assms(2) [of y] show ?thesis
    using Some by auto
qed (use assms(1) in auto)

lemma max_by_key_snoc:
  "max_by_key k (xs @ [y]) =
     (case max_by_key k xs of None \<Rightarrow> Some y | Some b \<Rightarrow> Some (if k b \<le> k y then y else b))"
  by (cases xs) (simp_all add: max_by_key_def)

text \<open>When the key tells the elements apart the result does not depend on their order.\<close>

lemma max_by_key_unique:
  assumes "inj_on k (set xs)" "x \<in> set xs" "\<And>y. y \<in> set xs \<Longrightarrow> k y \<le> k x"
  shows "max_by_key k xs = Some x"
proof -
  obtain z where z: "max_by_key k xs = Some z" using assms(2) by (cases "max_by_key k xs") auto
  then have "k z = k x" using max_by_key_Some [OF z] assms by (meson antisym)
  with assms z max_by_key_Some(1) [OF z] show ?thesis by (auto dest: inj_onD)
qed

lemma max_by_key_perm:
  assumes "inj_on k (set xs)" "set xs = set ys"
  shows "max_by_key k xs = max_by_key k ys"
proof (cases "max_by_key k xs")
  case None
  with assms(2) show ?thesis by simp
next
  case (Some x)
  have "max_by_key k ys = Some x"
    by (rule max_by_key_unique) (use assms max_by_key_Some [OF Some] in auto)
  with Some show ?thesis by simp
qed

lemma max_by_key_map: "max_by_key k (map f xs) = map_option f (max_by_key (k \<circ> f) xs)"
  by (induction xs rule: rev_induct) (simp_all add: max_by_key_snoc option.case_eq_if option.map_sel)

lemma filter_enumerate: "map snd (filter (\<lambda>(i, e). P e) (List.enumerate n xs)) = filter P xs"
  by (induction xs arbitrary: n) simp_all

text \<open>A scan that goes over every element and keeps the last match.\<close>

lemma foldl_last_match:
  "foldl (\<lambda>found u. if P u then Some (g u) else found) init xs =
     (case find P (rev xs) of None \<Rightarrow> init | Some u \<Rightarrow> Some (g u))"
  by (induction xs rule: rev_induct) simp_all

lemma sort_key_perm:
  assumes "inj_on f (set xs)" "mset xs = mset ys"
  shows "sort_key f xs = sort_key f ys"
  by (rule sort_key_inj_key_eq) (use assms in \<open>simp_all add: inj_on_def\<close>)

end
