(* ===== verification/Std_Net.thy ===== *)
theory Std_Net
  imports Garmr_Strings
begin

text \<open>
  The part of Rust's \<open>std::net\<close> the egress policy uses: parsing of textual IP addresses (strict dotted
  quads without leading zeros; IPv6 groups with at most one \<open>::\<close> and an optional embedded dotted quad) and
  the address classes.
\<close>

section \<open>Numbers\<close>

definition to_digit :: "nat \<Rightarrow> char \<Rightarrow> nat option" where
  "to_digit radix c =
     (let n = of_char c;
          d = (if 48 \<le> n \<and> n \<le> 57 then n - 48
               else if 97 \<le> n \<and> n \<le> 122 then n - 87
               else if 65 \<le> n \<and> n \<le> 90 then n - 55 else radix)
      in if d < radix then Some d else None)"

fun read_digits :: "nat \<Rightarrow> nat \<Rightarrow> nat \<Rightarrow> nat \<Rightarrow> nat \<Rightarrow> string \<Rightarrow> (nat \<times> nat \<times> string) option" where
  "read_digits radix limit max_digits acc n [] = Some (acc, n, [])"
| "read_digits radix limit max_digits acc n (c # s) =
     (case to_digit radix c of
        None \<Rightarrow> Some (acc, n, c # s)
      | Some d \<Rightarrow>
          (let v = acc * radix + d
           in if limit \<le> v \<or> max_digits < Suc n then None
              else read_digits radix limit max_digits v (Suc n) s))"

definition read_number :: "nat \<Rightarrow> nat \<Rightarrow> nat \<Rightarrow> bool \<Rightarrow> string \<Rightarrow> (nat \<times> string) option" where
  "read_number radix limit max_digits zero_prefix s =
     (case read_digits radix limit max_digits 0 0 s of
        None \<Rightarrow> None
      | Some (v, n, rest) \<Rightarrow>
          if n = 0 \<or> (\<not> zero_prefix \<and> hd s = CHR ''0'' \<and> 1 < n) then None else Some (v, rest))"

definition read_char :: "char \<Rightarrow> string \<Rightarrow> string option" where
  "read_char c s = (case s of x # s' \<Rightarrow> if x = c then Some s' else None | [] \<Rightarrow> None)"

definition read_separator :: "char \<Rightarrow> nat \<Rightarrow> (string \<Rightarrow> ('a \<times> string) option) \<Rightarrow> string \<Rightarrow> ('a \<times> string) option" where
  "read_separator c i p s = (if i = 0 then p s else Option.bind (read_char c s) p)"

section \<open>Addresses\<close>

datatype IpAddr = V4 u8 u8 u8 u8 | V6 "u16 list"

definition read_octet :: "nat \<Rightarrow> string \<Rightarrow> (nat \<times> string) option" where
  "read_octet i = read_separator CHR ''.'' i (read_number 10 256 3 False)"

definition read_ipv4 :: "string \<Rightarrow> ((nat \<times> nat \<times> nat \<times> nat) \<times> string) option" where
  "read_ipv4 s =
     (case read_octet 0 s of None \<Rightarrow> None | Some (a, s) \<Rightarrow>
     (case read_octet 1 s of None \<Rightarrow> None | Some (b, s) \<Rightarrow>
     (case read_octet 2 s of None \<Rightarrow> None | Some (c, s) \<Rightarrow>
     (case read_octet 3 s of None \<Rightarrow> None | Some (d, s) \<Rightarrow> Some ((a, b, c, d), s)))))"

text \<open>Up to \<open>k\<close> more groups; a dotted quad may fill the last two.\<close>

fun read_groups :: "nat \<Rightarrow> nat \<Rightarrow> string \<Rightarrow> nat list \<times> bool \<times> string" where
  "read_groups 0 i s = ([], False, s)"
| "read_groups (Suc k) i s =
     (case (if 1 \<le> k then read_separator CHR '':'' i read_ipv4 s else None) of
        Some ((a, b, c, d), s') \<Rightarrow> ([a * 256 + b, c * 256 + d], True, s')
      | None \<Rightarrow>
          (case read_separator CHR '':'' i (read_number 16 65536 4 True) s of
             None \<Rightarrow> ([], False, s)
           | Some (g, s') \<Rightarrow> (let (gs, quad, s'') = read_groups k (Suc i) s' in (g # gs, quad, s''))))"

definition read_ipv6 :: "string \<Rightarrow> (nat list \<times> string) option" where
  "read_ipv6 s =
     (let (front, quad, s1) = read_groups 8 0 s
      in if length front = 8 then Some (front, s1)
         else if quad then None
         else (case Option.bind (read_char CHR '':'' s1) (read_char CHR '':'') of
                 None \<Rightarrow> None
               | Some s2 \<Rightarrow>
                   (let (back, _, s3) = read_groups (7 - length front) 0 s2
                    in Some (front @ replicate (8 - length front - length back) 0 @ back, s3))))"

definition parse_ip :: "string \<Rightarrow> IpAddr option" where
  "parse_ip s =
     (case read_ipv4 s of
        Some ((a, b, c, d), rest) \<Rightarrow> if rest = [] then Some (V4 (of_nat a) (of_nat b) (of_nat c) (of_nat d)) else None
      | None \<Rightarrow>
          (case read_ipv6 s of
             Some (gs, rest) \<Rightarrow> if rest = [] then Some (V6 (map of_nat gs)) else None
           | None \<Rightarrow> None))"

definition v4_is_loopback :: "u8 \<Rightarrow> bool" where
  "v4_is_loopback a \<longleftrightarrow> a = 127"

definition v4_is_private :: "u8 \<Rightarrow> u8 \<Rightarrow> bool" where
  "v4_is_private a b \<longleftrightarrow> a = 10 \<or> a = 172 \<and> 16 \<le> b \<and> b \<le> 31 \<or> a = 192 \<and> b = 168"

definition v4_is_link_local :: "u8 \<Rightarrow> u8 \<Rightarrow> bool" where
  "v4_is_link_local a b \<longleftrightarrow> a = 169 \<and> b = 254"

definition to_ipv4_mapped :: "u16 list \<Rightarrow> (u8 \<times> u8) option" where
  "to_ipv4_mapped gs =
     (if take 6 gs = [0, 0, 0, 0, 0, 0xFFFF]
      then Some (ucast (drop_bit 8 (gs ! 6)), ucast (gs ! 6)) else None)"

definition v6_is_loopback :: "u16 list \<Rightarrow> bool" where
  "v6_is_loopback gs \<longleftrightarrow> gs = [0, 0, 0, 0, 0, 0, 0, 1]"

section \<open>Dotted quads round-trip\<close>

definition dec_digit :: "nat \<Rightarrow> char" where
  "dec_digit n = char_of (48 + n)"

definition dec :: "nat \<Rightarrow> string" where
  "dec n = (if n < 10 then [dec_digit n]
            else if n < 100 then [dec_digit (n div 10), dec_digit (n mod 10)]
            else [dec_digit (n div 100), dec_digit (n div 10 mod 10), dec_digit (n mod 10)])"

definition dotted :: "u8 \<Rightarrow> u8 \<Rightarrow> u8 \<Rightarrow> u8 \<Rightarrow> string" where
  "dotted a b c d =
     dec (unat a) @ ''.'' @ dec (unat b) @ ''.'' @ dec (unat c) @ ''.'' @ dec (unat d)"

lemma of_char_dec_digit [simp]: "n < 10 \<Longrightarrow> of_char (dec_digit n) = (48 + n :: nat)"
  by (simp add: dec_digit_def of_char_of)

lemma to_digit_dec [simp]: "n < 10 \<Longrightarrow> to_digit 10 (dec_digit n) = Some n"
  by (simp add: to_digit_def)

lemma dec_digit_zero: "n < 10 \<Longrightarrow> dec_digit n = CHR ''0'' \<longleftrightarrow> n = 0"
  by (subst of_char_eq_iff [where 'a = nat, symmetric]) simp

lemma read_number_digits:
  assumes "rest = [] \<or> to_digit 10 (hd rest) = None" "x < 10" "y < 10" "z < 10"
  shows "read_number 10 256 3 False (dec_digit z # rest) = Some (z, rest)"
    "y \<noteq> 0 \<Longrightarrow> read_number 10 256 3 False (dec_digit y # dec_digit z # rest) = Some (y * 10 + z, rest)"
    "x \<noteq> 0 \<Longrightarrow> (x * 10 + y) * 10 + z < 256 \<Longrightarrow>
       read_number 10 256 3 False (dec_digit x # dec_digit y # dec_digit z # rest) = Some ((x * 10 + y) * 10 + z, rest)"
proof -
  have stop: "read_digits 10 256 3 v k rest = Some (v, k, rest)" for v k
    using assms(1) by (cases rest) simp_all
  show "read_number 10 256 3 False (dec_digit z # rest) = Some (z, rest)"
    "y \<noteq> 0 \<Longrightarrow> read_number 10 256 3 False (dec_digit y # dec_digit z # rest) = Some (y * 10 + z, rest)"
    "x \<noteq> 0 \<Longrightarrow> (x * 10 + y) * 10 + z < 256 \<Longrightarrow>
       read_number 10 256 3 False (dec_digit x # dec_digit y # dec_digit z # rest) = Some ((x * 10 + y) * 10 + z, rest)"
    using assms(2-4) by (simp_all add: read_number_def Let_def stop dec_digit_zero)
qed

lemma read_number_dec:
  assumes "n < 256" "rest = [] \<or> to_digit 10 (hd rest) = None"
  shows "read_number 10 256 3 False (dec n @ rest) = Some (n, rest)"
proof -
  have n: "n div 10 * 10 + n mod 10 = n" "(n div 100 * 10 + n div 10 mod 10) * 10 + n mod 10 = n"
    using div_mult2_eq [of n 10 10] by simp_all
  consider "n < 10" | "10 \<le> n" "n < 100" | "100 \<le> n" by linarith
  then show ?thesis
  proof cases
    case 1
    then show ?thesis using read_number_digits(1) [OF assms(2), of 0 0 n] by (simp add: dec_def)
  next
    case 2
    then have "n div 10 < 10" "n div 10 \<noteq> 0" by (simp_all add: div_less_iff_less_mult div_eq_0_iff)
    moreover have "dec n = [dec_digit (n div 10), dec_digit (n mod 10)]" using 2 by (simp add: dec_def)
    ultimately show ?thesis
      using n(1) read_number_digits(2) [OF assms(2), of 0 "n div 10" "n mod 10"] by simp
  next
    case 3
    then have "n div 100 < 10" "n div 100 \<noteq> 0" using assms(1) by (simp_all add: div_less_iff_less_mult div_eq_0_iff)
    with 3 n(2) assms(1) show ?thesis
      using read_number_digits(3) [OF assms(2), of "n div 100" "n div 10 mod 10" "n mod 10"] by (simp add: dec_def)
  qed
qed

lemma dec_hd_graphic: "n < 256 \<Longrightarrow> dec n \<noteq> [] \<and> graphic (hd (dec n)) \<and> graphic (last (dec n))"
  by (auto simp: dec_def graphic_def)

lemma unat_u8: "unat (a :: u8) < 256"
  using unsigned_less [of a] by simp

lemma parse_ip_dotted: "parse_ip (dotted a b c d) = Some (V4 a b c d)"
proof -
  have octet: "read_number 10 256 3 False (dec (unat w) @ CHR ''.'' # s) = Some (unat w, CHR ''.'' # s)" for w :: u8 and s
    by (rule read_number_dec) (simp_all add: unat_u8 to_digit_def)
  have last: "read_number 10 256 3 False (dec (unat w)) = Some (unat w, [])" for w :: u8
    using read_number_dec [of "unat w" "[]"] by (simp add: unat_u8)
  have "read_ipv4 (dotted a b c d) = Some ((unat a, unat b, unat c, unat d), [])"
    by (simp add: read_ipv4_def read_octet_def read_separator_def read_char_def dotted_def octet last)
  then show ?thesis by (simp add: parse_ip_def)
qed

lemma trim_dotted: "trim (dotted a b c d) = dotted a b c d"
proof (rule trim_graphic)
  show "dotted a b c d = [] \<or> graphic (hd (dotted a b c d)) \<and> graphic (last (dotted a b c d))"
    using dec_hd_graphic [OF unat_u8 [of a]] dec_hd_graphic [OF unat_u8 [of d]] by (simp add: dotted_def)
qed

end
