(* ===== verification/Garmr_Text.thy ===== *)
theory Garmr_Text
  imports Garmr_Strings Std_Net
begin

text \<open>
  Splitting, joining and decimal numbers, as the event projections use them, with the round trips the
  projections rest on.
\<close>

section \<open>Splitting and joining\<close>

text \<open>\<open>str::split\<close> on a set of ASCII characters: always at least one piece.\<close>

fun split_on :: "(char \<Rightarrow> bool) \<Rightarrow> string \<Rightarrow> string list" where
  "split_on P [] = [[]]"
| "split_on P (c # s) =
     (if P c then [] # split_on P s
      else (case split_on P s of [] \<Rightarrow> [[c]] | p # ps \<Rightarrow> (c # p) # ps))"

fun join_with :: "char \<Rightarrow> string list \<Rightarrow> string" where
  "join_with c [] = []"
| "join_with c [s] = s"
| "join_with c (s # t # rest) = s @ c # join_with c (t # rest)"

definition split_once :: "char \<Rightarrow> string \<Rightarrow> (string \<times> string) option" where
  "split_once c s = (if c \<in> set s then Some (takeWhile (\<lambda>x. x \<noteq> c) s, tl (dropWhile (\<lambda>x. x \<noteq> c) s)) else None)"

lemma split_on_not_Nil [simp]: "split_on P s \<noteq> []"
  by (cases s) (auto split: list.split)

lemma split_on_free: "list_all (\<lambda>c. \<not> P c) s \<Longrightarrow> split_on P s = [s]"
  by (induction s) auto

lemma split_on_append:
  "list_all (\<lambda>c. \<not> P c) s \<Longrightarrow> P c \<Longrightarrow> split_on P (s @ c # rest) = s # split_on P rest"
  by (induction s) auto

lemma split_join:
  assumes "ss \<noteq> []" "list_all (list_all (\<lambda>c. \<not> P c)) ss" "P c"
  shows "split_on P (join_with c ss) = ss"
  using assms
proof (induction c ss rule: join_with.induct)
  case (3 c s t rest)
  then show ?case by (simp add: split_on_append)
qed (simp_all add: split_on_free)

lemma split_on_pieces: "p \<in> set (split_on P s) \<Longrightarrow> list_all (\<lambda>c. \<not> P c) p"
proof (induction s arbitrary: p)
  case (Cons c s)
  then show ?case by (cases "split_on P s") (auto split: if_splits)
qed simp

section \<open>Trimming twice\<close>

lemma ws_prefix_zero: "ws_prefix ws s = 0 \<longleftrightarrow> (case find (\<lambda>w. take (length w) s = w) ws of None \<Rightarrow> True | Some w \<Rightarrow> w = [])"
  by (simp add: ws_prefix_def split: option.split)

lemma no_ws_prefix:
  assumes "list_all (\<lambda>w. w \<noteq> []) ws"
  shows "ws_prefix ws s = 0 \<longleftrightarrow> (\<forall>w \<in> set ws. take (length w) s \<noteq> w)"
proof (cases "find (\<lambda>w. take (length w) s = w) ws")
  case None
  then have "\<forall>w \<in> set ws. take (length w) s \<noteq> w" by (auto simp: find_None_iff)
  moreover have "ws_prefix ws s = 0" by (simp add: ws_prefix_def None)
  ultimately show ?thesis by blast
next
  case (Some w)
  then have "w \<in> set ws" "take (length w) s = w" by (auto simp: find_Some_iff)
  with Some assms show ?thesis by (auto simp: ws_prefix_def list_all_iff)
qed

lemma strip_ws_result: "ws_prefix ws (strip_ws ws s) = 0 \<or> strip_ws ws s = []"
proof (induction ws s rule: strip_ws.induct)
  case (1 ws s)
  then show ?case by (subst (1 2) strip_ws.simps) auto
qed

lemma ws_prefix_chars: "set (take (ws_prefix ws s) s) \<subseteq> \<Union> (set ` set ws)"
  by (auto simp: ws_prefix_def find_Some_iff split: option.splits)
    (metis nth_mem)

text \<open>Stripping removes a prefix made of white space only.\<close>

lemma strip_ws_suffix: "\<exists>p. s = p @ strip_ws ws s \<and> set p \<subseteq> \<Union> (set ` set ws)"
proof (induction ws s rule: strip_ws.induct)
  case (1 ws s)
  show ?case
  proof (cases "ws_prefix ws s = 0 \<or> s = []")
    case True
    then show ?thesis by (subst strip_ws.simps) auto
  next
    case False
    with 1 obtain p where p: "drop (ws_prefix ws s) s = p @ strip_ws ws (drop (ws_prefix ws s) s)"
      "set p \<subseteq> \<Union> (set ` set ws)" by blast
    then have "s = take (ws_prefix ws s) s @ p @ strip_ws ws (drop (ws_prefix ws s) s)"
      by (metis append_take_drop_id)
    moreover have "strip_ws ws s = strip_ws ws (drop (ws_prefix ws s) s)"
      using False by (subst strip_ws.simps) simp
    ultimately show ?thesis using p(2) ws_prefix_chars [of ws s]
      by (intro exI [of _ "take (ws_prefix ws s) s @ p"]) simp
  qed
qed

lemma strip_ws_stop: "ws_prefix ws s = 0 \<or> s = [] \<Longrightarrow> strip_ws ws s = s"
  by (simp add: strip_ws.simps)

lemma trim_idem [simp]: "trim (trim s) = trim s"
proof -
  let ?a = "strip_ws white_space s" and ?r = "map rev white_space"
  let ?b = "strip_ws ?r (rev ?a)"
  have ne: "list_all (\<lambda>w. w \<noteq> []) white_space"
    using white_space_graphic(1) by (auto simp: list_all_iff)
  obtain q where q: "rev ?a = q @ ?b" using strip_ws_suffix by blast
  then have pre: "?a = rev ?b @ rev q" by (metis rev_append rev_rev_ident)
  have "ws_prefix white_space (rev ?b) = 0 \<or> rev ?b = []"
  proof (cases "?a = []")
    case True
    with q show ?thesis by simp
  next
    case False
    then have "ws_prefix white_space ?a = 0" using strip_ws_result by blast
    then have a: "\<forall>w \<in> set white_space. take (length w) ?a \<noteq> w" by (simp only: no_ws_prefix [OF ne])
    have "take (length w) (rev ?b) \<noteq> w" if "w \<in> set white_space" for w
    proof
      assume w: "take (length w) (rev ?b) = w"
      then have "length w \<le> length (rev ?b)" by (metis length_take min.cobounded1)
      then have "take (length w) ?a = w" using w by (subst pre) simp
      with a that show False by blast
    qed
    then have "ws_prefix white_space (rev ?b) = 0" by (simp add: no_ws_prefix [OF ne])
    then show ?thesis by (rule disjI1)
  qed
  then have "strip_ws white_space (rev ?b) = rev ?b" by (rule strip_ws_stop)
  moreover have "strip_ws ?r ?b = ?b" by (rule strip_ws_stop [OF strip_ws_result])
  ultimately show ?thesis by (simp add: trim_def)
qed

lemma trim_suffix_chars: "\<exists>p q. s = p @ trim s @ q \<and> set p \<union> set q \<subseteq> \<Union> (set ` set white_space)"
proof -
  obtain p where p: "s = p @ strip_ws white_space s" "set p \<subseteq> \<Union> (set ` set white_space)"
    using strip_ws_suffix by blast
  obtain q where q: "rev (strip_ws white_space s) = q @ rev (trim s)"
    "set q \<subseteq> \<Union> (set ` set (map rev white_space))"
    using strip_ws_suffix [of "rev (strip_ws white_space s)" "map rev white_space"] by (auto simp: trim_def)
  from q(1) have "strip_ws white_space s = trim s @ rev q" by (metis rev_append rev_rev_ident)
  with p q(2) show ?thesis by (intro exI [of _ p] exI [of _ "rev q"]) auto
qed

lemma trim_Nil_iff_chars: "trim s = [] \<Longrightarrow> set s \<subseteq> \<Union> (set ` set white_space)"
proof -
  assume "trim s = []"
  moreover obtain p q where "s = p @ trim s @ q" "set p \<union> set q \<subseteq> \<Union> (set ` set white_space)"
    using trim_suffix_chars by blast
  ultimately show ?thesis by (metis append_Nil set_append)
qed

lemma trim_subset: "set (trim s) \<subseteq> set s"
  using trim_suffix_chars [of s] by (metis Un_upper1 Un_upper2 order.trans set_append)

lemma trim_Nil [simp]: "trim [] = []"
  by (rule trim_graphic) simp

section \<open>Decimal numbers\<close>

fun show_nat :: "nat \<Rightarrow> string" where
  "show_nat n = (if n < 10 then [dec_digit n] else show_nat (n div 10) @ [dec_digit (n mod 10)])"

declare show_nat.simps [simp del]

fun dec_value :: "nat \<Rightarrow> string \<Rightarrow> nat option" where
  "dec_value acc [] = Some acc"
| "dec_value acc (c # s) = (case to_digit 10 c of None \<Rightarrow> None | Some d \<Rightarrow> dec_value (acc * 10 + d) s)"

text \<open>\<open>u64::from_str\<close>: an optional plus sign, at least one digit, no overflow.\<close>

definition parse_u64 :: "string \<Rightarrow> u64 option" where
  "parse_u64 s =
     (let ds = (case s of c # rest \<Rightarrow> if c = CHR ''+'' then rest else s | [] \<Rightarrow> [])
      in if ds = [] then None
         else (case dec_value 0 ds of
                 None \<Rightarrow> None
               | Some n \<Rightarrow> if n < 2 ^ 64 then Some (of_nat n) else None))"

definition show_u64 :: "u64 \<Rightarrow> string" where
  "show_u64 w = show_nat (unat w)"

lemma dec_value_append: "dec_value acc (s @ t) = Option.bind (dec_value acc s) (\<lambda>v. dec_value v t)"
  by (induction s arbitrary: acc) (simp_all split: option.split)

lemma dec_value_show: "dec_value 0 (show_nat n) = Some n"
proof (induction n rule: show_nat.induct)
  case (1 n)
  show ?case
  proof (cases "n < 10")
    case True
    then show ?thesis by (simp add: show_nat.simps)
  next
    case False
    with 1 have "dec_value 0 (show_nat (n div 10)) = Some (n div 10)" by blast
    with False show ?thesis
      by (subst show_nat.simps) (simp add: dec_value_append)
  qed
qed

lemma show_nat_graphic: "show_nat n \<noteq> [] \<and> graphic (hd (show_nat n)) \<and> graphic (last (show_nat n)) \<and> hd (show_nat n) \<noteq> CHR ''+''"
proof (induction n rule: show_nat.induct)
  case (1 n)
  have d: "graphic (dec_digit k) \<and> dec_digit k \<noteq> CHR ''+''" if "k < 10" for k
  proof -
    have "of_char (dec_digit k) \<noteq> (of_char CHR ''+'' :: nat)" using that by simp
    then have "dec_digit k \<noteq> CHR ''+''" by metis
    then show ?thesis using that by (simp add: graphic_def)
  qed
  show ?case
  proof (cases "n < 10")
    case True
    then show ?thesis using d by (simp add: show_nat.simps)
  next
    case False
    with 1 d [of "n mod 10"] show ?thesis by (subst (1 2 3 4) show_nat.simps) simp
  qed
qed

lemma parse_show_u64 [simp]: "parse_u64 (trim (show_u64 w)) = Some w"
proof -
  have "trim (show_u64 w) = show_u64 w"
    by (rule trim_graphic) (use show_nat_graphic [of "unat w"] in \<open>simp add: show_u64_def\<close>)
  moreover have "unat w < 2 ^ 64" using unsigned_less [of w, where ?'a = nat] by simp
  moreover obtain c cs where "show_nat (unat w) = c # cs" "c \<noteq> CHR ''+''"
    using show_nat_graphic [of "unat w"] by (cases "show_nat (unat w)") auto
  ultimately show ?thesis
    using dec_value_show [of "unat w"] by (simp add: parse_u64_def show_u64_def Let_def)
qed

end
