(* ===== verification/App_Audit.thy ===== *)
theory App_Audit
  imports Garmr_Text
begin

text \<open>
  The canonical application-audit record of \<open>garmr-core/src/app_audit.rs\<close>: a typed lens over the field map
  of an event. \<open>from_event\<close> reads the record out of the fields, \<open>to_fields\<close> writes it back under the storage
  keys, and \<open>AccessProjection\<close> (\<open>domain.rs\<close>) is the narrower view of the same fields. The field map, a
  \<open>BTreeMap<String, String>\<close>, is a partial function. The type \<open>'f\<close> stands for \<open>f64\<close>; its parser and printer are
  arguments where the code uses them. The type \<open>'t\<close> of an event stands for its timestamp.
\<close>

type_synonym fields = "string \<Rightarrow> string option"

section \<open>Events\<close>

record 't Event =
  ev_ts :: 't
  ev_host :: string
  ev_service :: string
  ev_source :: string
  ev_environment :: string
  ev_severity :: string
  ev_log_type :: string
  ev_message :: string
  ev_fields :: fields

definition ev_field :: "'t Event \<Rightarrow> string \<Rightarrow> string option" where
  "ev_field ev k = ev_fields ev k"

section \<open>The storage keys\<close>

text \<open>The constants of the module \<open>keys\<close>, in its order; below they are written out as literals.\<close>

definition audit_keys :: "string list" where
  "audit_keys =
     [''db_user'', ''target_person'', ''object_table'', ''action'', ''statement'', ''ticket_ref'',
      ''client_addr'', ''watched'', ''is_self'', ''actor_name'', ''actor_type'', ''actor_role'',
      ''actor_groups'', ''service_account'', ''authenticated_identity'', ''effective_identity'',
      ''delegated_identity'', ''impersonated_identity'', ''application_id'', ''application_name'',
      ''application_instance'', ''site'', ''security_zone'', ''tenant'', ''database'', ''database_schema'',
      ''client_host'', ''client_ip'', ''client_application'', ''session_id'', ''transaction_id'',
      ''request_id'', ''trace_id'', ''operation'', ''outcome'', ''error_code'', ''object_name'',
      ''resource_path'', ''record_id'', ''subject_type'', ''statement_fingerprint'', ''query_type'',
      ''rows_read'', ''rows_written'', ''bytes_read'', ''bytes_written'', ''duration_ms'',
      ''bulk_operation'', ''export_operation'', ''privilege_operation'', ''administrative_operation'',
      ''case_ref'', ''project_ref'', ''purpose'', ''justification'', ''approval_ref'',
      ''maintenance_window'', ''change_ref'', ''data_classification'', ''sensitive_resource'',
      ''peer_access'', ''privileged_access'', ''policy_scope'', ''source_trust'', ''parser_version'',
      ''schema_version'']"

definition ACTOR_ALIASES :: "string list" where
  "ACTOR_ALIASES = [''db_user'', ''actor_id'', ''session_user'', ''actor'', ''principal'', ''acting_user'',
     ''performed_by'', ''accessed_by'', ''operator'', ''account'', ''user_id'', ''user'']"

definition SUBJECT_ALIASES :: "string list" where
  "SUBJECT_ALIASES = [''target_person'', ''subject_id'', ''target'', ''subject'', ''target_id'',
     ''object_id'', ''entity_id'']"

definition OBJECT_TYPE_ALIASES :: "string list" where
  "OBJECT_TYPE_ALIASES = [''object_table'', ''object_type'', ''resource_type'', ''entity_type'',
     ''resource'', ''collection'', ''dataset'', ''endpoint'', ''relation'', ''table_name'']"

section \<open>Enumerations\<close>

definition norm_match :: "string \<Rightarrow> (char \<Rightarrow> char) \<Rightarrow> string list \<Rightarrow> bool" where
  "norm_match input f candidates \<longleftrightarrow>
     list_ex (\<lambda>c. length c = length input \<and> list_all (\<lambda>(a, b). f a = b) (zip input c)) candidates"

definition to_upper_char :: "char \<Rightarrow> char" where
  "to_upper_char c = (let n = of_char c in if 97 \<le> n \<and> n \<le> (122 :: nat) then char_of (n - 32) else c)"

definition snake_char :: "char \<Rightarrow> char" where
  "snake_char a = (let a = to_lower_char a in if a = CHR ''-'' \<or> a = CHR '' '' then CHR ''_'' else a)"

definition sql_char :: "char \<Rightarrow> char" where
  "sql_char a = (let a = to_upper_char a in if a = CHR ''-'' \<or> a = CHR ''_'' then CHR '' '' else a)"

datatype AppActorType = Act_Human | Act_ServiceAccount | Act_System | Act_Unknown

definition ActorType_parse :: "string \<Rightarrow> AppActorType" where
  "ActorType_parse s =
     (let t = trim s in
      if norm_match t snake_char [''human'', ''person'', ''interactive'', ''user''] then Act_Human
      else if norm_match t snake_char [''service_account'', ''service'', ''svc'', ''machine'', ''robot'', ''bot'']
      then Act_ServiceAccount
      else if norm_match t snake_char [''system'', ''internal'', ''daemon''] then Act_System
      else Act_Unknown)"

fun ActorType_as_str :: "AppActorType \<Rightarrow> string" where
  "ActorType_as_str Act_Human = ''human''"
| "ActorType_as_str Act_ServiceAccount = ''service_account''"
| "ActorType_as_str Act_System = ''system''"
| "ActorType_as_str Act_Unknown = ''unknown''"

datatype AppOutcome = Out_Success | Out_Failure | Out_Denied | Out_Error | Out_Unknown

definition Outcome_parse :: "string \<Rightarrow> AppOutcome" where
  "Outcome_parse s =
     (let t = trim s in
      if norm_match t to_lower_char [''success'', ''ok'', ''allowed'', ''allow'', ''granted'', ''0'', ''00000'']
      then Out_Success
      else if norm_match t to_lower_char [''failure'', ''fail'', ''failed''] then Out_Failure
      else if norm_match t to_lower_char [''denied'', ''deny'', ''permission_denied'', ''forbidden'', ''42501'']
      then Out_Denied
      else if norm_match t to_lower_char [''error'', ''err''] then Out_Error
      else Out_Unknown)"

fun Outcome_as_str :: "AppOutcome \<Rightarrow> string" where
  "Outcome_as_str Out_Success = ''success''"
| "Outcome_as_str Out_Failure = ''failure''"
| "Outcome_as_str Out_Denied = ''denied''"
| "Outcome_as_str Out_Error = ''error''"
| "Outcome_as_str Out_Unknown = ''unknown''"

definition is_negative :: "AppOutcome \<Rightarrow> bool" where
  "is_negative x \<longleftrightarrow> x = Out_Denied \<or> x = Out_Failure \<or> x = Out_Error"

datatype QueryType =
  Q_Select | Q_Insert | Q_Update | Q_Delete | Q_Copy | Q_Create | Q_Alter | Q_Drop |
  Q_Truncate | Q_Grant | Q_Revoke | Q_SetRole | Q_Call | Q_Other

definition QueryType_parse :: "string \<Rightarrow> QueryType" where
  "QueryType_parse s =
     (let t = trim s in
      if norm_match t sql_char [''SELECT'', ''READ'', ''VIEW''] then Q_Select
      else if norm_match t sql_char [''INSERT'', ''WRITE''] then Q_Insert
      else if norm_match t sql_char [''UPDATE''] then Q_Update
      else if norm_match t sql_char [''DELETE''] then Q_Delete
      else if norm_match t sql_char [''COPY'', ''EXPORT'', ''UNLOAD''] then Q_Copy
      else if norm_match t sql_char [''CREATE''] then Q_Create
      else if norm_match t sql_char [''ALTER''] then Q_Alter
      else if norm_match t sql_char [''DROP''] then Q_Drop
      else if norm_match t sql_char [''TRUNCATE''] then Q_Truncate
      else if norm_match t sql_char [''GRANT''] then Q_Grant
      else if norm_match t sql_char [''REVOKE''] then Q_Revoke
      else if norm_match t sql_char [''SET ROLE'', ''SETROLE''] then Q_SetRole
      else if norm_match t sql_char [''CALL'', ''EXECUTE'', ''DO''] then Q_Call
      else Q_Other)"

fun QueryType_as_str :: "QueryType \<Rightarrow> string" where
  "QueryType_as_str Q_Select = ''select''"
| "QueryType_as_str Q_Insert = ''insert''"
| "QueryType_as_str Q_Update = ''update''"
| "QueryType_as_str Q_Delete = ''delete''"
| "QueryType_as_str Q_Copy = ''copy''"
| "QueryType_as_str Q_Create = ''create''"
| "QueryType_as_str Q_Alter = ''alter''"
| "QueryType_as_str Q_Drop = ''drop''"
| "QueryType_as_str Q_Truncate = ''truncate''"
| "QueryType_as_str Q_Grant = ''grant''"
| "QueryType_as_str Q_Revoke = ''revoke''"
| "QueryType_as_str Q_SetRole = ''set_role''"
| "QueryType_as_str Q_Call = ''call''"
| "QueryType_as_str Q_Other = ''other''"

definition is_privilege :: "QueryType \<Rightarrow> bool" where
  "is_privilege q \<longleftrightarrow> q = Q_Grant \<or> q = Q_Revoke \<or> q = Q_SetRole"

definition is_ddl :: "QueryType \<Rightarrow> bool" where
  "is_ddl q \<longleftrightarrow> q = Q_Create \<or> q = Q_Alter \<or> q = Q_Drop \<or> q = Q_Truncate"

section \<open>The record\<close>

record AuditActor =
  ac_actor_id :: string
  ac_actor_name :: "string option"
  ac_actor_type :: AppActorType
  ac_actor_role :: "string option"
  ac_actor_groups :: "string list"
  ac_service_account :: bool
  ac_authenticated_identity :: "string option"
  ac_effective_identity :: "string option"
  ac_delegated_identity :: "string option"
  ac_impersonated_identity :: "string option"

record AuditContext =
  cx_application_id :: "string option"
  cx_application_name :: "string option"
  cx_application_instance :: "string option"
  cx_environment :: "string option"
  cx_site :: "string option"
  cx_security_zone :: "string option"
  cx_tenant :: "string option"
  cx_database :: "string option"
  cx_database_schema :: "string option"
  cx_host :: "string option"
  cx_client_host :: "string option"
  cx_client_ip :: "string option"
  cx_client_application :: "string option"
  cx_session_id :: "string option"
  cx_transaction_id :: "string option"
  cx_request_id :: "string option"
  cx_trace_id :: "string option"

record 'f AuditAction =
  at_action :: "string option"
  at_operation :: "string option"
  at_outcome :: AppOutcome
  at_error_code :: "string option"
  at_object_type :: "string option"
  at_object_name :: "string option"
  at_resource_path :: "string option"
  at_record_id :: "string option"
  at_subject_id :: "string option"
  at_subject_type :: "string option"
  at_statement :: "string option"
  at_statement_fingerprint :: "string option"
  at_query_type :: "QueryType option"
  at_rows_read :: "u64 option"
  at_rows_written :: "u64 option"
  at_bytes_read :: "u64 option"
  at_bytes_written :: "u64 option"
  at_duration_ms :: "'f option"
  at_bulk_operation :: bool
  at_export_operation :: bool
  at_privilege_operation :: bool
  at_administrative_operation :: bool

record AuditJustification =
  ju_ticket_ref :: "string option"
  ju_case_ref :: "string option"
  ju_project_ref :: "string option"
  ju_purpose :: "string option"
  ju_justification :: "string option"
  ju_approval_ref :: "string option"
  ju_maintenance_window :: "string option"
  ju_change_ref :: "string option"

record AuditClassification =
  cl_data_classification :: "string option"
  cl_sensitive_resource :: bool
  cl_watched_subject :: bool
  cl_self_access :: bool
  cl_peer_access :: bool
  cl_privileged_access :: bool
  cl_policy_scope :: "string option"
  cl_source_trust :: "string option"
  cl_parser_version :: "string option"
  cl_schema_version :: "string option"

record 'f AppAuditRecord =
  r_actor :: AuditActor
  r_context :: AuditContext
  r_action :: "'f AuditAction"
  r_justification :: AuditJustification
  r_classification :: AuditClassification

definition is_present :: "AuditJustification \<Rightarrow> bool" where
  "is_present j \<longleftrightarrow>
     list_ex (\<lambda>x. case x of None \<Rightarrow> False | Some s \<Rightarrow> trim s \<noteq> [])
       [ju_ticket_ref j, ju_case_ref j, ju_project_ref j, ju_purpose j, ju_justification j, ju_approval_ref j,
        ju_change_ref j]"

definition missing_justification :: "'f AppAuditRecord \<Rightarrow> bool" where
  "missing_justification r \<longleftrightarrow> \<not> is_present (r_justification r)"

definition record_actor_id :: "'f AppAuditRecord \<Rightarrow> string" where
  "record_actor_id r = ac_actor_id (r_actor r)"

section \<open>Reading a record\<close>

definition first :: "fields \<Rightarrow> string list \<Rightarrow> string option" where
  "first f candidates = find (\<lambda>v. trim v \<noteq> []) (List.map_filter f candidates)"

definition flag :: "fields \<Rightarrow> string list \<Rightarrow> bool" where
  "flag f candidates \<longleftrightarrow>
     (case first f candidates of
        None \<Rightarrow> False
      | Some v \<Rightarrow> v = ''true'' \<or> v = ''1'' \<or> v = ''yes'' \<or> v = ''t'')"

definition num :: "(string \<Rightarrow> 'n option) \<Rightarrow> fields \<Rightarrow> string list \<Rightarrow> 'n option" where
  "num parse f candidates = Option.bind (first f candidates) (\<lambda>v. parse (trim v))"

definition group_sep :: "char \<Rightarrow> bool" where
  "group_sep c \<longleftrightarrow> c = CHR '','' \<or> c = CHR '';'' \<or> c = CHR '' ''"

definition split_groups :: "string \<Rightarrow> string list" where
  "split_groups raw = filter (\<lambda>s. s \<noteq> []) (map trim (split_on group_sep raw))"

definition is_audit_event :: "'t Event \<Rightarrow> bool" where
  "is_audit_event ev \<longleftrightarrow>
     eq_ignore_ascii_case (ev_log_type ev) ''audit'' \<or>
     first (ev_fields ev) ACTOR_ALIASES \<noteq> None \<and>
     (first (ev_fields ev) SUBJECT_ALIASES \<noteq> None \<or> first (ev_fields ev) OBJECT_TYPE_ALIASES \<noteq> None \<or>
      ev_fields ev ''statement'' \<noteq> None)"

definition read_actor :: "fields \<Rightarrow> AuditActor" where
  "read_actor f =
     (let typ = map_option ActorType_parse (first f [''actor_type'']);
          service = flag f [''service_account''] \<or> typ = Some Act_ServiceAccount
      in \<lparr>ac_actor_id = (case first f ACTOR_ALIASES of None \<Rightarrow> [] | Some v \<Rightarrow> v),
          ac_actor_name = first f [''actor_name''],
          ac_actor_type = (case typ of Some t \<Rightarrow> t | None \<Rightarrow> if service then Act_ServiceAccount else Act_Unknown),
          ac_actor_role = first f [''actor_role'', ''role''],
          ac_actor_groups =
            (case first f [''actor_groups'', ''groups''] of None \<Rightarrow> [] | Some v \<Rightarrow> split_groups v),
          ac_service_account = service,
          ac_authenticated_identity = first f [''authenticated_identity'', ''session_user''],
          ac_effective_identity = first f [''effective_identity'', ''current_user''],
          ac_delegated_identity = first f [''delegated_identity''],
          ac_impersonated_identity = first f [''impersonated_identity'']\<rparr>)"

text \<open>\<open>or_else(|| Some(label).filter(|s| !s.is_empty()))\<close>.\<close>

definition or_label :: "string option \<Rightarrow> string \<Rightarrow> string option" where
  "or_label v label = (case v of Some s \<Rightarrow> Some s | None \<Rightarrow> if label = [] then None else Some label)"

definition read_context :: "fields \<Rightarrow> string \<Rightarrow> string \<Rightarrow> AuditContext" where
  "read_context f env_label host_label =
     \<lparr>cx_application_id = first f [''application_id''],
      cx_application_name = first f [''application_name'', ''application_name'', ''appname''],
      cx_application_instance = first f [''application_instance''],
      cx_environment = or_label (first f [''environment'', ''env'']) env_label,
      cx_site = first f [''site''],
      cx_security_zone = first f [''security_zone''],
      cx_tenant = first f [''tenant''],
      cx_database = first f [''database'', ''datname'', ''dbname''],
      cx_database_schema = first f [''database_schema'', ''schema''],
      cx_host = or_label (first f [''host'']) host_label,
      cx_client_host = first f [''client_host'', ''client_addr'', ''remote_host''],
      cx_client_ip = first f [''client_ip'', ''src_ip'', ''remote_addr''],
      cx_client_application = first f [''client_application''],
      cx_session_id = first f [''session_id''],
      cx_transaction_id = first f [''transaction_id'', ''txid'', ''xid''],
      cx_request_id = first f [''request_id''],
      cx_trace_id = first f [''trace_id'']\<rparr>"

definition read_action :: "(string \<Rightarrow> 'f option) \<Rightarrow> fields \<Rightarrow> 'f AuditAction" where
  "read_action parse_f64 f =
     (let query =
            (case first f [''query_type''] of
               Some v \<Rightarrow> Some (QueryType_parse v)
             | None \<Rightarrow> map_option QueryType_parse (first f [''action'']))
      in \<lparr>at_action = first f [''action''],
          at_operation = first f [''operation''],
          at_outcome =
            (case first f [''outcome'', ''result'', ''status''] of None \<Rightarrow> Out_Unknown | Some v \<Rightarrow> Outcome_parse v),
          at_error_code = first f [''error_code'', ''sqlstate''],
          at_object_type = first f OBJECT_TYPE_ALIASES,
          at_object_name = first f [''object_name'', ''relation''],
          at_resource_path = first f [''resource_path'', ''path''],
          at_record_id = first f [''record_id''],
          at_subject_id = first f SUBJECT_ALIASES,
          at_subject_type = first f [''subject_type''],
          at_statement = first f [''statement''],
          at_statement_fingerprint = first f [''statement_fingerprint''],
          at_query_type = query,
          at_rows_read = num parse_u64 f [''rows_read'', ''rows''],
          at_rows_written = num parse_u64 f [''rows_written''],
          at_bytes_read = num parse_u64 f [''bytes_read''],
          at_bytes_written = num parse_u64 f [''bytes_written''],
          at_duration_ms = num parse_f64 f [''duration_ms'', ''duration''],
          at_bulk_operation = flag f [''bulk_operation''],
          at_export_operation = flag f [''export_operation''],
          at_privilege_operation =
            flag f [''privilege_operation''] \<or> (case query of None \<Rightarrow> False | Some q \<Rightarrow> is_privilege q),
          at_administrative_operation = flag f [''administrative_operation'']\<rparr>)"

definition read_justification :: "fields \<Rightarrow> AuditJustification" where
  "read_justification f =
     \<lparr>ju_ticket_ref = first f [''ticket_ref''],
      ju_case_ref = first f [''case_ref''],
      ju_project_ref = first f [''project_ref''],
      ju_purpose = first f [''purpose''],
      ju_justification = first f [''justification''],
      ju_approval_ref = first f [''approval_ref''],
      ju_maintenance_window = first f [''maintenance_window''],
      ju_change_ref = first f [''change_ref'']\<rparr>"

text \<open>\<open>privilege\<close>: the \<open>privilege_operation\<close> of the action group.\<close>

definition read_classification :: "fields \<Rightarrow> bool \<Rightarrow> AuditClassification" where
  "read_classification f privilege =
     \<lparr>cl_data_classification = first f [''data_classification''],
      cl_sensitive_resource = (flag f [''sensitive_resource'']),
      cl_watched_subject = (flag f [''watched'']),
      cl_self_access = (flag f [''is_self'']),
      cl_peer_access = (flag f [''peer_access'']),
      cl_privileged_access = (flag f [''privileged_access''] \<or> privilege),
      cl_policy_scope = first f [''policy_scope''],
      cl_source_trust = first f [''source_trust''],
      cl_parser_version = first f [''parser_version''],
      cl_schema_version = first f [''schema_version'']\<rparr>"

definition from_event :: "(string \<Rightarrow> 'f option) \<Rightarrow> 't Event \<Rightarrow> 'f AppAuditRecord" where
  "from_event parse_f64 ev =
     (let f = ev_fields ev;
          act = read_action parse_f64 f
      in \<lparr>r_actor = read_actor f,
          r_context = read_context f (ev_environment ev) (ev_host ev),
          r_action = act,
          r_justification = read_justification f,
          r_classification = read_classification f (at_privilege_operation act)\<rparr>)"

definition from_event_opt :: "(string \<Rightarrow> 'f option) \<Rightarrow> 't Event \<Rightarrow> 'f AppAuditRecord option" where
  "from_event_opt parse_f64 ev = (if is_audit_event ev then Some (from_event parse_f64 ev) else None)"

section \<open>Writing a record\<close>

text \<open>
  \<open>to_fields\<close> is a sequence of guarded inserts: a key with the value to insert, if any. The four closures of the
  code decide whether there is one.
\<close>

type_synonym put = "string \<times> string option"

definition put_str_opt :: "string option \<Rightarrow> string option" where
  "put_str_opt v = (case v of None \<Rightarrow> None | Some s \<Rightarrow> if s = [] then None else Some s)"

definition put_flag :: "bool \<Rightarrow> string option" where
  "put_flag b = (if b then Some ''true'' else None)"

definition put_num :: "u64 option \<Rightarrow> string option" where
  "put_num v = map_option show_u64 v"

definition put_all :: "fields \<Rightarrow> put list \<Rightarrow> fields" where
  "put_all m ps = foldl (\<lambda>m (k, v). case v of None \<Rightarrow> m | Some s \<Rightarrow> m(k \<mapsto> s)) m ps"

definition actor_puts :: "AuditActor \<Rightarrow> put list" where
  "actor_puts r =
     [(''db_user'', put_str_opt (Some (ac_actor_id r))),
      (''actor_name'', put_str_opt (ac_actor_name r)),
      (''actor_type'', if ac_actor_type r \<noteq> Act_Unknown then Some (ActorType_as_str (ac_actor_type r)) else None),
      (''actor_role'', put_str_opt (ac_actor_role r)),
      (''actor_groups'', if ac_actor_groups r \<noteq> [] then Some (join_with CHR '','' (ac_actor_groups r)) else None),
      (''service_account'', put_flag (ac_service_account r)),
      (''authenticated_identity'', put_str_opt (ac_authenticated_identity r)),
      (''effective_identity'', put_str_opt (ac_effective_identity r)),
      (''delegated_identity'', put_str_opt (ac_delegated_identity r)),
      (''impersonated_identity'', put_str_opt (ac_impersonated_identity r))]"

definition context_puts :: "AuditContext \<Rightarrow> put list" where
  "context_puts r =
     [(''application_id'', put_str_opt (cx_application_id r)),
      (''application_name'', put_str_opt (cx_application_name r)),
      (''application_instance'', put_str_opt (cx_application_instance r)),
      (''site'', put_str_opt (cx_site r)),
      (''security_zone'', put_str_opt (cx_security_zone r)),
      (''tenant'', put_str_opt (cx_tenant r)),
      (''database'', put_str_opt (cx_database r)),
      (''database_schema'', put_str_opt (cx_database_schema r)),
      (''client_host'', put_str_opt (cx_client_host r)),
      (''client_ip'', put_str_opt (cx_client_ip r)),
      (''client_application'', put_str_opt (cx_client_application r)),
      (''session_id'', put_str_opt (cx_session_id r)),
      (''transaction_id'', put_str_opt (cx_transaction_id r)),
      (''request_id'', put_str_opt (cx_request_id r)),
      (''trace_id'', put_str_opt (cx_trace_id r))]"

definition action_puts :: "('f \<Rightarrow> string) \<Rightarrow> 'f AuditAction \<Rightarrow> put list" where
  "action_puts show_f64 r =
     [(''action'', put_str_opt (at_action r)),
      (''operation'', put_str_opt (at_operation r)),
      (''outcome'', if at_outcome r \<noteq> Out_Unknown then Some (Outcome_as_str (at_outcome r)) else None),
      (''error_code'', put_str_opt (at_error_code r)),
      (''object_table'', put_str_opt (at_object_type r)),
      (''object_name'', put_str_opt (at_object_name r)),
      (''resource_path'', put_str_opt (at_resource_path r)),
      (''record_id'', put_str_opt (at_record_id r)),
      (''target_person'', put_str_opt (at_subject_id r)),
      (''subject_type'', put_str_opt (at_subject_type r)),
      (''statement'', put_str_opt (at_statement r)),
      (''statement_fingerprint'', put_str_opt (at_statement_fingerprint r)),
      (''query_type'', map_option QueryType_as_str (at_query_type r)),
      (''rows_read'', put_num (at_rows_read r)),
      (''rows_written'', put_num (at_rows_written r)),
      (''bytes_read'', put_num (at_bytes_read r)),
      (''bytes_written'', put_num (at_bytes_written r)),
      (''duration_ms'', map_option show_f64 (at_duration_ms r)),
      (''bulk_operation'', put_flag (at_bulk_operation r)),
      (''export_operation'', put_flag (at_export_operation r)),
      (''privilege_operation'', put_flag (at_privilege_operation r)),
      (''administrative_operation'', put_flag (at_administrative_operation r))]"

definition justification_puts :: "AuditJustification \<Rightarrow> put list" where
  "justification_puts r =
     [(''ticket_ref'', put_str_opt (ju_ticket_ref r)),
      (''case_ref'', put_str_opt (ju_case_ref r)),
      (''project_ref'', put_str_opt (ju_project_ref r)),
      (''purpose'', put_str_opt (ju_purpose r)),
      (''justification'', put_str_opt (ju_justification r)),
      (''approval_ref'', put_str_opt (ju_approval_ref r)),
      (''maintenance_window'', put_str_opt (ju_maintenance_window r)),
      (''change_ref'', put_str_opt (ju_change_ref r))]"

definition classification_puts :: "AuditClassification \<Rightarrow> put list" where
  "classification_puts r =
     [(''data_classification'', put_str_opt (cl_data_classification r)),
      (''sensitive_resource'', put_flag (cl_sensitive_resource r)),
      (''watched'', put_flag (cl_watched_subject r)),
      (''is_self'', put_flag (cl_self_access r)),
      (''peer_access'', put_flag (cl_peer_access r)),
      (''privileged_access'', put_flag (cl_privileged_access r)),
      (''policy_scope'', put_str_opt (cl_policy_scope r)),
      (''source_trust'', put_str_opt (cl_source_trust r)),
      (''parser_version'', put_str_opt (cl_parser_version r)),
      (''schema_version'', put_str_opt (cl_schema_version r))]"

definition record_puts :: "('f \<Rightarrow> string) \<Rightarrow> 'f AppAuditRecord \<Rightarrow> put list" where
  "record_puts show_f64 r =
     actor_puts (r_actor r) @ context_puts (r_context r) @ action_puts show_f64 (r_action r) @
     justification_puts (r_justification r) @ classification_puts (r_classification r)"

definition to_fields :: "('f \<Rightarrow> string) \<Rightarrow> 'f AppAuditRecord \<Rightarrow> fields" where
  "to_fields show_f64 r = put_all Map.empty (record_puts show_f64 r)"

section \<open>The access projection\<close>

text \<open>The one-field structs of \<open>domain.rs\<close> are their field.\<close>

record AccessProjection =
  ap_actor :: string
  ap_subject :: "string option"
  ap_resource :: "string option"
  ap_operation :: "string option"
  ap_justification :: "string option"
  ap_session :: "string option"
  ap_watched :: bool
  ap_is_self :: bool

definition nonempty :: "string option \<Rightarrow> string option" where
  "nonempty v = (case v of None \<Rightarrow> None | Some s \<Rightarrow> if s = [] then None else Some s)"

definition plain_flag :: "string option \<Rightarrow> bool" where
  "plain_flag v \<longleftrightarrow>
     (case v of None \<Rightarrow> False | Some v \<Rightarrow> v = ''true'' \<or> v = ''1'' \<or> v = ''yes'' \<or> v = ''t'')"

definition project :: "'t Event \<Rightarrow> AccessProjection option" where
  "project ev =
     (case nonempty (ev_field ev ''db_user'') of
        None \<Rightarrow> None
      | Some a \<Rightarrow>
          Some \<lparr>ap_actor = a,
                ap_subject = nonempty (ev_field ev ''target_person''),
                ap_resource = nonempty (ev_field ev ''object_table''),
                ap_operation =
                  nonempty (case ev_field ev ''action'' of
                              None \<Rightarrow> ev_field ev ''statement'' | Some v \<Rightarrow> Some v),
                ap_justification = nonempty (ev_field ev ''ticket_ref''),
                ap_session = nonempty (ev_field ev ''client_addr''),
                ap_watched = plain_flag (ev_field ev ''watched''),
                ap_is_self = plain_flag (ev_field ev ''is_self'')\<rparr>)"

end
