(* ===== verification/App_Roundtrip.thy ===== *)
theory App_Roundtrip
  imports App_Audit
begin

text \<open>
  Reading what was written: the enumerations parse their own spellings, the storage keys are distinct, every
  record that \<open>from_event\<close> produces is well formed, and a well-formed record survives \<open>to_fields\<close> followed by
  \<open>from_event\<close>. The labels of the event carry the two fields \<open>to_fields\<close> does not write.
\<close>

section \<open>Enumerations\<close>

lemma trim_literals [simp]:
  "trim (ActorType_as_str a) = ActorType_as_str a"
  "trim (Outcome_as_str x) = Outcome_as_str x"
  "trim (QueryType_as_str q) = QueryType_as_str q"
    apply (cases a; rule trim_graphic; simp add: graphic_def)
   apply (cases x; rule trim_graphic; simp add: graphic_def)
  apply (cases q; rule trim_graphic; simp add: graphic_def)
  done

lemma as_str_not_Nil [simp]: "ActorType_as_str a \<noteq> []" "Outcome_as_str x \<noteq> []" "QueryType_as_str q \<noteq> []"
    apply (cases a; simp)
   apply (cases x; simp)
  apply (cases q; simp)
  done

lemma ActorType_parse_str [simp]: "ActorType_parse (ActorType_as_str a) = a"
  by (cases a; simp only: ActorType_parse_def trim_literals Let_def; code_simp)

lemma Outcome_parse_str [simp]: "Outcome_parse (Outcome_as_str x) = x"
  by (cases x; simp only: Outcome_parse_def trim_literals Let_def; code_simp)

lemma QueryType_parse_str [simp]: "QueryType_parse (QueryType_as_str q) = q"
  by (cases q; simp only: QueryType_parse_def trim_literals Let_def; code_simp)

section \<open>Looking up what was written\<close>

lemma put_all_other: "k \<notin> fst ` set ps \<Longrightarrow> put_all m ps k = m k"
  by (induction ps arbitrary: m) (auto simp: put_all_def split: option.split)

lemma put_all_lookup:
  assumes "distinct (map fst ps)" "(k, v) \<in> set ps" "m k = None"
  shows "put_all m ps k = v"
  using assms
proof (induction ps arbitrary: m)
  case (Cons p ps)
  have step: "put_all m (p # ps) = put_all (case snd p of None \<Rightarrow> m | Some s \<Rightarrow> m(fst p \<mapsto> s)) ps"
    by (simp add: put_all_def case_prod_beta)
  show ?case
  proof (cases "p = (k, v)")
    case True
    with Cons.prems have "k \<notin> fst ` set ps" by simp
    with Cons.prems(3) show ?thesis unfolding step by (simp add: put_all_other True split: option.split)
  next
    case False
    with Cons.prems have "(k, v) \<in> set ps" "fst p \<noteq> k" by (auto simp: image_iff)
    with Cons.prems show ?thesis
      unfolding step by (intro Cons.IH) (auto split: option.split)
  qed
qed simp

text \<open>The keys \<open>to_fields\<close> writes, the same for every record.\<close>

definition put_keys :: "string list" where
  "put_keys =
     [''db_user'', ''actor_name'', ''actor_type'', ''actor_role'', ''actor_groups'', ''service_account'',
      ''authenticated_identity'', ''effective_identity'', ''delegated_identity'',
      ''impersonated_identity'', ''application_id'', ''application_name'', ''application_instance'',
      ''site'', ''security_zone'', ''tenant'', ''database'', ''database_schema'', ''client_host'',
      ''client_ip'', ''client_application'', ''session_id'', ''transaction_id'', ''request_id'',
      ''trace_id'', ''action'', ''operation'', ''outcome'', ''error_code'', ''object_table'',
      ''object_name'', ''resource_path'', ''record_id'', ''target_person'', ''subject_type'',
      ''statement'', ''statement_fingerprint'', ''query_type'', ''rows_read'', ''rows_written'',
      ''bytes_read'', ''bytes_written'', ''duration_ms'', ''bulk_operation'', ''export_operation'',
      ''privilege_operation'', ''administrative_operation'', ''ticket_ref'', ''case_ref'', ''project_ref'',
      ''purpose'', ''justification'', ''approval_ref'', ''maintenance_window'', ''change_ref'',
      ''data_classification'', ''sensitive_resource'', ''watched'', ''is_self'', ''peer_access'',
      ''privileged_access'', ''policy_scope'', ''source_trust'', ''parser_version'', ''schema_version'']"

lemmas puts_defs = actor_puts_def context_puts_def action_puts_def justification_puts_def classification_puts_def

lemma map_fst_puts: "map fst (record_puts show_f64 r) = put_keys"
  by (simp add: put_keys_def record_puts_def puts_defs)

lemma put_keys_storage:
  "distinct put_keys" "distinct audit_keys" "mset (''client_addr'' # put_keys) = mset audit_keys"
    apply code_simp
   apply code_simp
  apply (simp add: put_keys_def audit_keys_def)
  done

lemma to_fields_puts: "list_all (\<lambda>(k, v). to_fields show_f64 r k = v) (record_puts show_f64 r)"
  using put_keys_storage(1) by (auto simp: list_all_iff to_fields_def map_fst_puts intro: put_all_lookup)

lemma to_fields_absent: "k \<notin> set put_keys \<Longrightarrow> to_fields show_f64 r k = None"
  using map_fst_puts [of show_f64 r] by (simp add: to_fields_def put_all_other flip: list.set_map)

text \<open>Spellings \<open>from_event\<close> accepts and \<open>to_fields\<close> never writes.\<close>

definition other_spellings :: "string list" where
  "other_spellings =
     tl ACTOR_ALIASES @ tl SUBJECT_ALIASES @ tl OBJECT_TYPE_ALIASES @
     [''role'', ''groups'', ''current_user'', ''appname'', ''environment'', ''env'', ''datname'', ''dbname'', ''schema'',
      ''host'', ''client_addr'', ''remote_host'', ''src_ip'', ''remote_addr'', ''txid'', ''xid'', ''result'', ''status'',
      ''sqlstate'', ''path'', ''rows'', ''duration'']"

lemma other_spellings_absent: "list_all (\<lambda>k. to_fields show_f64 r k = None) other_spellings"
proof -
  have "list_all (\<lambda>k. k \<notin> set put_keys) other_spellings" by code_simp
  then show ?thesis by (auto simp: list_all_iff to_fields_absent)
qed

lemma first_Nil [simp]: "first f [] = None"
  by (simp add: first_def List.map_filter_def)

definition pick :: "string option \<Rightarrow> string option \<Rightarrow> string option" where
  "pick v d = (case v of None \<Rightarrow> d | Some s \<Rightarrow> if trim s = [] then d else Some s)"

lemma pick_simps [simp]: "pick None d = d" "pick (Some s) d = (if trim s = [] then d else Some s)"
  by (simp_all add: pick_def)

lemma first_Cons: "first f (k # ks) = pick (f k) (first f ks)"
  by (simp add: first_def List.map_filter_def pick_def split: option.split)

lemma first_absent: "list_all (\<lambda>k. f k = None) ks \<Longrightarrow> first f ks = None"
  by (induction ks) (simp_all add: first_Cons)

lemma first_trim: "first f ks = Some v \<Longrightarrow> trim v \<noteq> []"
  by (auto simp: first_def find_Some_iff)

lemma first_empty [simp]: "first Map.empty ks = None"
  by (rule first_absent) (simp add: list_all_iff)

section \<open>Well-formed records\<close>

definition nonblank :: "string option \<Rightarrow> bool" where
  "nonblank v \<longleftrightarrow> (case v of None \<Rightarrow> True | Some s \<Rightarrow> trim s \<noteq> [])"

definition group_ok :: "string \<Rightarrow> bool" where
  "group_ok g \<longleftrightarrow> g \<noteq> [] \<and> trim g = g \<and> list_all (\<lambda>c. \<not> group_sep c) g"

definition wf_actor :: "AuditActor \<Rightarrow> bool" where
  "wf_actor x \<longleftrightarrow>
     (ac_actor_id x = [] \<or> trim (ac_actor_id x) \<noteq> []) \<and>
     list_all nonblank
       [ac_actor_name x, ac_actor_role x, ac_authenticated_identity x, ac_effective_identity x,
        ac_delegated_identity x, ac_impersonated_identity x] \<and>
     list_all group_ok (ac_actor_groups x) \<and>
     (ac_service_account x \<longrightarrow> ac_actor_type x \<noteq> Act_Unknown) \<and>
     (ac_actor_type x = Act_ServiceAccount \<longrightarrow> ac_service_account x)"

definition wf_context :: "AuditContext \<Rightarrow> bool" where
  "wf_context x \<longleftrightarrow>
     list_all nonblank
       [cx_application_id x, cx_application_name x, cx_application_instance x, cx_site x, cx_security_zone x,
        cx_tenant x, cx_database x, cx_database_schema x, cx_client_host x, cx_client_ip x, cx_client_application x,
        cx_session_id x, cx_transaction_id x, cx_request_id x, cx_trace_id x] \<and>
     cx_environment x \<noteq> Some [] \<and> cx_host x \<noteq> Some []"

definition wf_action :: "'f AuditAction \<Rightarrow> bool" where
  "wf_action x \<longleftrightarrow>
     list_all nonblank
       [at_action x, at_operation x, at_error_code x, at_object_type x, at_object_name x, at_resource_path x,
        at_record_id x, at_subject_id x, at_subject_type x, at_statement x, at_statement_fingerprint x] \<and>
     (at_action x \<noteq> None \<longrightarrow> at_query_type x \<noteq> None) \<and>
     (case at_query_type x of None \<Rightarrow> True | Some q \<Rightarrow> is_privilege q \<longrightarrow> at_privilege_operation x)"

definition wf_justification :: "AuditJustification \<Rightarrow> bool" where
  "wf_justification x \<longleftrightarrow>
     list_all nonblank
       [ju_ticket_ref x, ju_case_ref x, ju_project_ref x, ju_purpose x, ju_justification x, ju_approval_ref x,
        ju_maintenance_window x, ju_change_ref x]"

definition wf_classification :: "bool \<Rightarrow> AuditClassification \<Rightarrow> bool" where
  "wf_classification privilege x \<longleftrightarrow>
     list_all nonblank
       [cl_data_classification x, cl_policy_scope x, cl_source_trust x, cl_parser_version x, cl_schema_version x] \<and>
     (privilege \<longrightarrow> cl_privileged_access x)"

definition wf_record :: "'f AppAuditRecord \<Rightarrow> bool" where
  "wf_record r \<longleftrightarrow>
     wf_actor (r_actor r) \<and> wf_context (r_context r) \<and> wf_action (r_action r) \<and>
     wf_justification (r_justification r) \<and>
     wf_classification (at_privilege_operation (r_action r)) (r_classification r)"

lemma nonblank_first [simp]: "nonblank (first f ks)"
  by (auto simp: nonblank_def dest: first_trim split: option.split)

lemma group_ok_split: "g \<in> set (split_groups raw) \<Longrightarrow> group_ok g"
proof -
  assume "g \<in> set (split_groups raw)"
  then obtain p where p: "p \<in> set (split_on group_sep raw)" "g = trim p" "g \<noteq> []"
    by (auto simp: split_groups_def)
  have "list_all (\<lambda>c. \<not> group_sep c) p" using p(1) by (rule split_on_pieces)
  with p(2,3) trim_subset [of p] show ?thesis by (auto simp: group_ok_def list_all_iff)
qed

lemma wf_read_actor:
  "ac_actor_type (read_actor f) = Act_Unknown \<Longrightarrow> \<not> ac_service_account (read_actor f) \<Longrightarrow> wf_actor (read_actor f)"
  "ac_actor_type (read_actor f) \<noteq> Act_Unknown \<Longrightarrow> wf_actor (read_actor f)"
  by (auto simp: read_actor_def wf_actor_def Let_def list_all_iff group_ok_split dest: first_trim
      split: option.splits if_splits)

lemma wf_read_context: "wf_context (read_context f e h)"
  by (auto simp: read_context_def wf_context_def or_label_def dest: first_trim split: option.splits)

lemma wf_read_action: "wf_action (read_action parse_f64 f)"
  by (auto simp: read_action_def wf_action_def Let_def split: option.splits)

lemma wf_read_justification: "wf_justification (read_justification f)"
  by (simp add: read_justification_def wf_justification_def)

lemma wf_read_classification: "wf_classification p (read_classification f p)"
  by (simp add: read_classification_def wf_classification_def)

lemma from_event_wf:
  assumes "ac_actor_type (r_actor (from_event parse_f64 ev)) = Act_Unknown \<longrightarrow>
           \<not> ac_service_account (r_actor (from_event parse_f64 ev))"
  shows "wf_record (from_event parse_f64 ev)"
  using assms wf_read_actor [of "ev_fields ev"]
  by (auto simp: wf_record_def from_event_def Let_def wf_read_context wf_read_action wf_read_justification
      wf_read_classification)

section \<open>Reading back\<close>

lemma read_put_str [simp]:
  "nonblank v \<Longrightarrow> pick (put_str_opt v) None = v"
  by (auto simp: nonblank_def put_str_opt_def split: option.split)

lemma read_put_str_twice [simp]:
  "nonblank v \<Longrightarrow> pick (put_str_opt v) v = v"
  by (auto simp: nonblank_def put_str_opt_def split: option.split)

lemma or_label_back: "v \<noteq> Some [] \<Longrightarrow> or_label None (case v of None \<Rightarrow> [] | Some e \<Rightarrow> e) = v"
  by (cases v) (auto simp: or_label_def)

lemma trim_true [simp]: "trim ''true'' = ''true''"
  by (rule trim_graphic) (simp add: graphic_def)

lemma read_put_flag [simp]:
  "pick (put_flag b) None = put_flag b"
  "(case put_flag b of None \<Rightarrow> False | Some v \<Rightarrow> v = ''true'' \<or> v = ''1'' \<or> v = ''yes'' \<or> v = ''t'') = b"
  by (simp_all add: put_flag_def)

lemma trim_show_u64 [simp]: "trim (show_u64 w) = [] \<longleftrightarrow> False"
  using parse_show_u64 [of w] by (auto simp: parse_u64_def)

lemma read_put_num [simp]:
  "Option.bind (pick (put_num v) None) (\<lambda>x. parse_u64 (trim x)) = v"
  by (cases v) (simp_all add: put_num_def)

lemma trim_join_groups:
  assumes "gs \<noteq> []" "list_all group_ok gs"
  shows "trim (join_with CHR '','' gs) \<noteq> []"
proof (cases "tl gs")
  case Nil
  with assms show ?thesis by (cases gs) (auto simp: group_ok_def)
next
  case (Cons t rest)
  then obtain s where "gs = s # t # rest" by (cases gs) auto
  then have "CHR '','' \<in> set (join_with CHR '','' gs)" by simp
  moreover have "CHR '','' \<notin> \<Union> (set ` set white_space)" by code_simp
  ultimately show ?thesis using trim_Nil_iff_chars by blast
qed

lemma split_join_groups:
  assumes "gs \<noteq> []" "list_all group_ok gs"
  shows "split_groups (join_with CHR '','' gs) = gs"
proof -
  have "split_on group_sep (join_with CHR '','' gs) = gs"
    using assms by (intro split_join) (auto simp: group_ok_def group_sep_def list_all_iff)
  moreover have "map trim gs = gs" "filter (\<lambda>s. s \<noteq> []) gs = gs"
    using assms(2) by (auto simp: group_ok_def list_all_iff intro: map_idI filter_True)
  ultimately show ?thesis by (simp add: split_groups_def)
qed


lemmas spellings_defs = other_spellings_def ACTOR_ALIASES_def SUBJECT_ALIASES_def OBJECT_TYPE_ALIASES_def

lemma read_actor_back:
  assumes "wf_actor x" "list_all (\<lambda>(k, v). f k = v) (actor_puts x)" "list_all (\<lambda>k. f k = None) other_spellings"
  shows "read_actor f = x"
proof -
  note f = assms(2) [unfolded actor_puts_def, simplified] and n = assms(3) [unfolded spellings_defs, simplified]
  note wf = assms(1) [unfolded wf_actor_def, simplified]
  have "(case first f ACTOR_ALIASES of None \<Rightarrow> [] | Some v \<Rightarrow> v) = ac_actor_id x"
    using wf by (auto simp: ACTOR_ALIASES_def first_Cons f n put_str_opt_def)
  moreover have "first f [''actor_type''] =
      (if ac_actor_type x \<noteq> Act_Unknown then Some (ActorType_as_str (ac_actor_type x)) else None)"
    by (simp add: first_Cons f)
  moreover have "(case first f [''actor_groups'', ''groups''] of None \<Rightarrow> [] | Some v \<Rightarrow> split_groups v) = ac_actor_groups x"
    using wf by (simp add: first_Cons f n trim_join_groups split_join_groups)
  moreover have "flag f [''service_account''] = ac_service_account x"
    by (simp add: flag_def first_Cons f)
  ultimately show ?thesis
    using wf by (intro AuditActor.equality) (auto simp: read_actor_def Let_def first_Cons f n)
qed

lemma read_context_back:
  assumes "wf_context x" "list_all (\<lambda>(k, v). f k = v) (context_puts x)" "list_all (\<lambda>k. f k = None) other_spellings"
  shows "read_context f (case cx_environment x of None \<Rightarrow> [] | Some e \<Rightarrow> e) (case cx_host x of None \<Rightarrow> [] | Some h \<Rightarrow> h) = x"
proof -
  note f = assms(2) [unfolded context_puts_def, simplified] and n = assms(3) [unfolded spellings_defs, simplified]
  note wf = assms(1) [unfolded wf_context_def, simplified]
  show ?thesis
    by (intro AuditContext.equality)
      (simp_all add: read_context_def first_Cons f n wf or_label_back)
qed

lemma read_action_back:
  assumes "wf_action x" "list_all (\<lambda>(k, v). f k = v) (action_puts show_f64 x)"
    "list_all (\<lambda>k. f k = None) other_spellings" "\<And>d. parse_f64 (trim (show_f64 d)) = Some d" "\<And>d. trim (show_f64 d) \<noteq> []"
  shows "read_action parse_f64 f = x"
proof -
  note f = assms(2) [unfolded action_puts_def, simplified] and n = assms(3) [unfolded spellings_defs, simplified]
  note wf = assms(1) [unfolded wf_action_def, simplified]
  have query: "(case first f [''query_type''] of
        Some v \<Rightarrow> Some (QueryType_parse v) | None \<Rightarrow> map_option QueryType_parse (first f [''action''])) = at_query_type x"
  proof (cases "at_query_type x")
    case (Some q)
    then show ?thesis by (simp add: first_Cons f)
  next
    case None
    with wf have "at_action x = None" by auto
    with None show ?thesis by (simp add: first_Cons f put_str_opt_def)
  qed
  have outcome: "(case first f [''outcome'', ''result'', ''status''] of None \<Rightarrow> Out_Unknown | Some v \<Rightarrow> Outcome_parse v) = at_outcome x"
    by (simp add: first_Cons f n)
  have priv: "(flag f [''privilege_operation''] \<or> (case at_query_type x of None \<Rightarrow> False | Some q \<Rightarrow> is_privilege q)) =
      at_privilege_operation x"
    using wf by (auto simp: flag_def first_Cons f split: option.splits)
  have duration: "num parse_f64 f [''duration_ms'', ''duration''] = at_duration_ms x"
    by (cases "at_duration_ms x") (simp_all add: num_def first_Cons f n assms(4,5))
  show ?thesis
    unfolding read_action_def Let_def query outcome duration priv
    by (intro AuditAction.equality)
      (simp_all add: first_Cons f n wf flag_def num_def OBJECT_TYPE_ALIASES_def SUBJECT_ALIASES_def)
qed


lemma read_justification_back:
  assumes "wf_justification x" "list_all (\<lambda>(k, v). f k = v) (justification_puts x)"
  shows "read_justification f = x"
proof -
  note f = assms(2) [unfolded justification_puts_def, simplified]
  note wf = assms(1) [unfolded wf_justification_def, simplified]
  show ?thesis
    by (intro AuditJustification.equality) (simp_all add: read_justification_def first_Cons f wf)
qed

lemma read_classification_back:
  assumes "wf_classification p x" "list_all (\<lambda>(k, v). f k = v) (classification_puts x)"
  shows "read_classification f p = x"
proof -
  note f = assms(2) [unfolded classification_puts_def, simplified]
  note wf = assms(1) [unfolded wf_classification_def, simplified]
  show ?thesis
    by (intro AuditClassification.equality)
      (use wf in \<open>auto simp: read_classification_def first_Cons f wf flag_def\<close>)
qed

text \<open>An event that carries a record: its fields are the written ones, its labels the two fields not written.\<close>

definition synth :: "('f \<Rightarrow> string) \<Rightarrow> 'f AppAuditRecord \<Rightarrow> 't Event \<Rightarrow> 't Event" where
  "synth show_f64 r ev =
     ev\<lparr>ev_fields := to_fields show_f64 r,
        ev_environment := (case cx_environment (r_context r) of None \<Rightarrow> [] | Some e \<Rightarrow> e),
        ev_host := (case cx_host (r_context r) of None \<Rightarrow> [] | Some h \<Rightarrow> h)\<rparr>"

lemma from_event_synth:
  assumes wf: "wf_record r"
    and f64: "\<And>d. parse_f64 (trim (show_f64 d)) = Some d" "\<And>d. trim (show_f64 d) \<noteq> []"
  shows "from_event parse_f64 (synth show_f64 r ev) = r"
proof -
  note puts = to_fields_puts [of show_f64 r, unfolded record_puts_def list_all_append]
    and rest = other_spellings_absent [of show_f64 r]
  show ?thesis
    using wf puts rest f64
    by (intro AppAuditRecord.equality)
      (auto simp: from_event_def synth_def Let_def wf_record_def read_actor_back read_context_back
        read_action_back [of _ _ show_f64] read_justification_back read_classification_back)
qed


section \<open>The access projection of a written record\<close>

lemma nonempty_put [simp]: "nonblank v \<Longrightarrow> nonempty (put_str_opt v) = v"
  by (auto simp: nonempty_def put_str_opt_def nonblank_def split: option.split)

lemma plain_flag_put [simp]: "plain_flag (put_flag b) = b"
  by (simp add: plain_flag_def put_flag_def)

lemma put_str_nonblank [simp]: "nonblank v \<Longrightarrow> put_str_opt v = v"
  by (auto simp: put_str_opt_def nonblank_def split: option.split)

lemma nonempty_nonblank [simp]: "nonblank v \<Longrightarrow> nonempty v = v"
  by (auto simp: nonempty_def nonblank_def split: option.split)

lemma project_synth:
  assumes "wf_record r"
  shows "project (synth show_f64 r ev) =
    (if ac_actor_id (r_actor r) = [] then None
     else Some \<lparr>ap_actor = ac_actor_id (r_actor r), ap_subject = at_subject_id (r_action r),
                ap_resource = at_object_type (r_action r),
                ap_operation = (case at_action (r_action r) of None \<Rightarrow> at_statement (r_action r) | Some v \<Rightarrow> Some v),
                ap_justification = ju_ticket_ref (r_justification r), ap_session = None,
                ap_watched = cl_watched_subject (r_classification r),
                ap_is_self = cl_self_access (r_classification r)\<rparr>)"
proof -
  note puts = to_fields_puts [of show_f64 r, unfolded record_puts_def list_all_append puts_defs, simplified]
  have "to_fields show_f64 r ''client_addr'' = None"
    using other_spellings_absent [of show_f64 r] by (simp add: other_spellings_def)
  moreover note wf = assms [unfolded wf_record_def wf_action_def wf_justification_def, simplified]
  moreover have "at_action (r_action r) \<noteq> Some []" using wf by (auto simp: nonblank_def)
  ultimately show ?thesis
    by (auto simp: project_def synth_def ev_field_def puts wf nonempty_def [of None]
        nonempty_def [of "Some _"] put_str_opt_def [of "Some _"] split: option.split)
qed

end
