(* ===== verification/Access_Policy.thy ===== *)
theory Access_Policy
  imports App_Audit
begin

text \<open>
  The access-policy engine, \<open>garmr-policy/src/lib.rs\<close>: policies that match an access on its subject, its resource
  and its circumstances, the evaluation of a policy set, the structural validation of a policy and the
  simulation of one policy over past accesses.
\<close>

section \<open>Effects\<close>

datatype Effect =
  Allow | IncreaseRisk | Alert | StepUpReview | RequireJustification | RequireApproval | Deny

fun rank :: "Effect \<Rightarrow> nat" where
  "rank Allow = 0"
| "rank IncreaseRisk = 1"
| "rank Alert = 2"
| "rank StepUpReview = 3"
| "rank RequireJustification = 4"
| "rank RequireApproval = 5"
| "rank Deny = 6"

fun effect_str :: "Effect \<Rightarrow> string" where
  "effect_str Allow = ''allow''"
| "effect_str IncreaseRisk = ''increase_risk''"
| "effect_str Alert = ''alert''"
| "effect_str StepUpReview = ''step_up_review''"
| "effect_str RequireJustification = ''require_justification''"
| "effect_str RequireApproval = ''require_approval''"
| "effect_str Deny = ''deny''"

definition is_restrictive :: "Effect \<Rightarrow> bool" where
  "is_restrictive e \<longleftrightarrow> \<not> (e = Allow \<or> e = IncreaseRisk)"

section \<open>Matchers\<close>

definition sel_matches :: "string list \<Rightarrow> string option \<Rightarrow> bool" where
  "sel_matches sel v \<longleftrightarrow>
     sel = [] \<or> (case v of Some v \<Rightarrow> list_ex (\<lambda>s. eq_ignore_ascii_case s v) sel | None \<Rightarrow> False)"

definition object_pattern_matches :: "string \<Rightarrow> string \<Rightarrow> bool" where
  "object_pattern_matches pattern obj \<longleftrightarrow>
     (let p = to_ascii_lowercase pattern; ob = to_ascii_lowercase obj
      in if p = ob then True
         else if ends_with p ''.*''
         then (let prefix = take (length p - 2) p in ob = prefix \<or> starts_with ob (prefix @ ''.''))
         else CHR ''.'' \<notin> set p \<and> last (split_on (\<lambda>c. c = CHR ''.'') ob) = p)"

definition sel_matches_any :: "string list \<Rightarrow> string list \<Rightarrow> bool" where
  "sel_matches_any sel vals \<longleftrightarrow>
     sel = [] \<or> list_ex (\<lambda>v. list_ex (\<lambda>s. object_pattern_matches s v) sel) vals"

definition object_field_matches :: "string list \<Rightarrow> string option \<Rightarrow> bool" where
  "object_field_matches patterns v \<longleftrightarrow>
     (case v of Some v \<Rightarrow> list_ex (\<lambda>p. object_pattern_matches p v) patterns | None \<Rightarrow> False)"

definition opt_bool_matches :: "bool option \<Rightarrow> bool \<Rightarrow> bool" where
  "opt_bool_matches want actual \<longleftrightarrow> (case want of None \<Rightarrow> True | Some b \<Rightarrow> b = actual)"

record 'f AccessContext =
  ctx_record :: "'f AppAuditRecord"
  ctx_objects :: "string list"
  ctx_columns :: "string list"
  ctx_weekday :: "u8 option"
  ctx_hour :: "u8 option"
  ctx_evidence_id :: "string option"

record SubjectMatch =
  su_users :: "string list"
  su_roles :: "string list"
  su_groups :: "string list"
  su_service_account :: "bool option"
  su_applications :: "string list"

definition subject_matches :: "SubjectMatch \<Rightarrow> 'f AppAuditRecord \<Rightarrow> bool" where
  "subject_matches m r \<longleftrightarrow>
     sel_matches (su_users m) (Some (ac_actor_id (r_actor r))) \<and>
     sel_matches (su_roles m) (ac_actor_role (r_actor r)) \<and>
     (su_groups m = [] \<or> sel_matches_any (su_groups m) (ac_actor_groups (r_actor r))) \<and>
     (case su_service_account m of None \<Rightarrow> True | Some b \<Rightarrow> b = ac_service_account (r_actor r)) \<and>
     sel_matches (su_applications m) (cx_application_name (r_context r))"

definition subject_is_empty :: "SubjectMatch \<Rightarrow> bool" where
  "subject_is_empty m \<longleftrightarrow>
     su_users m = [] \<and> su_roles m = [] \<and> su_groups m = [] \<and> su_applications m = [] \<and> su_service_account m = None"

record ResourceMatch =
  rs_databases :: "string list"
  rs_schemas :: "string list"
  rs_objects :: "string list"
  rs_object_types :: "string list"
  rs_columns :: "string list"
  rs_data_classifications :: "string list"
  rs_data_subject_categories :: "string list"

definition resource_matches :: "ResourceMatch \<Rightarrow> 'f AccessContext \<Rightarrow> bool" where
  "resource_matches m ctx \<longleftrightarrow>
     (let r = ctx_record ctx
      in sel_matches (rs_databases m) (cx_database (r_context r)) \<and>
         sel_matches (rs_schemas m) (cx_database_schema (r_context r)) \<and>
         (rs_objects m = [] \<or> sel_matches_any (rs_objects m) (ctx_objects ctx) \<or>
          object_field_matches (rs_objects m) (at_object_name (r_action r))) \<and>
         sel_matches (rs_object_types m) (at_object_type (r_action r)) \<and>
         (rs_columns m = [] \<or> sel_matches_any (rs_columns m) (ctx_columns ctx)) \<and>
         sel_matches (rs_data_classifications m) (cl_data_classification (r_classification r)) \<and>
         sel_matches (rs_data_subject_categories m) (at_subject_type (r_action r)))"

definition resource_is_empty :: "ResourceMatch \<Rightarrow> bool" where
  "resource_is_empty m \<longleftrightarrow>
     rs_databases m = [] \<and> rs_schemas m = [] \<and> rs_objects m = [] \<and> rs_object_types m = [] \<and>
     rs_columns m = [] \<and> rs_data_classifications m = [] \<and> rs_data_subject_categories m = []"

record HourWindow =
  hw_start :: u8
  hw_end :: u8
  hw_outside :: bool

definition hour_contains :: "HourWindow \<Rightarrow> u8 \<Rightarrow> bool" where
  "hour_contains w hour \<longleftrightarrow>
     (let inside = (if hw_start w \<le> hw_end w then hw_start w \<le> hour \<and> hour < hw_end w
                    else hw_start w \<le> hour \<or> hour < hw_end w)
      in inside \<noteq> hw_outside w)"

record ConditionMatch =
  cn_environments :: "string list"
  cn_weekdays :: "u8 list"
  cn_hours :: "HourWindow option"
  cn_operations :: "string list"
  cn_client_applications :: "string list"
  cn_client_ip_prefixes :: "string list"
  cn_export :: "bool option"
  cn_self_access :: "bool option"
  cn_watched_subject :: "bool option"
  cn_privileged :: "bool option"
  cn_sensitive_resource :: "bool option"
  cn_bulk_operation :: "bool option"
  cn_min_rows_read :: "u64 option"
  cn_maintenance_window :: "bool option"

definition condition_matches :: "ConditionMatch \<Rightarrow> 'f AccessContext \<Rightarrow> bool" where
  "condition_matches m ctx \<longleftrightarrow>
     (let r = ctx_record ctx
      in if \<not> sel_matches (cn_environments m) (cx_environment (r_context r)) then False
         else if cn_weekdays m \<noteq> [] \<and>
                 \<not> (case ctx_weekday ctx of None \<Rightarrow> False | Some w \<Rightarrow> w \<in> set (cn_weekdays m)) then False
         else if (case cn_hours m of
                    None \<Rightarrow> False
                  | Some win \<Rightarrow> \<not> (case ctx_hour ctx of None \<Rightarrow> False | Some h \<Rightarrow> hour_contains win h)) then False
         else if \<not> sel_matches (cn_operations m) (map_option QueryType_as_str (at_query_type (r_action r))) then False
         else if \<not> sel_matches (cn_client_applications m) (cx_client_application (r_context r)) then False
         else if cn_client_ip_prefixes m \<noteq> [] \<and>
                 \<not> (case (case cx_client_ip (r_context r) of
                            None \<Rightarrow> cx_client_host (r_context r) | Some ip \<Rightarrow> Some ip) of
                      None \<Rightarrow> False
                    | Some ip \<Rightarrow> list_ex (\<lambda>p. starts_with ip p) (cn_client_ip_prefixes m)) then False
         else if \<not> opt_bool_matches (cn_export m) (at_export_operation (r_action r)) \<or>
                 \<not> opt_bool_matches (cn_self_access m) (cl_self_access (r_classification r)) \<or>
                 \<not> opt_bool_matches (cn_watched_subject m) (cl_watched_subject (r_classification r)) \<or>
                 \<not> opt_bool_matches (cn_privileged m) (cl_privileged_access (r_classification r)) \<or>
                 \<not> opt_bool_matches (cn_sensitive_resource m) (cl_sensitive_resource (r_classification r)) \<or>
                 \<not> opt_bool_matches (cn_bulk_operation m) (at_bulk_operation (r_action r)) then False
         else if (case cn_min_rows_read m of
                    None \<Rightarrow> False
                  | Some lo \<Rightarrow> (case at_rows_read (r_action r) of None \<Rightarrow> True | Some n \<Rightarrow> n < lo)) then False
         else if (case cn_maintenance_window m of
                    None \<Rightarrow> False
                  | Some want \<Rightarrow> (ju_maintenance_window (r_justification r) \<noteq> None) \<noteq> want) then False
         else True)"

definition condition_is_empty :: "ConditionMatch \<Rightarrow> bool" where
  "condition_is_empty m \<longleftrightarrow>
     cn_environments m = [] \<and> cn_weekdays m = [] \<and> cn_hours m = None \<and> cn_operations m = [] \<and>
     cn_client_applications m = [] \<and> cn_client_ip_prefixes m = [] \<and> cn_export m = None \<and>
     cn_self_access m = None \<and> cn_watched_subject m = None \<and> cn_privileged m = None \<and>
     cn_sensitive_resource m = None \<and> cn_bulk_operation m = None \<and> cn_min_rows_read m = None \<and>
     cn_maintenance_window m = None"

section \<open>Policies\<close>

record Policy =
  po_id :: string
  po_version :: u32
  po_title :: string
  po_description :: string
  po_priority :: int
  po_enabled :: bool
  po_subject :: SubjectMatch
  po_resource :: ResourceMatch
  po_condition :: ConditionMatch
  po_effect :: Effect
  po_created_by :: string
  po_approved_by :: "string option"

definition applies :: "Policy \<Rightarrow> 'f AccessContext \<Rightarrow> bool" where
  "applies p ctx \<longleftrightarrow>
     po_enabled p \<and> subject_matches (po_subject p) (ctx_record ctx) \<and> resource_matches (po_resource p) ctx \<and>
     condition_matches (po_condition p) ctx"

text \<open>The errors of \<open>validate\<close>, with the data their messages are formatted from.\<close>

datatype policy_error = EmptyId | EmptyPattern string | Unscoped string Effect

definition pattern_lists :: "Policy \<Rightarrow> (string \<times> string list) list" where
  "pattern_lists p =
     [(''subject.users'', su_users (po_subject p)),
      (''subject.roles'', su_roles (po_subject p)),
      (''subject.groups'', su_groups (po_subject p)),
      (''subject.applications'', su_applications (po_subject p)),
      (''resource.databases'', rs_databases (po_resource p)),
      (''resource.schemas'', rs_schemas (po_resource p)),
      (''resource.objects'', rs_objects (po_resource p)),
      (''resource.object_types'', rs_object_types (po_resource p)),
      (''resource.columns'', rs_columns (po_resource p)),
      (''resource.data_classifications'', rs_data_classifications (po_resource p)),
      (''resource.data_subject_categories'', rs_data_subject_categories (po_resource p)),
      (''condition.environments'', cn_environments (po_condition p)),
      (''condition.operations'', cn_operations (po_condition p)),
      (''condition.client_applications'', cn_client_applications (po_condition p)),
      (''condition.client_ip_prefixes'', cn_client_ip_prefixes (po_condition p))]"

definition validate :: "Policy \<Rightarrow> policy_error + unit" where
  "validate p =
     (if trim (po_id p) = [] then Inl EmptyId
      else
        (case find (\<lambda>(name, l). list_ex (\<lambda>s. trim s = []) l) (pattern_lists p) of
           Some (name, l) \<Rightarrow> Inl (EmptyPattern name)
         | None \<Rightarrow>
             if is_restrictive (po_effect p) \<and> subject_is_empty (po_subject p) \<and>
                resource_is_empty (po_resource p) \<and> condition_is_empty (po_condition p)
             then Inl (Unscoped (po_id p) (po_effect p))
             else Inr ()))"

definition effective :: "Policy \<Rightarrow> 'f AccessContext \<Rightarrow> Effect \<times> string option" where
  "effective p ctx =
     (case po_effect p of
        RequireJustification \<Rightarrow>
          if is_present (r_justification (ctx_record ctx)) then (Allow, None)
          else (RequireJustification, Some ''justification'')
      | RequireApproval \<Rightarrow>
          if (case ju_approval_ref (r_justification (ctx_record ctx)) of None \<Rightarrow> False | Some s \<Rightarrow> trim s \<noteq> [])
          then (Allow, None)
          else (RequireApproval, Some ''approval'')
      | e \<Rightarrow> (e, None))"

section \<open>Contexts\<close>

definition context_new :: "'f AppAuditRecord \<Rightarrow> 'f AccessContext" where
  "context_new r =
     \<lparr>ctx_record = r, ctx_objects = [], ctx_columns = [], ctx_weekday = None, ctx_hour = None, ctx_evidence_id = None\<rparr>"

definition with_objects :: "'f AccessContext \<Rightarrow> string list \<Rightarrow> 'f AccessContext" where
  "with_objects ctx objects = ctx\<lparr>ctx_objects := objects\<rparr>"

definition with_columns :: "'f AccessContext \<Rightarrow> string list \<Rightarrow> 'f AccessContext" where
  "with_columns ctx columns = ctx\<lparr>ctx_columns := columns\<rparr>"

definition with_time :: "'f AccessContext \<Rightarrow> u8 \<Rightarrow> u8 \<Rightarrow> 'f AccessContext" where
  "with_time ctx weekday hour = ctx\<lparr>ctx_weekday := Some weekday, ctx_hour := Some hour\<rparr>"

definition with_evidence :: "'f AccessContext \<Rightarrow> string \<Rightarrow> 'f AccessContext" where
  "with_evidence ctx i = ctx\<lparr>ctx_evidence_id := Some i\<rparr>"

text \<open>A \<open>BTreeSet<String>\<close> collected into a vector.\<close>

definition btree_set :: "string list \<Rightarrow> string list" where
  "btree_set xs = remdups_adj (sort xs)"

definition csv_items :: "string \<Rightarrow> string list" where
  "csv_items v = filter (\<lambda>s. s \<noteq> []) (map trim (split_on (\<lambda>c. c = CHR '','') v))"

definition objects_from_event :: "'t Event \<Rightarrow> string list" where
  "objects_from_event ev =
     btree_set
       (concat (map (\<lambda>k. case ev_field ev k of None \<Rightarrow> [] | Some v \<Rightarrow> csv_items v) [''sql_read_tables'', ''sql_written_tables'']) @
        (case ev_field ev ''object_name'' of None \<Rightarrow> [] | Some ob \<Rightarrow> [ob]))"

text \<open>The calendar of the timestamp's library is two arguments: days from Monday and hour of day.\<close>

definition context_from_event ::
  "('t \<Rightarrow> u8) \<Rightarrow> ('t \<Rightarrow> u8) \<Rightarrow> 't Event \<Rightarrow> 'f AppAuditRecord \<Rightarrow> 'f AccessContext" where
  "context_from_event weekday hour ev r =
     (let columns = (case ev_field ev ''sql_columns'' of None \<Rightarrow> [] | Some v \<Rightarrow> csv_items v);
          ctx = with_time (with_columns (with_objects (context_new r) (objects_from_event ev)) columns)
                  (weekday (ev_ts ev)) (hour (ev_ts ev))
      in case ev_field ev ''event_id'' of None \<Rightarrow> ctx | Some i \<Rightarrow> with_evidence ctx i)"

section \<open>Decisions\<close>

record PolicyDecision =
  pd_decision :: Effect
  pd_matched_policies :: "string list"
  pd_strongest_rule :: "string option"
  pd_subject :: string
  pd_resource :: string
  pd_action :: string
  pd_missing_requirements :: "string list"
  pd_reason :: string
  pd_evidence_references :: "string list"
  pd_policy_version :: u32

record eval_state =
  es_matched :: "Policy list"
  es_best :: "(Policy \<times> Effect) option"
  es_missing :: "string list"

definition better :: "Policy \<times> Effect \<Rightarrow> (Policy \<times> Effect) option \<Rightarrow> (Policy \<times> Effect) option" where
  "better pe best =
     (case best of
        None \<Rightarrow> Some pe
      | Some be \<Rightarrow>
          if rank (snd pe) > rank (snd be) \<or>
             (rank (snd pe) = rank (snd be) \<and> po_priority (fst pe) > po_priority (fst be))
          then Some pe else Some be)"

definition eval_step :: "'f AccessContext \<Rightarrow> eval_state \<Rightarrow> Policy \<Rightarrow> eval_state" where
  "eval_step ctx st p =
     (if \<not> applies p ctx then st
      else
        (let (eff, miss) = effective p ctx
         in st\<lparr>es_matched := es_matched st @ [p],
               es_missing := (case miss of None \<Rightarrow> es_missing st | Some m \<Rightarrow> es_missing st @ [m]),
               es_best := better (p, eff) (es_best st)\<rparr>))"

text \<open>The arrow of the reason is its three UTF-8 bytes.\<close>

definition reason_str :: "Effect \<Rightarrow> string option \<Rightarrow> string" where
  "reason_str d rule =
     (case rule of
        Some i \<Rightarrow> ''policy '' @ [CHR 0x27] @ i @ [CHR 0x27] @ '' '' @ [CHR 0xE2, CHR 0x86, CHR 0x92] @ '' '' @ effect_str d
      | None \<Rightarrow> if d = Allow then ''no policy matched; allowed by default'' else effect_str d)"

definition evaluate :: "'f AccessContext \<Rightarrow> Policy list \<Rightarrow> PolicyDecision" where
  "evaluate ctx policies =
     (let r = ctx_record ctx;
          st = foldl (eval_step ctx) \<lparr>es_matched = [], es_best = None, es_missing = []\<rparr> policies;
          (decision, rule, version) =
            (case es_best st of Some (p, eff) \<Rightarrow> (eff, Some (po_id p), po_version p) | None \<Rightarrow> (Allow, None, 0));
          object =
            (case ctx_objects ctx of
               ob # _ \<Rightarrow> ob
             | [] \<Rightarrow> (case at_object_name (r_action r) of None \<Rightarrow> [] | Some ob \<Rightarrow> ob));
          act =
            (case at_query_type (r_action r) of
               Some q \<Rightarrow> QueryType_as_str q
             | None \<Rightarrow> (case at_action (r_action r) of None \<Rightarrow> [] | Some a \<Rightarrow> a))
      in \<lparr>pd_decision = decision,
          pd_matched_policies = map po_id (es_matched st),
          pd_strongest_rule = rule,
          pd_subject = ac_actor_id (r_actor r),
          pd_resource = object,
          pd_action = act,
          pd_missing_requirements = btree_set (es_missing st),
          pd_reason = reason_str decision rule,
          pd_evidence_references = (case ctx_evidence_id ctx of None \<Rightarrow> [] | Some i \<Rightarrow> [i]),
          pd_policy_version = version\<rparr>)"

definition policy_set_digest :: "(Policy list \<Rightarrow> bytes option) \<Rightarrow> (bytes \<Rightarrow> string) \<Rightarrow> Policy list \<Rightarrow> string" where
  "policy_set_digest to_json blake3_hex policies =
     (let enabled = sort_key po_id (filter po_enabled policies);
          json = (case to_json enabled of None \<Rightarrow> [] | Some b \<Rightarrow> b)
      in ''pol1:'' @ take 32 (blake3_hex json))"

definition policy_digest :: "(Policy \<Rightarrow> bytes option) \<Rightarrow> (bytes \<Rightarrow> string) \<Rightarrow> Policy \<Rightarrow> string" where
  "policy_digest to_json blake3_hex p =
     ''polr1:'' @ take 32 (blake3_hex (case to_json p of None \<Rightarrow> [] | Some b \<Rightarrow> b))"

section \<open>Simulation\<close>

record SimulationReport =
  sr_evaluated :: nat
  sr_matched :: nat
  sr_allow :: nat
  sr_deny :: nat
  sr_require_justification :: nat
  sr_require_approval :: nat
  sr_alert :: nat
  sr_step_up_review :: nat
  sr_increase_risk :: nat
  sr_affected_users :: "string list"
  sr_affected_objects :: "string list"
  sr_sample_event_ids :: "string list"
  sr_likely_false_positives :: nat

definition count_effect :: "Effect \<Rightarrow> SimulationReport \<Rightarrow> SimulationReport" where
  "count_effect e rep =
     (case e of
        Allow \<Rightarrow> rep\<lparr>sr_allow := sr_allow rep + 1\<rparr>
      | Deny \<Rightarrow> rep\<lparr>sr_deny := sr_deny rep + 1\<rparr>
      | RequireJustification \<Rightarrow> rep\<lparr>sr_require_justification := sr_require_justification rep + 1\<rparr>
      | RequireApproval \<Rightarrow> rep\<lparr>sr_require_approval := sr_require_approval rep + 1\<rparr>
      | Alert \<Rightarrow> rep\<lparr>sr_alert := sr_alert rep + 1\<rparr>
      | StepUpReview \<Rightarrow> rep\<lparr>sr_step_up_review := sr_step_up_review rep + 1\<rparr>
      | IncreaseRisk \<Rightarrow> rep\<lparr>sr_increase_risk := sr_increase_risk rep + 1\<rparr>)"

text \<open>
  One iteration; the sets of users and objects grow in the report's lists and are sorted at the end.
\<close>

definition simulate_step :: "Policy \<Rightarrow> SimulationReport \<Rightarrow> 'f AccessContext \<Rightarrow> SimulationReport" where
  "simulate_step p rep ctx =
     (if \<not> applies p ctx then rep
      else
        (let rep = rep\<lparr>sr_matched := sr_matched rep + 1\<rparr>;
             eff = fst (effective p ctx);
             rep = count_effect eff rep;
             rep = (if is_restrictive eff \<and> is_present (r_justification (ctx_record ctx))
                    then rep\<lparr>sr_likely_false_positives := sr_likely_false_positives rep + 1\<rparr> else rep);
             user = ac_actor_id (r_actor (ctx_record ctx));
             rep = (if user \<noteq> [] then rep\<lparr>sr_affected_users := sr_affected_users rep @ [user]\<rparr> else rep);
             rep = rep\<lparr>sr_affected_objects := sr_affected_objects rep @ ctx_objects ctx\<rparr>
         in case ctx_evidence_id ctx of
              None \<Rightarrow> rep
            | Some i \<Rightarrow>
                if length (sr_sample_event_ids rep) < 20
                then rep\<lparr>sr_sample_event_ids := sr_sample_event_ids rep @ [i]\<rparr> else rep))"

definition simulate :: "Policy \<Rightarrow> 'f AccessContext list \<Rightarrow> SimulationReport" where
  "simulate p contexts =
     (let rep = foldl (simulate_step p)
            \<lparr>sr_evaluated = length contexts, sr_matched = 0, sr_allow = 0, sr_deny = 0, sr_require_justification = 0,
             sr_require_approval = 0, sr_alert = 0, sr_step_up_review = 0, sr_increase_risk = 0,
             sr_affected_users = [], sr_affected_objects = [], sr_sample_event_ids = [],
             sr_likely_false_positives = 0\<rparr> contexts
      in rep\<lparr>sr_affected_users := btree_set (sr_affected_users rep),
             sr_affected_objects := btree_set (sr_affected_objects rep)\<rparr>)"

end
