(* ===== verification/Policy_Laws.thy ===== *)
theory Policy_Laws
  imports Access_Policy
begin

text \<open>
  What the policy engine guarantees: the decision is the strongest effect of the applicable policies, the scope
  check of \<open>validate\<close> is exact, and the simulation counts what the evaluation would decide.
\<close>

section \<open>Choosing the strongest\<close>

text \<open>
  The interface of a fold that keeps the best element seen so far and replaces it only by a strictly better one.
\<close>

locale first_max =
  fixes key :: "'a \<Rightarrow> 'k::linorder" and upd :: "'a \<Rightarrow> 'a option \<Rightarrow> 'a option"
  assumes upd_None: "upd x None = Some x"
    and upd_Some: "upd x (Some y) = (if key x > key y then Some x else Some y)"
begin

definition winner :: "'a list \<Rightarrow> 'a option" where
  "winner xs = foldl (\<lambda>b x. upd x b) None xs"

lemma winner_Nil: "winner [] = None"
  by (simp add: winner_def)

lemma winner_snoc: "winner (xs @ [x]) = upd x (winner xs)"
  by (simp add: winner_def)

lemma winner_None: "winner xs = None \<longleftrightarrow> xs = []"
proof (induction xs rule: rev_induct)
  case (snoc x xs)
  show ?case
    by (cases "winner xs") (simp_all only: winner_snoc upd_None upd_Some if_splits, simp_all)
qed (simp add: winner_Nil)

lemma winner_max:
  "winner xs = Some w \<Longrightarrow> w \<in> set xs \<and> (\<forall>x \<in> set xs. key x \<le> key w)"
proof (induction xs arbitrary: w rule: rev_induct)
  case (snoc x xs)
  show ?case
  proof (cases "winner xs")
    case None
    with snoc.prems show ?thesis by (auto simp: winner_snoc upd_None winner_None)
  next
    case (Some y)
    with snoc.IH have "y \<in> set xs" "\<forall>x \<in> set xs. key x \<le> key y" by auto
    with Some snoc.prems show ?thesis
      by (auto simp: winner_snoc upd_Some split: if_splits intro: order.trans)
  qed
qed (simp add: winner_Nil)

text \<open>Among equal keys the earliest wins.\<close>

lemma winner_earliest:
  "winner xs = Some w \<Longrightarrow> \<exists>pre post. xs = pre @ w # post \<and> (\<forall>x \<in> set pre. key x < key w)"
proof (induction xs arbitrary: w rule: rev_induct)
  case (snoc x xs)
  show ?case
  proof (cases "winner xs")
    case None
    with snoc.prems have "xs = []" "w = x" by (auto simp: winner_snoc upd_None winner_None)
    then show ?thesis by fastforce
  next
    case (Some y)
    show ?thesis
    proof (cases "key x > key y")
      case True
      with Some snoc.prems have "w = x" by (simp add: winner_snoc upd_Some)
      moreover have "\<forall>z \<in> set xs. key z < key x" using winner_max [OF Some] True by auto
      ultimately show ?thesis by blast
    next
      case False
      with Some snoc.prems have "w = y" by (simp add: winner_snoc upd_Some)
      with snoc.IH [OF Some] show ?thesis by fastforce
    qed
  qed
qed (simp add: winner_Nil)

end

definition strength :: "Policy \<times> Effect \<Rightarrow> nat \<times> int" where
  "strength pe = (rank (snd pe), po_priority (fst pe))"

interpretation strongest: first_max strength better
  by unfold_locales (auto simp: better_def strength_def less_prod_def')

section \<open>The evaluation loop\<close>

definition outcomes :: "'f AccessContext \<Rightarrow> Policy list \<Rightarrow> (Policy \<times> Effect) list" where
  "outcomes ctx ps = map (\<lambda>p. (p, fst (effective p ctx))) (filter (\<lambda>p. applies p ctx) ps)"

lemma eval_fold:
  "foldl (eval_step ctx) st ps =
     st\<lparr>es_matched := es_matched st @ filter (\<lambda>p. applies p ctx) ps,
        es_best := foldl (\<lambda>b x. better x b) (es_best st) (outcomes ctx ps),
        es_missing := es_missing st @
          List.map_filter (\<lambda>p. snd (effective p ctx)) (filter (\<lambda>p. applies p ctx) ps)\<rparr>"
  by (induction ps arbitrary: st)
    (auto simp: eval_step_def outcomes_def List.map_filter_simps Let_def case_prod_beta split: option.split)

lemma rank_inj [simp]: "rank a = rank b \<longleftrightarrow> a = b"
  by (cases a; cases b) simp_all

lemma rank_le_Deny: "rank e \<le> rank Deny"
  by (cases e) simp_all

lemma evaluate_winner:
  "(pd_decision (evaluate ctx ps), pd_strongest_rule (evaluate ctx ps), pd_policy_version (evaluate ctx ps)) =
     (case strongest.winner (outcomes ctx ps) of
        Some (p, e) \<Rightarrow> (e, Some (po_id p), po_version p) | None \<Rightarrow> (Allow, None, 0))"
  by (simp add: evaluate_def eval_fold strongest.winner_def Let_def split: option.split prod.split)

lemma outcomes_empty: "outcomes ctx ps = [] \<longleftrightarrow> (\<forall>p \<in> set ps. \<not> applies p ctx)"
  by (auto simp: outcomes_def filter_empty_conv)

lemma decision_upper:
  assumes "p \<in> set ps" "applies p ctx"
  shows "rank (fst (effective p ctx)) \<le> rank (pd_decision (evaluate ctx ps))"
proof -
  have o: "(p, fst (effective p ctx)) \<in> set (outcomes ctx ps)" using assms by (simp add: outcomes_def)
  then have "strongest.winner (outcomes ctx ps) \<noteq> None" by (simp add: strongest.winner_None) auto
  then obtain w where w: "strongest.winner (outcomes ctx ps) = Some w" by blast
  with o have "strength (p, fst (effective p ctx)) \<le> strength w" using strongest.winner_max by blast
  moreover have "pd_decision (evaluate ctx ps) = snd w"
    using evaluate_winner [of ctx ps] w by (simp split: prod.splits)
  ultimately show ?thesis by (auto simp: strength_def less_eq_prod_def)
qed

lemma decision_attained:
  "(pd_decision (evaluate ctx ps), pd_strongest_rule (evaluate ctx ps)) = (Allow, None) \<and> (\<forall>p \<in> set ps. \<not> applies p ctx) \<or>
   (\<exists>p \<in> set ps. applies p ctx \<and> fst (effective p ctx) = pd_decision (evaluate ctx ps) \<and>
      pd_strongest_rule (evaluate ctx ps) = Some (po_id p) \<and> pd_policy_version (evaluate ctx ps) = po_version p)"
proof (cases "strongest.winner (outcomes ctx ps)")
  case None
  then have "\<forall>p \<in> set ps. \<not> applies p ctx" by (simp add: strongest.winner_None outcomes_empty)
  with None show ?thesis using evaluate_winner [of ctx ps] by simp
next
  case (Some w)
  then have "w \<in> set (outcomes ctx ps)" using strongest.winner_max by blast
  with Some evaluate_winner [of ctx ps] show ?thesis by (auto simp: outcomes_def)
qed

lemma decision_mono:
  assumes "set ps \<subseteq> set qs"
  shows "rank (pd_decision (evaluate ctx ps)) \<le> rank (pd_decision (evaluate ctx qs))"
  using decision_attained [of ctx ps] decision_upper [of _ qs ctx] assms by fastforce

lemma decision_set: "set ps = set qs \<Longrightarrow> pd_decision (evaluate ctx ps) = pd_decision (evaluate ctx qs)"
  using decision_mono [of ps qs ctx] decision_mono [of qs ps ctx] by (simp flip: rank_inj)

lemma effective_Deny: "fst (effective p ctx) = Deny \<longleftrightarrow> po_effect p = Deny"
  by (simp add: effective_def split: Effect.split)

lemma decision_Deny:
  "pd_decision (evaluate ctx ps) = Deny \<longleftrightarrow> (\<exists>p \<in> set ps. po_effect p = Deny \<and> applies p ctx)"
proof
  assume "pd_decision (evaluate ctx ps) = Deny"
  with decision_attained [of ctx ps] show "\<exists>p \<in> set ps. po_effect p = Deny \<and> applies p ctx"
    by (auto simp: effective_Deny)
next
  assume "\<exists>p \<in> set ps. po_effect p = Deny \<and> applies p ctx"
  then obtain p where "p \<in> set ps" "applies p ctx" "fst (effective p ctx) = Deny" by (auto simp: effective_Deny)
  with decision_upper [of p ps ctx] show "pd_decision (evaluate ctx ps) = Deny"
    using rank_le_Deny [of "pd_decision (evaluate ctx ps)"] by (simp flip: rank_inj)
qed

section \<open>Missing requirements\<close>

lemma set_btree_set [simp]: "set (btree_set xs) = set xs"
  by (simp add: btree_set_def)

lemma sorted_btree_set: "sorted (btree_set xs) \<and> distinct (btree_set xs)"
proof -
  have "sorted (remdups_adj (sort xs))" by (simp add: sorted_remdups_adj)
  moreover have "distinct (remdups_adj ys)" if "sorted ys" for ys :: "string list"
    using that by (induction ys rule: remdups_adj.induct) (auto simp: order.antisym)
  ultimately show ?thesis by (simp add: btree_set_def)
qed

lemma map_filter_set: "set (List.map_filter f xs) = {y. \<exists>x \<in> set xs. f x = Some y}"
  by (induction xs) (auto simp: List.map_filter_simps split: option.split)

lemma evaluate_missing:
  "set (pd_missing_requirements (evaluate ctx ps)) =
     {m. \<exists>p \<in> set ps. applies p ctx \<and> snd (effective p ctx) = Some m}"
  by (auto simp: evaluate_def eval_fold Let_def map_filter_set split: option.split prod.split)

lemma effective_missing:
  "snd (effective p ctx) = Some m \<longleftrightarrow>
     po_effect p = RequireJustification \<and> m = ''justification'' \<and> \<not> is_present (r_justification (ctx_record ctx)) \<or>
     po_effect p = RequireApproval \<and> m = ''approval'' \<and>
     \<not> (case ju_approval_ref (r_justification (ctx_record ctx)) of None \<Rightarrow> False | Some s \<Rightarrow> trim s \<noteq> [])"
  by (auto simp: effective_def split: Effect.split)

section \<open>Scope\<close>

definition unscoped :: "Policy \<Rightarrow> bool" where
  "unscoped p \<longleftrightarrow>
     subject_is_empty (po_subject p) \<and> resource_is_empty (po_resource p) \<and> condition_is_empty (po_condition p)"

lemma unscoped_applies: "unscoped p \<Longrightarrow> po_enabled p \<Longrightarrow> applies p ctx"
  by (simp add: unscoped_def applies_def subject_is_empty_def resource_is_empty_def condition_is_empty_def
      subject_matches_def resource_matches_def condition_matches_def sel_matches_def opt_bool_matches_def Let_def)

text \<open>The access that matches no constraint: an unheard-of actor, nothing else known, every flag the other way.\<close>

definition stranger :: "string list \<Rightarrow> string" where
  "stranger users = concat users @ ''x''"

lemma stranger_unmatched: "\<not> list_ex (\<lambda>s. eq_ignore_ascii_case s (stranger users)) users"
proof -
  have "length s < length (stranger users)" if "s \<in> set users" for s
    using that member_le_sum_list [of "length s" "map length users"] by (simp add: stranger_def length_concat)
  then show ?thesis
    by (fastforce simp: list_ex_iff eq_ignore_ascii_case_def to_ascii_lowercase_def dest!: map_eq_imp_length_eq)
qed

definition against :: "bool option \<Rightarrow> bool" where
  "against want \<longleftrightarrow> want = Some False"

lemma against_simps [simp]: "against None = False" "against (Some b) = (\<not> b)"
  by (simp_all add: against_def)

lemma opt_bool_against: "opt_bool_matches want (against want) \<longleftrightarrow> want = None"
  by (cases want) (simp_all add: opt_bool_matches_def)

definition odd_record :: "Policy \<Rightarrow> 'f AppAuditRecord" where
  "odd_record p =
     (let su = po_subject p; cn = po_condition p;
          a = read_actor Map.empty; x = read_action (\<lambda>_. None) Map.empty; j = read_justification Map.empty;
          c = read_classification Map.empty False
      in \<lparr>r_actor = a\<lparr>ac_actor_id := stranger (su_users su), ac_service_account := against (su_service_account su)\<rparr>,
          r_context = read_context Map.empty [] [],
          r_action = x\<lparr>at_export_operation := against (cn_export cn), at_bulk_operation := against (cn_bulk_operation cn)\<rparr>,
          r_justification =
            j\<lparr>ju_maintenance_window := (if against (cn_maintenance_window cn) then Some [] else None)\<rparr>,
          r_classification =
            c\<lparr>cl_self_access := against (cn_self_access cn), cl_watched_subject := against (cn_watched_subject cn),
              cl_privileged_access := against (cn_privileged cn),
              cl_sensitive_resource := against (cn_sensitive_resource cn)\<rparr>\<rparr>)"

lemma sel_matches_None: "sel_matches sel None \<longleftrightarrow> sel = []"
  by (simp add: sel_matches_def)

lemma first_none [simp]: "first Map.empty ks = None"
  by (simp add: first_def List.map_filter_def)

lemmas reads_defs = read_actor_def read_context_def read_action_def read_justification_def read_classification_def

lemma odd_record_unmatched:
  "applies p (context_new (odd_record p)) \<longleftrightarrow> po_enabled p \<and> unscoped p"
proof -
  let ?r = "odd_record p" and ?ctx = "context_new (odd_record p)"
  have s: "subject_matches (po_subject p) ?r \<longleftrightarrow> subject_is_empty (po_subject p)"
    using stranger_unmatched [of "su_users (po_subject p)"] opt_bool_against [of "su_service_account (po_subject p)"]
    by (auto simp: subject_matches_def subject_is_empty_def odd_record_def reads_defs Let_def sel_matches_None
        sel_matches_def [of _ "Some _"] sel_matches_any_def opt_bool_matches_def)
  have r: "resource_matches (po_resource p) ?ctx \<longleftrightarrow> resource_is_empty (po_resource p)"
    by (auto simp: resource_matches_def resource_is_empty_def context_new_def odd_record_def reads_defs Let_def
        sel_matches_None sel_matches_any_def object_field_matches_def)
  have c: "condition_matches (po_condition p) ?ctx \<longleftrightarrow> condition_is_empty (po_condition p)"
    by (auto simp: condition_matches_def condition_is_empty_def context_new_def odd_record_def reads_defs Let_def
        sel_matches_None opt_bool_against or_label_def num_def split: option.splits)
  show ?thesis using s r c by (auto simp: applies_def unscoped_def context_new_def)
qed

section \<open>Validation\<close>

lemma validate_Ok:
  "validate p = Inr () \<longleftrightarrow>
     trim (po_id p) \<noteq> [] \<and> (\<forall>(name, l) \<in> set (pattern_lists p). list_all (\<lambda>s. trim s \<noteq> []) l) \<and>
     \<not> (is_restrictive (po_effect p) \<and> unscoped p)"
proof (cases "find (\<lambda>(name, l). list_ex (\<lambda>s. trim s = []) l) (pattern_lists p)")
  case None
  then have "\<forall>(name, l) \<in> set (pattern_lists p). list_all (\<lambda>s. trim s \<noteq> []) l"
    by (fastforce simp: find_None_iff list_ex_iff list_all_iff)
  with None show ?thesis by (auto simp: validate_def unscoped_def)
next
  case (Some x)
  then have "x \<in> set (pattern_lists p)" "\<not> (case x of (name, l) \<Rightarrow> list_all (\<lambda>s. trim s \<noteq> []) l)"
    by (auto simp: find_Some_iff list_ex_iff list_all_iff) (metis nth_mem)
  with Some show ?thesis by (auto simp: validate_def)
qed

section \<open>Simulation\<close>

definition effect_count :: "Effect \<Rightarrow> SimulationReport \<Rightarrow> nat" where
  "effect_count e rep =
     (case e of
        Allow \<Rightarrow> sr_allow rep | Deny \<Rightarrow> sr_deny rep
      | RequireJustification \<Rightarrow> sr_require_justification rep | RequireApproval \<Rightarrow> sr_require_approval rep
      | Alert \<Rightarrow> sr_alert rep | StepUpReview \<Rightarrow> sr_step_up_review rep | IncreaseRisk \<Rightarrow> sr_increase_risk rep)"

definition hits :: "Policy \<Rightarrow> Effect \<Rightarrow> 'f AccessContext list \<Rightarrow> 'f AccessContext list" where
  "hits p e cs = filter (\<lambda>c. applies p c \<and> fst (effective p c) = e) cs"

lemma count_effect_simps [simp]:
  "effect_count e (count_effect d rep) = effect_count e rep + (if d = e then 1 else 0)"
  "sr_matched (count_effect d rep) = sr_matched rep"
  "sr_evaluated (count_effect d rep) = sr_evaluated rep"
  "sr_likely_false_positives (count_effect d rep) = sr_likely_false_positives rep"
  "sr_sample_event_ids (count_effect d rep) = sr_sample_event_ids rep"
  by (cases d; cases e; simp add: count_effect_def effect_count_def)
    (simp_all add: count_effect_def split: Effect.split)

lemma effect_count_upd [simp]:
  "effect_count e (rep\<lparr>sr_matched := a\<rparr>) = effect_count e rep"
  "effect_count e (rep\<lparr>sr_likely_false_positives := a\<rparr>) = effect_count e rep"
  "effect_count e (rep\<lparr>sr_affected_users := us\<rparr>) = effect_count e rep"
  "effect_count e (rep\<lparr>sr_affected_objects := us\<rparr>) = effect_count e rep"
  "effect_count e (rep\<lparr>sr_sample_event_ids := us\<rparr>) = effect_count e rep"
  by (simp_all add: effect_count_def split: Effect.split)

lemma simulate_step_counts:
  "effect_count e (simulate_step p rep c) =
     effect_count e rep + (if applies p c \<and> fst (effective p c) = e then 1 else 0)"
  "sr_matched (simulate_step p rep c) = sr_matched rep + (if applies p c then 1 else 0)"
  "sr_evaluated (simulate_step p rep c) = sr_evaluated rep"
  "length (sr_sample_event_ids rep) \<le> 20 \<Longrightarrow> length (sr_sample_event_ids (simulate_step p rep c)) \<le> 20"
  by (auto simp: simulate_step_def Let_def split: option.split)

lemma simulate_fold:
  "effect_count e (foldl (simulate_step p) rep cs) = effect_count e rep + length (hits p e cs)"
  "sr_matched (foldl (simulate_step p) rep cs) = sr_matched rep + length (filter (applies p) cs)"
  "sr_evaluated (foldl (simulate_step p) rep cs) = sr_evaluated rep"
  "length (sr_sample_event_ids rep) \<le> 20 \<Longrightarrow> length (sr_sample_event_ids (foldl (simulate_step p) rep cs)) \<le> 20"
  by (induction cs arbitrary: rep) (simp_all add: simulate_step_counts hits_def)

lemma simulate_counts:
  "effect_count e (simulate p cs) = length (hits p e cs)"
  "sr_matched (simulate p cs) = length (filter (applies p) cs)"
  "sr_evaluated (simulate p cs) = length cs"
  "length (sr_sample_event_ids (simulate p cs)) \<le> 20"
  unfolding simulate_def Let_def
  by (simp_all add: simulate_fold) (simp_all add: effect_count_def split: Effect.split)

lemma hits_evaluate: "hits p e cs = filter (\<lambda>c. applies p c \<and> pd_decision (evaluate c [p]) = e) cs"
proof -
  have "fst (effective p c) = pd_decision (evaluate c [p])" if "applies p c" for c :: "'a AccessContext"
    using decision_attained [of c "[p]"] that by auto
  then show ?thesis by (auto simp: hits_def intro: filter_cong)
qed

lemma hits_sum:
  "(\<Sum>e \<leftarrow> [Allow, IncreaseRisk, Alert, StepUpReview, RequireJustification, RequireApproval, Deny].
      length (hits p e cs)) = length (filter (applies p) cs)"
proof (induction cs)
  case (Cons c cs)
  then show ?case by (cases "fst (effective p c)") (simp_all add: hits_def)
qed (simp add: hits_def)

section \<open>Digests\<close>

lemma policy_set_digest_perm:
  assumes "mset (filter po_enabled ps) = mset (filter po_enabled qs)" "distinct (map po_id (filter po_enabled ps))"
  shows "policy_set_digest to_json blake3_hex ps = policy_set_digest to_json blake3_hex qs"
  using sort_key_perm [of po_id "filter po_enabled ps" "filter po_enabled qs"] assms
  by (simp add: policy_set_digest_def distinct_map)

end
