(* ===== verification/Access_Properties.thy ===== *)
theory Access_Properties
  imports App_Roundtrip Policy_Laws
begin

text \<open>
  The properties of the application-audit record and of the access-policy engine, each with a concrete instance.
\<close>

section \<open>An example access\<close>

definition ex_blank_event :: "unit Event" where
  "ex_blank_event =
     \<lparr>ev_ts = (), ev_host = ''db01'', ev_service = ''postgres'', ev_source = ''pgaudit'', ev_environment = ''prod'',
      ev_severity = ''info'', ev_log_type = ''audit'', ev_message = [], ev_fields = Map.empty\<rparr>"

definition ex_event :: "unit Event" where
  "ex_event =
     ex_blank_event\<lparr>ev_fields :=
       [''db_user'' \<mapsto> ''mallory'', ''object_table'' \<mapsto> ''person'', ''client_addr'' \<mapsto> ''ws7'', ''actor_groups'' \<mapsto> ''a b'']\<rparr>"

definition ex_record :: "u64 AppAuditRecord" where
  "ex_record =
     (let r = from_event parse_u64 ex_blank_event
      in r\<lparr>r_actor := (r_actor r)\<lparr>ac_actor_id := ''mallory''\<rparr>\<rparr>)"

definition ex_context :: "u64 AccessContext" where
  "ex_context = with_objects (context_new ex_record) [''raw.salaries'']"

definition ex_policy :: Policy where
  "ex_policy =
     \<lparr>po_id = ''raw'', po_version = 3, po_title = [], po_description = [], po_priority = 0, po_enabled = True,
      po_subject = \<lparr>su_users = [], su_roles = [], su_groups = [], su_service_account = None, su_applications = []\<rparr>,
      po_resource =
        \<lparr>rs_databases = [], rs_schemas = [], rs_objects = [''raw.*''], rs_object_types = [], rs_columns = [],
         rs_data_classifications = [], rs_data_subject_categories = []\<rparr>,
      po_condition =
        \<lparr>cn_environments = [], cn_weekdays = [], cn_hours = None, cn_operations = [], cn_client_applications = [],
         cn_client_ip_prefixes = [], cn_export = None, cn_self_access = None, cn_watched_subject = None,
         cn_privileged = None, cn_sensitive_resource = None, cn_bulk_operation = None, cn_min_rows_read = None,
         cn_maintenance_window = None\<rparr>,
      po_effect = Deny, po_created_by = [], po_approved_by = None\<rparr>"

lemma ex_pattern: "object_pattern_matches ''raw.*'' ''raw.salaries''"
  by (simp add: object_pattern_matches_def to_ascii_lowercase_def to_lower_char_def ends_with_def starts_with_def)

lemma ex_policy_applies: "applies ex_policy ex_context"
  by (simp add: applies_def ex_policy_def ex_context_def with_objects_def context_new_def subject_matches_def
      resource_matches_def condition_matches_def sel_matches_def sel_matches_any_def opt_bool_matches_def Let_def ex_pattern)

section \<open>Policies\<close>

text \<open>
  C10. An access is denied exactly when some enabled \<open>Deny\<close> policy of the set matches it: no other policy, and no
  order of the policies, can suppress an explicit denial, and nothing is denied without one.
\<close>

theorem explicit_deny_wins:
  "pd_decision (evaluate ctx ps) = Deny \<longleftrightarrow> (\<exists>p \<in> set ps. po_effect p = Deny \<and> applies p ctx)"
  by (rule decision_Deny)

text \<open>
  The decision is the strongest effect among the matching policies, after satisfied requirements have been
  discounted, and the reported rule and version are those of a policy that produces it; with no match the access is
  allowed and no rule is reported.
\<close>

lemma evaluate_strongest:
  "(\<forall>p \<in> set ps. applies p ctx \<longrightarrow> rank (fst (effective p ctx)) \<le> rank (pd_decision (evaluate ctx ps))) \<and>
   (if \<exists>p \<in> set ps. applies p ctx
    then \<exists>p \<in> set ps. applies p ctx \<and> fst (effective p ctx) = pd_decision (evaluate ctx ps) \<and>
           pd_strongest_rule (evaluate ctx ps) = Some (po_id p) \<and>
           pd_policy_version (evaluate ctx ps) = po_version p
    else pd_decision (evaluate ctx ps) = Allow \<and> pd_strongest_rule (evaluate ctx ps) = None)"
  using decision_upper [of _ ps ctx] decision_attained [of ctx ps] by auto

lemma evaluate_strongest_example:
  "rank Deny \<le> rank (pd_decision (evaluate ex_context [ex_policy]))"
  using evaluate_strongest [of "[ex_policy]" ex_context] ex_policy_applies
  by (simp add: effective_def ex_policy_def)

text \<open>
  C11. Adding policies never weakens a decision, and the decision depends only on which policies there are, not on
  their order or repetition.
\<close>

theorem adding_policies_never_weakens:
  assumes "set ps \<subseteq> set qs"
  shows "rank (pd_decision (evaluate ctx ps)) \<le> rank (pd_decision (evaluate ctx qs)) \<and>
    (set qs = set ps \<longrightarrow> pd_decision (evaluate ctx qs) = pd_decision (evaluate ctx ps))"
  using decision_mono [OF assms] decision_set by blast

theorem adding_policies_never_weakens_witness:
  "rank (pd_decision (evaluate ex_context [ex_policy])) \<le> rank (pd_decision (evaluate ex_context [ex_policy, ex_policy]))"
  using adding_policies_never_weakens [of "[ex_policy]" "[ex_policy, ex_policy]" ex_context] by simp

text \<open>
  The unmet requirements of a decision are exactly those of the matching policies: a justification when one
  requires it and no reference is given (a blank one does not count), an approval when one requires it and no
  approval reference is given; they are listed once each, in order.
\<close>

lemma unmet_requirements_reported:
  "set (pd_missing_requirements (evaluate ctx ps)) =
     {m. (\<exists>p \<in> set ps. applies p ctx \<and> po_effect p = RequireJustification) \<and> m = ''justification'' \<and>
           missing_justification (ctx_record ctx) \<or>
         (\<exists>p \<in> set ps. applies p ctx \<and> po_effect p = RequireApproval) \<and> m = ''approval'' \<and>
           (case ju_approval_ref (r_justification (ctx_record ctx)) of None \<Rightarrow> True | Some s \<Rightarrow> trim s = [])} \<and>
   sorted (pd_missing_requirements (evaluate ctx ps)) \<and> distinct (pd_missing_requirements (evaluate ctx ps))"
proof
  show "set (pd_missing_requirements (evaluate ctx ps)) =
     {m. (\<exists>p \<in> set ps. applies p ctx \<and> po_effect p = RequireJustification) \<and> m = ''justification'' \<and>
           missing_justification (ctx_record ctx) \<or>
         (\<exists>p \<in> set ps. applies p ctx \<and> po_effect p = RequireApproval) \<and> m = ''approval'' \<and>
           (case ju_approval_ref (r_justification (ctx_record ctx)) of None \<Rightarrow> True | Some s \<Rightarrow> trim s = [])}"
    unfolding evaluate_missing effective_missing
    by (auto simp: missing_justification_def split: option.splits)
  show "sorted (pd_missing_requirements (evaluate ctx ps)) \<and> distinct (pd_missing_requirements (evaluate ctx ps))"
    using sorted_btree_set by (simp add: evaluate_def Let_def split: option.split prod.split)
qed

text \<open>
  Validation accepts a policy exactly when its id is not blank, no pattern list holds a blank pattern, and it is
  not a restrictive policy that would match every access once enabled: the syntactic scope check is exact.
\<close>

lemma validation_scope_exact:
  "validate p = Inr () \<longleftrightarrow>
     trim (po_id p) \<noteq> [] \<and> (\<forall>(name, l) \<in> set (pattern_lists p). list_all (\<lambda>s. trim s \<noteq> []) l) \<and>
     \<not> (is_restrictive (po_effect p) \<and> (\<forall>ctx :: 'f AccessContext. applies (p\<lparr>po_enabled := True\<rparr>) ctx))"
proof -
  let ?p = "p\<lparr>po_enabled := True\<rparr>"
  have "(\<forall>ctx :: 'f AccessContext. applies ?p ctx) \<longleftrightarrow> unscoped ?p"
    using unscoped_applies [of ?p] odd_record_unmatched [of ?p] by auto
  then show ?thesis by (simp add: validate_Ok unscoped_def)
qed

lemma validation_scope_exact_example:
  "validate ex_policy = Inr () \<and> \<not> (\<forall>ctx :: u64 AccessContext. applies ex_policy ctx)"
proof
  have "trim ''raw'' = ''raw''" "trim ''raw.*'' = ''raw.*''" by (rule trim_graphic, simp add: graphic_def)+
  then show ok: "validate ex_policy = Inr ()"
    by (simp add: validate_def ex_policy_def pattern_lists_def resource_is_empty_def)
  have "ex_policy\<lparr>po_enabled := True\<rparr> = ex_policy" "is_restrictive (po_effect ex_policy)"
    by (simp_all add: ex_policy_def is_restrictive_def)
  with ok show "\<not> (\<forall>ctx :: u64 AccessContext. applies ex_policy ctx)"
    using validation_scope_exact [of ex_policy, where ?'f = u64] by simp
qed

text \<open>
  The simulation of a policy counts what enforcement would decide: the number of accesses replayed, the number
  that match, and for every effect the number of matching accesses that the policy alone would decide that way; the
  seven counts add up to the matches, and at most twenty event ids are sampled.
\<close>

lemma simulation_counts_decisions:
  "sr_evaluated (simulate p cs) = length cs \<and>
   sr_matched (simulate p cs) = length (filter (applies p) cs) \<and>
   effect_count e (simulate p cs) = length (filter (\<lambda>c. applies p c \<and> pd_decision (evaluate c [p]) = e) cs) \<and>
   (\<Sum>e \<leftarrow> [Allow, IncreaseRisk, Alert, StepUpReview, RequireJustification, RequireApproval, Deny].
      effect_count e (simulate p cs)) = sr_matched (simulate p cs) \<and>
   length (sr_sample_event_ids (simulate p cs)) \<le> 20"
  by (simp add: simulate_counts flip: hits_evaluate hits_sum)

section \<open>The audit record\<close>

text \<open>
  C12. Writing a record and reading it back is lossless: for the record read from any event, the event that carries the
  written fields (and the record's environment and host as labels) reads as the same record. The one exception is a
  principal of unknown type flagged as a service account. \<open>f64\<close> values are assumed to print as non-blank text that
  parses back.
\<close>

theorem audit_record_round_trip:
  assumes "\<And>d. parse_f64 (trim (show_f64 d)) = Some d" "\<And>d. trim (show_f64 d) \<noteq> []"
    and "ac_actor_type (r_actor (from_event parse_f64 ev)) = Act_Unknown \<longrightarrow>
         \<not> ac_service_account (r_actor (from_event parse_f64 ev))"
  shows "from_event parse_f64 (synth show_f64 (from_event parse_f64 ev) ev) = from_event parse_f64 ev"
  by (rule from_event_synth [OF from_event_wf [OF assms(3)] assms(1,2)])

lemma ex_event_actor:
  "\<not> ac_service_account (r_actor (from_event parse_u64 ex_event))"
  by (simp add: from_event_def read_actor_def Let_def ex_event_def ex_blank_event_def flag_def first_Cons)

theorem audit_record_round_trip_witness:
  "from_event parse_u64 (synth show_u64 (from_event parse_u64 ex_event) ex_event) = from_event parse_u64 ex_event"
  by (rule audit_record_round_trip) (simp_all add: ex_event_actor)

text \<open>
  The access projection of a written record has the record's actor, subject, resource, operation, ticket and flags,
  and exists exactly when there is an actor; its session is always empty, whatever client the event named, because the
  client is written under the key \<open>client_host\<close> and the projection reads \<open>client_addr\<close>.
\<close>

lemma projection_of_written_record:
  assumes "ac_actor_type (r_actor r) = Act_Unknown \<longrightarrow> \<not> ac_service_account (r_actor r)"
    and "r = from_event parse_f64 ev"
  shows "project (synth show_f64 r ev) =
    (if record_actor_id r = [] then None
     else Some \<lparr>ap_actor = record_actor_id r, ap_subject = at_subject_id (r_action r),
                ap_resource = at_object_type (r_action r),
                ap_operation = (case at_action (r_action r) of None \<Rightarrow> at_statement (r_action r) | Some v \<Rightarrow> Some v),
                ap_justification = ju_ticket_ref (r_justification r), ap_session = None,
                ap_watched = cl_watched_subject (r_classification r),
                ap_is_self = cl_self_access (r_classification r)\<rparr>)"
proof -
  have "wf_record r" using from_event_wf [of parse_f64 ev] assms by simp
  then show ?thesis by (simp only: project_synth record_actor_id_def)
qed

lemma projection_of_written_record_example:
  "(\<exists>p. project ex_event = Some p \<and> ap_session p = Some ''ws7'') \<and>
   (\<exists>p. project (synth show_u64 (from_event parse_u64 ex_event) ex_event) = Some p \<and> ap_session p = None)"
proof
  show "\<exists>p. project ex_event = Some p \<and> ap_session p = Some ''ws7''"
    by (simp add: project_def ex_event_def ex_blank_event_def ev_field_def nonempty_def)
  have "record_actor_id (from_event parse_u64 ex_event) \<noteq> []"
    by (simp add: record_actor_id_def from_event_def read_actor_def Let_def ex_event_def ex_blank_event_def
        ACTOR_ALIASES_def first_Cons trim_graphic graphic_def)
  then show "\<exists>p. project (synth show_u64 (from_event parse_u64 ex_event) ex_event) = Some p \<and> ap_session p = None"
    using projection_of_written_record [of "from_event parse_u64 ex_event" parse_u64 ex_event show_u64] ex_event_actor
    by simp
qed

end
