(* ===== verification/Registry.thy ===== *)
theory Registry
  imports Garmr_Strings Audit_Record
begin

text \<open>
  The versioned artifact registry (\<open>crates/garmr-core/src/registry.rs\<close>): immutable records, the append-only
  stream of promotion events, and the folds that derive what is live from them. A record's \<open>spec\<close> is
  carried verbatim and is a type parameter; \<open>blake3_hex\<close> stands for hashing and hexadecimal printing.
\<close>

section \<open>Data\<close>

datatype RegistryKind =
    RK_Model | RK_EmbeddingModel | RK_Reranker | RK_Prompt | RK_Toolset | RK_Rule | RK_DetectorConfig
  | RK_FeatureDef | RK_Dataset | RK_EvalRun | RK_Release | RK_Lesson | RK_Policy | RK_Catalog
  | RK_Application | RK_Resource | RK_Monitoring | RK_Unknown

fun kind_tag :: "RegistryKind \<Rightarrow> string" where
  "kind_tag RK_Model = ''model''"
| "kind_tag RK_EmbeddingModel = ''embedding_model''"
| "kind_tag RK_Reranker = ''reranker''"
| "kind_tag RK_Prompt = ''prompt''"
| "kind_tag RK_Toolset = ''toolset''"
| "kind_tag RK_Rule = ''rule''"
| "kind_tag RK_DetectorConfig = ''detector_config''"
| "kind_tag RK_FeatureDef = ''feature_def''"
| "kind_tag RK_Dataset = ''dataset''"
| "kind_tag RK_EvalRun = ''eval_run''"
| "kind_tag RK_Release = ''release''"
| "kind_tag RK_Lesson = ''lesson''"
| "kind_tag RK_Policy = ''policy''"
| "kind_tag RK_Catalog = ''catalog''"
| "kind_tag RK_Application = ''application''"
| "kind_tag RK_Resource = ''resource''"
| "kind_tag RK_Monitoring = ''monitoring''"
| "kind_tag RK_Unknown = ''unknown''"

text \<open>The arms of the match in \<open>from_tag\<close>, in order.\<close>

definition kind_tags :: "(string \<times> RegistryKind) list" where
  "kind_tags = [
    (''model'', RK_Model),
    (''embedding_model'', RK_EmbeddingModel), (''embedding'', RK_EmbeddingModel),
    (''reranker'', RK_Reranker),
    (''prompt'', RK_Prompt),
    (''toolset'', RK_Toolset),
    (''rule'', RK_Rule),
    (''detector_config'', RK_DetectorConfig), (''detector'', RK_DetectorConfig),
    (''feature_def'', RK_FeatureDef), (''feature'', RK_FeatureDef),
    (''dataset'', RK_Dataset),
    (''eval_run'', RK_EvalRun), (''eval'', RK_EvalRun),
    (''release'', RK_Release),
    (''lesson'', RK_Lesson),
    (''policy'', RK_Policy),
    (''catalog'', RK_Catalog),
    (''application'', RK_Application), (''app'', RK_Application),
    (''resource'', RK_Resource),
    (''monitoring'', RK_Monitoring), (''monitor'', RK_Monitoring)]"

definition from_tag :: "string \<Rightarrow> RegistryKind option" where
  "from_tag s = map_of kind_tags (to_ascii_lowercase (trim s))"

datatype ApprovalState = AS_Draft | AS_Proposed | AS_Approved | AS_Rejected | AS_Deprecated | AS_Revoked | AS_Unknown

datatype RegistrySource = RS_Observed | RS_Operator | RS_AgentProposed | RS_Imported | RS_Unknown

datatype PromotionOp = PO_Promote | PO_Rollback | PO_Retire | PO_Reject | PO_Deprecate | PO_Unknown

record 'j RegistryRecord =
  rr_id :: string
  rr_kind :: RegistryKind
  rr_name :: string
  rr_version :: string
  rr_content_digest :: string
  rr_parent_version :: "string option"
  rr_rationale :: string
  rr_eval_run_refs :: "string list"
  rr_approval :: ApprovalState
  rr_source :: RegistrySource
  rr_registered_at :: datetime
  rr_registered_by :: string
  rr_audit_id :: "string option"
  rr_spec :: 'j

record PromotionEvent =
  pe_promotion_id :: string
  pe_kind :: RegistryKind
  pe_name :: string
  pe_op :: PromotionOp
  pe_to_version :: "string option"
  pe_from_version :: "string option"
  pe_to_state :: ApprovalState
  pe_channel :: string
  pe_target_digest :: string
  pe_reason :: string
  pe_actor :: string
  pe_audit_id :: string
  pe_supersedes :: "string option"
  pe_at :: datetime

section \<open>Folds\<close>

definition frame_bytes :: "bytes list \<Rightarrow> bytes" where
  "frame_bytes parts = concat (map (\<lambda>p. le_bytes 8 (of_nat (length p) :: u64) @ p) parts)"

definition frame :: "(bytes \<Rightarrow> string) \<Rightarrow> bytes list \<Rightarrow> string" where
  "frame blake3_hex parts = blake3_hex (frame_bytes parts)"

definition records_for :: "RegistryKind \<Rightarrow> string \<Rightarrow> 'j RegistryRecord list \<Rightarrow> 'j RegistryRecord list" where
  "records_for kind name al = filter (\<lambda>r. rr_kind r = kind \<and> rr_name r = name) al"

definition superseded :: "PromotionEvent list \<Rightarrow> string list" where
  "superseded promotions = List.map_filter pe_supersedes (filter (\<lambda>e. pe_audit_id e \<noteq> []) promotions)"

definition event_key :: "PromotionEvent \<Rightarrow> (int \<times> nat) \<times> string" where
  "event_key e = ((dt_secs (pe_at e), dt_nanos (pe_at e)), pe_promotion_id e)"

definition newest_binding :: "PromotionEvent list \<Rightarrow> nat option" where
  "newest_binding promotions =
     map_option fst
       (max_by_key (\<lambda>(i, e). event_key e)
         (filter (\<lambda>(i, e). pe_audit_id e \<noteq> [] \<and> pe_promotion_id e \<notin> set (superseded promotions))
           (List.enumerate 0 promotions)))"

definition effective_state :: "'j RegistryRecord \<Rightarrow> PromotionEvent list \<Rightarrow> ApprovalState" where
  "effective_state r promotions =
     (let matching = filter (\<lambda>e. pe_kind e = rr_kind r \<and> pe_name e = rr_name r \<and>
                               pe_target_digest e = rr_content_digest r) promotions
      in case newest_binding matching of
           Some i \<Rightarrow> pe_to_state (matching ! i)
         | None \<Rightarrow> rr_approval r)"

definition pointer_op :: "PromotionOp \<Rightarrow> bool" where
  "pointer_op p \<longleftrightarrow> (case p of PO_Promote \<Rightarrow> True | PO_Rollback \<Rightarrow> True | PO_Retire \<Rightarrow> True | _ \<Rightarrow> False)"

definition pointer_events :: "RegistryKind \<Rightarrow> string \<Rightarrow> string \<Rightarrow> PromotionEvent list \<Rightarrow> PromotionEvent list" where
  "pointer_events kind name channel promotions =
     filter (\<lambda>e. pe_kind e = kind \<and> pe_name e = name \<and> pe_channel e = channel \<and> pointer_op (pe_op e)) promotions"

definition active ::
  "RegistryKind \<Rightarrow> string \<Rightarrow> string \<Rightarrow> 'j RegistryRecord list \<Rightarrow> PromotionEvent list \<Rightarrow> 'j RegistryRecord option" where
  "active kind name channel records promotions =
     (let pointer = pointer_events kind name channel promotions
      in case newest_binding pointer of
           None \<Rightarrow> None
         | Some i \<Rightarrow>
             (let ev = pointer ! i
              in if pe_op ev = PO_Retire \<or> pe_to_state ev \<noteq> AS_Approved then None
                 else find (\<lambda>r. rr_kind r = kind \<and> rr_name r = name \<and>
                               rr_content_digest r = pe_target_digest ev) records))"

datatype finding_category = UnauditedPromotion | DanglingPromotion

text \<open>A finding, with the data its detail message is formatted from.\<close>

record RegistryFinding =
  rf_category :: finding_category
  rf_coord :: string
  rf_detail :: "PromotionOp \<times> RegistryKind \<times> string \<times> string"

text \<open>\<open>target_digest.get(..12).unwrap_or(target_digest)\<close>: the prefix when byte 12 is a character boundary.\<close>

definition digest_head :: "string \<Rightarrow> string" where
  "digest_head s =
     (if 12 \<le> length s \<and>
         (length s = 12 \<or> (of_char (s ! 12) :: nat) < 128 \<or> 192 \<le> (of_char (s ! 12) :: nat))
      then take 12 s else s)"

definition resolves :: "'j RegistryRecord list \<Rightarrow> PromotionEvent \<Rightarrow> bool" where
  "resolves records e \<longleftrightarrow>
     list_ex (\<lambda>r. rr_kind r = pe_kind e \<and> rr_name r = pe_name e \<and> rr_content_digest r = pe_target_digest e) records"

fun verify_registry :: "'j RegistryRecord list \<Rightarrow> PromotionEvent list \<Rightarrow> RegistryFinding list" where
  "verify_registry records [] = []"
| "verify_registry records (e # es) =
     (if pe_audit_id e = []
      then [\<lparr>rf_category = UnauditedPromotion, rf_coord = pe_promotion_id e,
             rf_detail = (pe_op e, pe_kind e, pe_name e, [])\<rparr>] else []) @
     (if (pe_op e = PO_Promote \<or> pe_op e = PO_Rollback) \<and> \<not> resolves records e
      then [\<lparr>rf_category = DanglingPromotion, rf_coord = pe_promotion_id e,
             rf_detail = (pe_op e, pe_kind e, pe_name e, digest_head (pe_target_digest e))\<rparr>] else []) @
     verify_registry records es"

section \<open>The binding event\<close>

text \<open>
  The interface the folds rely on: a function that picks the binding event out of a list, and which events
  can bind at all. An event that cannot bind must not influence the choice in any way.
\<close>

locale binding_choice =
  fixes winner :: "'e list \<Rightarrow> 'e option" and bound :: "'e \<Rightarrow> bool"
  assumes winner_mem: "winner es = Some e \<Longrightarrow> e \<in> set es \<and> bound e"
    and winner_inert: "winner (filter bound es) = winner es"
begin

text \<open>A view of the stream: what \<open>f\<close> makes of the binding event among those that match.\<close>

lemma view_inert: "winner (filter P (filter bound es)) = winner (filter P es)"
  using winner_inert [of "filter P es"] by (simp add: conj_commute)

lemma unbound_none: "list_all (\<lambda>e. \<not> bound e) es \<Longrightarrow> winner es = None"
  using winner_mem [of es] by (cases "winner es") (auto simp: list_all_iff)

end

definition audited :: "PromotionEvent \<Rightarrow> bool" where
  "audited e \<longleftrightarrow> pe_audit_id e \<noteq> []"

definition contenders :: "PromotionEvent list \<Rightarrow> PromotionEvent list" where
  "contenders ps = filter (\<lambda>e. audited e \<and> pe_promotion_id e \<notin> set (superseded ps)) ps"

definition binding_event :: "PromotionEvent list \<Rightarrow> PromotionEvent option" where
  "binding_event ps = map_option ((!) ps) (newest_binding ps)"

lemma binding_event_max: "binding_event ps = max_by_key event_key (contenders ps)"
proof -
  let ?xs = "filter (\<lambda>(i, e). audited e \<and> pe_promotion_id e \<notin> set (superseded ps)) (List.enumerate 0 ps)"
  have nb: "newest_binding ps = map_option fst (max_by_key (event_key \<circ> snd) ?xs)"
    by (simp add: newest_binding_def audited_def comp_def case_prod_unfold)
  have "ps ! fst x = snd x" if "max_by_key (event_key \<circ> snd) ?xs = Some x" for x
    using max_by_key_Some(1) [OF that] by (auto simp: in_set_enumerate_eq)
  then have "binding_event ps = map_option snd (max_by_key (event_key \<circ> snd) ?xs)"
    unfolding binding_event_def nb by (cases "max_by_key (event_key \<circ> snd) ?xs") simp_all
  also have "\<dots> = max_by_key event_key (map snd ?xs)"
    by (simp add: max_by_key_map)
  finally show ?thesis
    by (simp add: contenders_def filter_enumerate)
qed

lemma superseded_audited: "superseded (filter audited ps) = superseded ps"
  by (simp add: superseded_def audited_def)

interpretation promo: binding_choice binding_event audited
proof
  fix es :: "PromotionEvent list" and e
  show "binding_event es = Some e \<Longrightarrow> e \<in> set es \<and> audited e"
    unfolding binding_event_max using max_by_key_Some(1) by (fastforce simp: contenders_def)
  show "binding_event (filter audited es) = binding_event es"
    by (simp add: binding_event_max contenders_def superseded_audited)
qed

lemma newest_binding_event:
  "newest_binding ps = None \<longleftrightarrow> binding_event ps = None"
  "newest_binding ps = Some i \<Longrightarrow> binding_event ps = Some (ps ! i)"
  by (simp_all add: binding_event_def)

text \<open>The two folds in terms of the binding event.\<close>

lemma effective_state_eq:
  "effective_state r ps =
     (case binding_event (filter (\<lambda>e. pe_kind e = rr_kind r \<and> pe_name e = rr_name r \<and>
              pe_target_digest e = rr_content_digest r) ps) of
        Some e \<Rightarrow> pe_to_state e | None \<Rightarrow> rr_approval r)"
  by (simp add: effective_state_def Let_def binding_event_def split: option.split)

lemma active_eq:
  "active kind name channel records ps =
     (case binding_event (pointer_events kind name channel ps) of
        None \<Rightarrow> None
      | Some ev \<Rightarrow>
          if pe_op ev = PO_Retire \<or> pe_to_state ev \<noteq> AS_Approved then None
          else find (\<lambda>r. rr_kind r = kind \<and> rr_name r = name \<and> rr_content_digest r = pe_target_digest ev) records)"
  by (simp add: active_def Let_def binding_event_def split: option.split)

lemma forged_inert:
  "effective_state r (filter audited ps) = effective_state r ps"
  "active kind name channel records (filter audited ps) = active kind name channel records ps"
  by (simp_all only: effective_state_eq active_eq pointer_events_def promo.view_inert)

lemma active_Some:
  assumes "active kind name channel records ps = Some r"
  obtains ev where "ev \<in> set ps" "audited ev" "pe_op ev = PO_Promote \<or> pe_op ev = PO_Rollback"
    "pe_to_state ev = AS_Approved" "pe_channel ev = channel" "pe_kind ev = kind" "pe_name ev = name"
    "pe_target_digest ev = rr_content_digest r" "r \<in> set records" "rr_kind r = kind" "rr_name r = name"
    "\<And>e. e \<in> set (contenders (pointer_events kind name channel ps)) \<Longrightarrow> event_key e \<le> event_key ev"
proof -
  from assms obtain ev where ev: "binding_event (pointer_events kind name channel ps) = Some ev"
      "pe_op ev \<noteq> PO_Retire" "pe_to_state ev = AS_Approved"
      "find (\<lambda>r. rr_kind r = kind \<and> rr_name r = name \<and> rr_content_digest r = pe_target_digest ev) records = Some r"
    by (auto simp: active_eq split: option.splits if_splits)
  have mem: "ev \<in> set (pointer_events kind name channel ps)" "audited ev"
    using promo.winner_mem [OF ev(1)] by blast+
  have r: "r \<in> set records" "rr_kind r = kind" "rr_name r = name" "rr_content_digest r = pe_target_digest ev"
    using ev(4) by (auto simp: find_Some_iff)
  have newest: "event_key e \<le> event_key ev" if "e \<in> set (contenders (pointer_events kind name channel ps))" for e
    by (rule max_by_key_Some(2) [OF ev(1) [unfolded binding_event_max] that])
  show ?thesis
    by (rule that [of ev])
      (use mem r ev(2,3) newest in \<open>auto simp: pointer_events_def pointer_op_def split: PromotionOp.splits\<close>)
qed

text \<open>A stream with pairwise distinct promotion ids is folded independently of its order.\<close>

lemma event_key_inj: "distinct (map pe_promotion_id ps) \<Longrightarrow> inj_on event_key (set ps)"
  by (auto simp: distinct_map event_key_def inj_on_def)

lemma binding_event_perm:
  assumes "mset ps = mset qs" "distinct (map pe_promotion_id ps)"
  shows "binding_event ps = binding_event qs"
proof -
  have set: "set ps = set qs" using assms(1) by (metis set_mset_mset)
  then have "set (superseded ps) = set (superseded qs)"
    by (auto simp: superseded_def List.map_filter_def)
  with set have "set (contenders ps) = set (contenders qs)" by (auto simp: contenders_def)
  moreover have "inj_on event_key (set (contenders ps))"
    by (rule inj_on_subset [OF event_key_inj [OF assms(2)]]) (auto simp: contenders_def)
  ultimately show ?thesis
    unfolding binding_event_max by (rule max_by_key_perm [rotated])
qed

lemma active_perm:
  assumes "mset ps = mset qs" "distinct (map pe_promotion_id ps)"
  shows "active kind name channel records ps = active kind name channel records qs"
proof -
  have "binding_event (pointer_events kind name channel ps) = binding_event (pointer_events kind name channel qs)"
    by (rule binding_event_perm) (use assms in \<open>simp_all add: pointer_events_def distinct_map_filter\<close>)
  then show ?thesis by (simp add: active_eq)
qed

section \<open>Integrity\<close>

lemma verify_registry_sound:
  "verify_registry records ps = [] \<longleftrightarrow>
     (\<forall>e \<in> set ps. audited e \<and> (pe_op e = PO_Promote \<or> pe_op e = PO_Rollback \<longrightarrow> resolves records e))"
  by (induction ps) (auto simp: audited_def)

section \<open>Framing\<close>

definition part_ok :: "bytes \<Rightarrow> bool" where
  "part_ok p \<longleftrightarrow> length p < 2 ^ 64"

interpretation part_code: prefix_code "\<lambda>p. le_bytes 8 (of_nat (length p) :: u64) @ p" part_ok
proof
  fix x y s t
  assume ok: "part_ok x" "part_ok y"
  show "((le_bytes 8 (of_nat (length x) :: u64) @ x) @ s = (le_bytes 8 (of_nat (length y) :: u64) @ y) @ t) =
    (x = y \<and> s = t)"
  proof
    assume "(le_bytes 8 (of_nat (length x) :: u64) @ x) @ s = (le_bytes 8 (of_nat (length y) :: u64) @ y) @ t"
    then have "(of_nat (length x) :: u64) = of_nat (length y)" "x @ s = y @ t"
      by (simp_all add: u64_code.cancel)
    with ok show "x = y \<and> s = t"
      by (simp add: part_ok_def word_of_nat_eq_iff take_bit_nat_eq_self)
  qed simp
qed

text \<open>The framing is injective on lists of parts: no part can be moved across a boundary.\<close>

lemma frame_bytes_inj:
  assumes "list_all part_ok ps" "list_all part_ok qs"
  shows "frame_bytes ps = frame_bytes qs \<longleftrightarrow> ps = qs"
  using assms
proof (induction ps arbitrary: qs)
  case Nil
  then show ?case by (cases qs) (auto simp: frame_bytes_def le_bytes_def)
next
  case (Cons p ps)
  show ?case
  proof (cases qs)
    case Nil
    then show ?thesis by (auto simp: frame_bytes_def le_bytes_def)
  next
    case (Cons q qs')
    then show ?thesis
      using Cons.prems Cons.IH [of qs'] part_code.cancel [of p q "frame_bytes ps" "frame_bytes qs'"]
      by (simp add: frame_bytes_def)
  qed
qed

end
