(* ===== verification/Retention.thy ===== *)
theory Retention
  imports Garmr_Strings Audit_Record
begin

text \<open>
  Retention decisions: the cold-archive manifest with its expiry policy, deletion records and tombstones
  (\<open>crates/garmr-core/src/retention.rs\<close>), and which backups a scheduled run may delete
  (\<open>crates/garmr-core/src/backup_retention.rs\<close>). Timestamps in microseconds are only compared and are
  integers.
\<close>

section \<open>Cold archives\<close>

record ColdArchive =
  ca_id :: string
  ca_kind :: string
  ca_file :: string
  ca_start_us :: int
  ca_end_us :: int
  ca_rows :: u64
  ca_bytes_in :: u64
  ca_bytes_out :: u64
  ca_checksum :: string
  ca_hot_pruned :: bool
  ca_sealed_at :: datetime
  ca_legal_hold :: bool

record ColdDeletion =
  cd_id :: string
  cd_checksum :: string
  cd_rows :: u64
  cd_bytes_out :: u64
  cd_start_us :: int
  cd_end_us :: int
  cd_deleted_at :: datetime
  cd_reason :: string
  cd_local_removed :: bool
  cd_remote_removed :: "bool option"

definition is_complete :: "ColdDeletion \<Rightarrow> bool" where
  "is_complete d \<longleftrightarrow> cd_local_removed d \<or> cd_remote_removed d = Some True"

datatype EraseField = EF_Host | EF_SrcIp | EF_User

fun fields_key :: "EraseField \<Rightarrow> string option" where
  "fields_key EF_Host = None"
| "fields_key EF_SrcIp = Some ''src_ip''"
| "fields_key EF_User = Some ''user''"

record Tombstone =
  ts_id :: string
  ts_field :: EraseField
  ts_value :: string
  ts_from_us :: "int option"
  ts_to_us :: "int option"
  ts_placed_at :: datetime
  ts_reason :: string

text \<open>\<open>json_string\<close> is \<open>serde_json::to_string\<close> on a string; a failure gives the empty string.\<close>

definition fields_needle :: "(string \<Rightarrow> string option) \<Rightarrow> Tombstone \<Rightarrow> string option" where
  "fields_needle json_string t =
     map_option (\<lambda>k. let quoted = (case json_string (ts_value t) of Some q \<Rightarrow> q | None \<Rightarrow> [])
                     in CHR 0x22 # k @ [CHR 0x22, CHR '':''] @ quoted)
       (fields_key (ts_field t))"

definition is_none_or :: "'a option \<Rightarrow> ('a \<Rightarrow> bool) \<Rightarrow> bool" where
  "is_none_or x P = (case x of None \<Rightarrow> True | Some v \<Rightarrow> P v)"

definition covers_ts :: "Tombstone \<Rightarrow> int \<Rightarrow> bool" where
  "covers_ts t us \<longleftrightarrow> is_none_or (ts_from_us t) (\<lambda>f. f \<le> us) \<and> is_none_or (ts_to_us t) (\<lambda>x. us < x)"

definition overlaps :: "ColdArchive \<Rightarrow> int option \<Rightarrow> int option \<Rightarrow> bool" where
  "overlaps a from_us to_us =
     (let after_from = is_none_or to_us (\<lambda>x. ca_start_us a < x);
          before_to = is_none_or from_us (\<lambda>f. f < ca_end_us a)
      in after_from \<and> before_to)"

fun expired_archives :: "ColdArchive list \<Rightarrow> int \<Rightarrow> ColdArchive list \<times> ColdArchive list" where
  "expired_archives [] cutoff_us = ([], [])"
| "expired_archives (a # as) cutoff_us =
     (let (expiring, held) = expired_archives as cutoff_us
      in if cutoff_us < ca_end_us a then (expiring, held)
         else if ca_legal_hold a then (expiring, a # held)
         else (a # expiring, held))"

lemma expired_archives_filter:
  "expired_archives as cutoff =
     (filter (\<lambda>a. ca_end_us a \<le> cutoff \<and> \<not> ca_legal_hold a) as,
      filter (\<lambda>a. ca_end_us a \<le> cutoff \<and> ca_legal_hold a) as)"
  by (induction as) (auto simp: Let_def)

text \<open>For a non-empty window and a non-empty range, overlapping is having an instant in common.\<close>

lemma overlaps_iff:
  assumes "ca_start_us a < ca_end_us a" "\<And>f x. from_us = Some f \<Longrightarrow> to_us = Some x \<Longrightarrow> f < x"
  shows "overlaps a from_us to_us \<longleftrightarrow>
    (\<exists>us. ca_start_us a \<le> us \<and> us < ca_end_us a \<and>
       is_none_or from_us (\<lambda>f. f \<le> us) \<and> is_none_or to_us (\<lambda>x. us < x))"
proof
  assume "overlaps a from_us to_us"
  with assms show "\<exists>us. ca_start_us a \<le> us \<and> us < ca_end_us a \<and>
      is_none_or from_us (\<lambda>f. f \<le> us) \<and> is_none_or to_us (\<lambda>x. us < x)"
    by (intro exI [of _ "case from_us of None \<Rightarrow> ca_start_us a | Some f \<Rightarrow> max f (ca_start_us a)"])
      (auto simp: overlaps_def is_none_or_def split: option.splits)
qed (auto simp: overlaps_def is_none_or_def split: option.splits)

section \<open>Pruning backups\<close>

record BackupEntry =
  be_id :: string
  be_created_at_us :: int
  be_degraded :: bool

datatype prune_note = KeepZero | RescuedBeyond string | AllDegraded

record PrunePlan =
  pp_delete :: "string list"
  pp_keep :: "string list"
  pp_note :: "prune_note option"

text \<open>\<open>Vec::remove\<close> at the position of the first healthy entry.\<close>

fun take_healthy :: "BackupEntry list \<Rightarrow> (BackupEntry \<times> BackupEntry list) option" where
  "take_healthy [] = None"
| "take_healthy (b # bs) =
     (if \<not> be_degraded b then Some (b, bs) else map_option (\<lambda>(x, rest). (x, b # rest)) (take_healthy bs))"

definition rescue ::
  "BackupEntry list \<Rightarrow> BackupEntry list \<Rightarrow> BackupEntry list \<times> BackupEntry list \<times> prune_note option" where
  "rescue kept doomed =
     (if list_ex (\<lambda>b. \<not> be_degraded b) kept then (kept, doomed, None)
      else (case take_healthy doomed of
              Some (r, rest) \<Rightarrow> (kept @ [r], rest, Some (RescuedBeyond (be_id r)))
            | None \<Rightarrow> (kept, doomed, Some AllDegraded)))"

definition plan_prune :: "BackupEntry list \<Rightarrow> nat \<Rightarrow> PrunePlan" where
  "plan_prune backups keep =
     (if keep = 0
      then \<lparr>pp_delete = [], pp_keep = map be_id backups, pp_note = Some KeepZero\<rparr>
      else
        (let bs = sort_key (\<lambda>b. (- be_created_at_us b, be_id b)) backups
         in if length bs \<le> keep then \<lparr>pp_delete = [], pp_keep = map be_id bs, pp_note = None\<rparr>
            else
              (let (kept, doomed, note) = rescue (take keep bs) (drop keep bs);
                   doomed = sort_key (\<lambda>b. (be_created_at_us b, be_id b)) doomed
               in \<lparr>pp_delete = map be_id doomed, pp_keep = map be_id kept, pp_note = note\<rparr>)))"

lemma take_healthy_Some:
  "take_healthy bs = Some (r, rest) \<Longrightarrow> \<not> be_degraded r \<and> mset bs = add_mset r (mset rest)"
  by (induction bs arbitrary: r rest) (auto split: if_splits)

lemma take_healthy_None: "take_healthy bs = None \<longleftrightarrow> list_all be_degraded bs"
  by (induction bs) auto

lemma rescue_mset: "rescue kept doomed = (k, d, n) \<Longrightarrow> mset k + mset d = mset kept + mset doomed"
  by (auto simp: rescue_def dest: take_healthy_Some split: if_splits option.splits)

lemma rescue_healthy:
  assumes "rescue kept doomed = (k, d, n)" "b \<in> set (kept @ doomed)" "\<not> be_degraded b"
  shows "\<exists>h \<in> set k. \<not> be_degraded h"
proof (cases "take_healthy doomed")
  case None
  then have "list_all be_degraded doomed" by (simp only: take_healthy_None)
  with assms show ?thesis
    by (auto simp: rescue_def None list_all_iff list_ex_iff split: if_splits)
next
  case (Some x)
  with assms(1) show ?thesis
    by (cases x) (auto simp: rescue_def list_ex_iff dest: take_healthy_Some split: if_splits)
qed

text \<open>Nothing is lost and nothing is invented.\<close>

lemma plan_prune_partition:
  "mset (pp_keep (plan_prune bs n)) + mset (pp_delete (plan_prune bs n)) = mset (map be_id bs)"
proof -
  let ?bs = "sort_key (\<lambda>b. (- be_created_at_us b, be_id b)) bs"
  obtain k d nt where r: "rescue (take n ?bs) (drop n ?bs) = (k, d, nt)" by (cases "rescue (take n ?bs) (drop n ?bs)")
  have "mset (take n ?bs) + mset (drop n ?bs) = mset bs"
    by (metis append_take_drop_id mset_append mset_sort)
  with rescue_mset [OF r] have "mset k + mset d = mset bs" by simp
  then have "mset (map be_id k) + mset (map be_id d) = mset (map be_id bs)"
    by (metis image_mset_union mset_map)
  with r show ?thesis
    by (simp add: plan_prune_def Let_def)
qed

lemma plan_prune_entries:
  assumes "n \<noteq> 0"
  obtains k d where "mset k + mset d = mset bs" "pp_keep (plan_prune bs n) = map be_id k"
    "mset (pp_delete (plan_prune bs n)) = mset (map be_id d)"
    "(\<exists>b \<in> set bs. \<not> be_degraded b) \<Longrightarrow> (\<exists>h \<in> set k. \<not> be_degraded h)"
    "\<And>x y. list_ex (\<lambda>b. \<not> be_degraded b) (take n (sort_key (\<lambda>b. (- be_created_at_us b, be_id b)) bs)) \<Longrightarrow>
       x \<in> set k \<Longrightarrow> y \<in> set d \<Longrightarrow> be_created_at_us y \<le> be_created_at_us x"
    "min n (length bs) \<le> length k" "length k \<le> Suc n"
proof -
  let ?key = "\<lambda>b. (- be_created_at_us b, be_id b)"
  let ?bs = "sort_key ?key bs"
  have sorted: "be_created_at_us y \<le> be_created_at_us x" if "x \<in> set (take n ?bs)" "y \<in> set (drop n ?bs)" for x y
  proof -
    have "sorted (map ?key (take n ?bs @ drop n ?bs))" by simp
    then have "?key x \<le> ?key y" using that by (simp only: map_append sorted_append) fastforce
    then show ?thesis by (auto simp: less_eq_prod_def)
  qed
  show ?thesis
  proof (cases "length bs \<le> n")
    case True
    then show ?thesis
      using assms by (intro that [of ?bs "[]"]) (auto simp: plan_prune_def Let_def)
  next
    case False
    obtain k d nt where r: "rescue (take n ?bs) (drop n ?bs) = (k, d, nt)" by (cases "rescue (take n ?bs) (drop n ?bs)")
    have m: "mset (take n ?bs) + mset (drop n ?bs) = mset bs"
      by (metis append_take_drop_id mset_append mset_sort)
    have len: "n \<le> length k" "length k \<le> Suc n"
      using r False by (auto simp: rescue_def split: if_splits option.splits)
    have k: "k = take n ?bs \<and> d = drop n ?bs" if "list_ex (\<lambda>b. \<not> be_degraded b) (take n ?bs)"
      using r that by (simp add: rescue_def)
    have plan: "pp_keep (plan_prune bs n) = map be_id k" "mset (pp_delete (plan_prune bs n)) = mset (map be_id d)"
      using assms False r by (simp_all add: plan_prune_def Let_def)
    show ?thesis
    proof (rule that [of k d])
      show "mset k + mset d = mset bs" using rescue_mset [OF r] m by simp
      show "\<exists>h \<in> set k. \<not> be_degraded h" if "\<exists>b \<in> set bs. \<not> be_degraded b"
        using rescue_healthy [OF r] that by (metis append_take_drop_id set_sort)
      show "be_created_at_us y \<le> be_created_at_us x"
        if "list_ex (\<lambda>b. \<not> be_degraded b) (take n ?bs)" "x \<in> set k" "y \<in> set d" for x y
        using sorted k [OF that(1)] that(2,3) by simp
    qed (use plan len in simp_all)
  qed
qed

text \<open>With distinct ids the plan does not depend on the order the backups are listed in.\<close>

lemma plan_prune_perm:
  assumes "mset bs = mset cs" "distinct (map be_id bs)" "n \<noteq> 0"
  shows "plan_prune bs n = plan_prune cs n"
proof -
  have "inj_on (\<lambda>b. (- be_created_at_us b, be_id b)) (set bs)"
    using assms(2) by (auto simp: distinct_map inj_on_def)
  from sort_key_perm [OF this assms(1)] show ?thesis
    using assms(3) by (simp add: plan_prune_def)
qed

end
