(* ===== verification/Governance_Properties.thy ===== *)
theory Governance_Properties
  imports Registry Retention
begin

text \<open>
  The properties of the governed registry and of the retention decisions, each with a concrete instance.
\<close>

section \<open>An example registry\<close>

definition ex_reg_record :: "unit RegistryRecord" where
  "ex_reg_record =
     \<lparr>rr_id = ''r1'', rr_kind = RK_Policy, rr_name = ''deny-raw'', rr_version = ''1'', rr_content_digest = ''d1'',
      rr_parent_version = None, rr_rationale = [], rr_eval_run_refs = [], rr_approval = AS_Proposed,
      rr_source = RS_Operator, rr_registered_at = \<lparr>dt_secs = 1, dt_nanos = 0\<rparr>, rr_registered_by = ''ann'',
      rr_audit_id = None, rr_spec = ()\<rparr>"

definition ex_promotion :: PromotionEvent where
  "ex_promotion =
     \<lparr>pe_promotion_id = ''p1'', pe_kind = RK_Policy, pe_name = ''deny-raw'', pe_op = PO_Promote, pe_to_version = None,
      pe_from_version = None, pe_to_state = AS_Approved, pe_channel = ''live'', pe_target_digest = ''d1'',
      pe_reason = [], pe_actor = ''bob'', pe_audit_id = ''a1'', pe_supersedes = None,
      pe_at = \<lparr>dt_secs = 2, dt_nanos = 0\<rparr>\<rparr>"

lemma ex_binding: "binding_event (pointer_events RK_Policy ''deny-raw'' ''live'' [ex_promotion]) = Some ex_promotion"
  by (simp add: binding_event_max max_by_key_def contenders_def pointer_events_def pointer_op_def ex_promotion_def
      audited_def superseded_def List.map_filter_def)

lemma ex_active: "active RK_Policy ''deny-raw'' ''live'' [ex_reg_record] [ex_promotion] = Some ex_reg_record"
  by (simp only: active_eq ex_binding option.case) (simp add: ex_promotion_def ex_reg_record_def)

section \<open>The registry\<close>

text \<open>
  C13. A promotion without an audit id is inert: removing every such row changes neither the live record of any
  channel nor the effective state of any record, even when the row claims to supersede audited ones.
\<close>

theorem forged_promotions_inert:
  "active kind name channel records (filter audited ps) = active kind name channel records ps \<and>
   effective_state r (filter audited ps) = effective_state r ps"
  by (simp only: forged_inert)

text \<open>
  C14. The live record of a channel is one of the stored records of that kind and name, and it is the target of an
  audited promotion or rollback of that channel to the approved state; no audited pointer event of the channel that is
  not superseded is newer.
\<close>

theorem active_record_is_approved:
  assumes "active kind name channel records ps = Some r"
  shows "r \<in> set records \<and> rr_kind r = kind \<and> rr_name r = name \<and>
    (\<exists>ev \<in> set ps. pe_audit_id ev \<noteq> [] \<and> (pe_op ev = PO_Promote \<or> pe_op ev = PO_Rollback) \<and>
       pe_to_state ev = AS_Approved \<and> pe_channel ev = channel \<and> pe_kind ev = kind \<and> pe_name ev = name \<and>
       pe_target_digest ev = rr_content_digest r \<and>
       (\<forall>e \<in> set (pointer_events kind name channel ps).
          pe_audit_id e \<noteq> [] \<and> pe_promotion_id e \<notin> set (superseded (pointer_events kind name channel ps)) \<longrightarrow>
          event_key e \<le> event_key ev))"
proof (rule active_Some [OF assms])
  fix ev
  assume ev: "ev \<in> set ps" "audited ev" "pe_op ev = PO_Promote \<or> pe_op ev = PO_Rollback"
      "pe_to_state ev = AS_Approved" "pe_channel ev = channel" "pe_kind ev = kind" "pe_name ev = name"
      "pe_target_digest ev = rr_content_digest r" "r \<in> set records" "rr_kind r = kind" "rr_name r = name"
      "\<And>e. e \<in> set (contenders (pointer_events kind name channel ps)) \<Longrightarrow> event_key e \<le> event_key ev"
  show ?thesis
    using ev by (intro conjI bexI [of _ ev]) (auto simp: audited_def contenders_def)
qed

theorem active_record_is_approved_witness:
  "\<exists>ev \<in> set [ex_promotion]. pe_audit_id ev \<noteq> [] \<and> pe_target_digest ev = rr_content_digest ex_reg_record"
  using active_record_is_approved [OF ex_active] by blast

text \<open>
  The integrity check reports nothing exactly when every promotion is audited and every promotion or rollback
  points at a stored record; and then every channel whose newest binding pointer event is an approving promotion or
  rollback has a live record.
\<close>

lemma clean_registry_has_no_dangling_pointer:
  assumes "verify_registry records ps = []"
  shows "(\<forall>e \<in> set ps. pe_audit_id e \<noteq> [] \<and> (pe_op e = PO_Promote \<or> pe_op e = PO_Rollback \<longrightarrow> resolves records e)) \<and>
    (binding_event (pointer_events kind name channel ps) = Some ev \<and> pe_op ev \<noteq> PO_Retire \<and> pe_to_state ev = AS_Approved \<longrightarrow>
     active kind name channel records ps \<noteq> None)"
proof
  show all: "\<forall>e \<in> set ps. pe_audit_id e \<noteq> [] \<and> (pe_op e = PO_Promote \<or> pe_op e = PO_Rollback \<longrightarrow> resolves records e)"
    using assms by (simp add: verify_registry_sound audited_def)
  show "binding_event (pointer_events kind name channel ps) = Some ev \<and> pe_op ev \<noteq> PO_Retire \<and> pe_to_state ev = AS_Approved \<longrightarrow>
     active kind name channel records ps \<noteq> None"
  proof
    assume ev: "binding_event (pointer_events kind name channel ps) = Some ev \<and> pe_op ev \<noteq> PO_Retire \<and> pe_to_state ev = AS_Approved"
    then have "ev \<in> set (pointer_events kind name channel ps)" using promo.winner_mem by blast
    with ev all have "resolves records ev" "pe_kind ev = kind" "pe_name ev = name"
      by (auto simp: pointer_events_def pointer_op_def split: PromotionOp.splits)
    with ev show "active kind name channel records ps \<noteq> None"
      by (auto simp: active_eq resolves_def list_ex_iff find_None_iff)
  qed
qed

lemma clean_registry_has_no_dangling_pointer_example:
  "active RK_Policy ''deny-raw'' ''live'' [ex_reg_record] [ex_promotion] \<noteq> None"
  using clean_registry_has_no_dangling_pointer [of "[ex_reg_record]" "[ex_promotion]" RK_Policy "''deny-raw''" "''live''" ex_promotion]
    ex_binding
  by (simp add: ex_promotion_def ex_reg_record_def resolves_def)

text \<open>
  The digest input frames its parts injectively: no two different lists of parts are hashed as the same bytes. In
  particular a single part is never hashed as its own bytes.
\<close>

lemma digest_framing_injective:
  assumes "list_all (\<lambda>p. length p < 2 ^ 64) ps" "list_all (\<lambda>p. length p < 2 ^ 64) qs"
  shows "(frame_bytes ps = frame_bytes qs \<longleftrightarrow> ps = qs) \<and> frame_bytes [p] \<noteq> p"
proof
  show "frame_bytes ps = frame_bytes qs \<longleftrightarrow> ps = qs"
    by (rule frame_bytes_inj) (use assms in \<open>simp_all add: list_all_iff part_ok_def\<close>)
  have "length (frame_bytes [p]) = 8 + length p" by (simp add: frame_bytes_def)
  then show "frame_bytes [p] \<noteq> p" by auto
qed

section \<open>Retention\<close>

text \<open>
  Expiry deletes exactly the archives that end at or before the cutoff and are under no legal hold; those under a
  hold are reported, not deleted; and no archive it touches overlaps the retained range from the cutoff on.
\<close>

lemma expiry_respects_holds_and_cutoff:
  "(a \<in> set (fst (expired_archives as cutoff)) \<longleftrightarrow> a \<in> set as \<and> ca_end_us a \<le> cutoff \<and> \<not> ca_legal_hold a) \<and>
   (a \<in> set (snd (expired_archives as cutoff)) \<longleftrightarrow> a \<in> set as \<and> ca_end_us a \<le> cutoff \<and> ca_legal_hold a) \<and>
   \<not> list_ex (\<lambda>a. overlaps a (Some cutoff) to_us) (fst (expired_archives as cutoff) @ snd (expired_archives as cutoff))"
  by (auto simp: expired_archives_filter list_ex_iff overlaps_def is_none_or_def)

text \<open>
  C15. Pruning keeps and deletes every backup exactly once, keeps the requested number (one more at most), and if any
  backup at all is healthy then a healthy one is kept. While a backup within the requested number is healthy, no deleted
  backup is newer than a kept one.
\<close>

theorem pruning_keeps_a_recovery_point:
  assumes "n \<noteq> 0"
  shows "\<exists>k d. mset k + mset d = mset bs \<and> pp_keep (plan_prune bs n) = map be_id k \<and>
      mset (pp_delete (plan_prune bs n)) = mset (map be_id d) \<and>
      min n (length bs) \<le> length k \<and> length k \<le> Suc n \<and>
      ((\<exists>b \<in> set bs. \<not> be_degraded b) \<longrightarrow> (\<exists>h \<in> set k. \<not> be_degraded h)) \<and>
      (list_ex (\<lambda>b. \<not> be_degraded b) (take n (sort_key (\<lambda>b. (- be_created_at_us b, be_id b)) bs)) \<longrightarrow>
       (\<forall>x \<in> set k. \<forall>y \<in> set d. be_created_at_us y \<le> be_created_at_us x))"
  by (rule plan_prune_entries [OF assms, of bs]) blast

theorem pruning_keeps_a_recovery_point_witness:
  "\<exists>k d. mset k + mset d = mset [\<lparr>be_id = ''old'', be_created_at_us = 1, be_degraded = False\<rparr>,
        \<lparr>be_id = ''new'', be_created_at_us = 2, be_degraded = True\<rparr>] \<and> (\<exists>h \<in> set k. \<not> be_degraded h)"
  using pruning_keeps_a_recovery_point [of 1 "[\<lparr>be_id = ''old'', be_created_at_us = 1, be_degraded = False\<rparr>,
        \<lparr>be_id = ''new'', be_created_at_us = 2, be_degraded = True\<rparr>]"]
  by fastforce

text \<open>A deletion counts as complete although the remote copy is known to be still there.\<close>

lemma is_complete_despite_remote:
  "cd_local_removed d \<Longrightarrow> cd_remote_removed d = Some False \<Longrightarrow> is_complete d"
  by (simp add: is_complete_def)

end
