(* ===== verification/Egress.thy ===== *)
theory Egress
  imports Std_Net
begin

text \<open>
  The egress chokepoint (\<open>crates/garmr-core/src/egress.rs\<close>): every outbound client asks \<open>check\<close> for
  permission. The decision is a function of the policy and the destination; \<open>check\<close> returns, beside its
  result, what it reports to the audit sink.
\<close>

section \<open>Data\<close>

datatype EgressClass =
    EC_LlmExternal | EC_LlmLocal | EC_IocFeed | EC_Notify | EC_ObjectStore | EC_McpRemote | EC_Telemetry
  | EC_ModelDownload | EC_UpdateCheck | EC_Idp

fun egress_class_str :: "EgressClass \<Rightarrow> string" where
  "egress_class_str EC_LlmExternal = ''llm_external''"
| "egress_class_str EC_LlmLocal = ''llm_local''"
| "egress_class_str EC_IocFeed = ''ioc_feed''"
| "egress_class_str EC_Notify = ''notify''"
| "egress_class_str EC_ObjectStore = ''object_store''"
| "egress_class_str EC_McpRemote = ''mcp_remote''"
| "egress_class_str EC_Idp = ''idp''"
| "egress_class_str EC_Telemetry = ''telemetry''"
| "egress_class_str EC_ModelDownload = ''model_download''"
| "egress_class_str EC_UpdateCheck = ''update_check''"

record EgressDenied =
  ed_class :: EgressClass
  ed_host :: string
  ed_reason :: string

definition display_denied :: "EgressDenied \<Rightarrow> string" where
  "display_denied e =
     ''egress denied ['' @ egress_class_str (ed_class e) @ ''] to '' @ ed_host e @ '': '' @ ed_reason e"

datatype EgressDecision = ED_Allow | ED_Deny string

record EgressConfig =
  ec_allow :: "string list"

text \<open>\<open>ep_audit\<close> says whether an audit sink is installed.\<close>

record EgressPolicy =
  ep_airgap :: bool
  ep_allow :: "string list"
  ep_audit :: bool

definition EgressPolicy_new :: "bool \<Rightarrow> EgressConfig \<Rightarrow> EgressPolicy" where
  "EgressPolicy_new airgap cfg = \<lparr>ep_airgap = airgap, ep_allow = ec_allow cfg, ep_audit = False\<rparr>"

definition permissive :: EgressPolicy where
  "permissive = \<lparr>ep_airgap = False, ep_allow = [], ep_audit = False\<rparr>"

definition airgap_policy :: EgressPolicy where
  "airgap_policy = \<lparr>ep_airgap = True, ep_allow = [], ep_audit = False\<rparr>"

definition with_audit :: "EgressPolicy \<Rightarrow> EgressPolicy" where
  "with_audit p = p\<lparr>ep_audit := True\<rparr>"

section \<open>Destinations\<close>

text \<open>\<open>str::find\<close>: what follows the first occurrence of \<open>://\<close>.\<close>

fun after_scheme :: "string \<Rightarrow> string option" where
  "after_scheme [] = None"
| "after_scheme (c # s) = (if starts_with (c # s) ''://'' then Some (drop 3 (c # s)) else after_scheme s)"

definition authority_end :: "char \<Rightarrow> bool" where
  "authority_end c \<longleftrightarrow> c \<in> {CHR ''/'', CHR ''?'', CHR ''#'', CHR 0x5C}"

definition host_of :: "string \<Rightarrow> string option" where
  "host_of dest =
     (let s = trim dest
      in if s = [] then None
         else
           (let rest = (case after_scheme s of Some r \<Rightarrow> r | None \<Rightarrow> s);
                authority = takeWhile (\<lambda>c. \<not> authority_end c) rest
            in if authority = [] then None
               else
                 (let host_port = rev (takeWhile (\<lambda>c. c \<noteq> CHR ''@'') (rev authority))
                  in if host_port = [] then None
                     else if hd host_port = CHR ''[''
                     then (let h = takeWhile (\<lambda>c. c \<noteq> CHR '']'') (tl host_port) in if h = [] then None else Some h)
                     else if 2 \<le> length (filter (\<lambda>c. c = CHR '':'') host_port) then Some host_port
                     else (let h = takeWhile (\<lambda>c. c \<noteq> CHR '':'') host_port in if h = [] then None else Some h))))"

definition v4_is_local :: "u8 \<Rightarrow> u8 \<Rightarrow> bool" where
  "v4_is_local a b \<longleftrightarrow> v4_is_loopback a \<or> v4_is_private a b \<or> v4_is_link_local a b"

fun ip_is_local :: "IpAddr \<Rightarrow> bool" where
  "ip_is_local (V4 a b c d) = v4_is_local a b"
| "ip_is_local (V6 gs) =
     (case to_ipv4_mapped gs of
        Some (a, b) \<Rightarrow> v4_is_local a b
      | None \<Rightarrow> v6_is_loopback gs \<or> hd gs AND 0xFE00 = 0xFC00 \<or> hd gs AND 0xFFC0 = 0xFE80)"

definition is_local :: "string \<Rightarrow> bool" where
  "is_local host =
     (let h = trim host
      in if h = [] then False
         else
           (let hl = to_ascii_lowercase h
            in if hl = ''localhost'' \<or> ends_with hl ''.localhost'' then True
               else (case parse_ip h of Some ip \<Rightarrow> ip_is_local ip | None \<Rightarrow> False)))"

section \<open>The policy\<close>

definition allow_matches :: "EgressPolicy \<Rightarrow> string \<Rightarrow> bool" where
  "allow_matches p host =
     (let hl = to_ascii_lowercase host
      in list_ex (\<lambda>a. let al = to_ascii_lowercase (trim a)
                      in al \<noteq> [] \<and> (hl = al \<or> ends_with hl (CHR ''.'' # al))) (ep_allow p))"

definition dest_is_local :: "string \<Rightarrow> bool" where
  "dest_is_local dest = (case host_of dest of Some h \<Rightarrow> is_local h | None \<Rightarrow> False)"

definition decide :: "EgressPolicy \<Rightarrow> EgressClass \<Rightarrow> string \<Rightarrow> EgressDecision" where
  "decide p cls dest =
     (if cls = EC_McpRemote
      then (if ep_airgap p then ED_Deny ''air-gap: external MCP server spawn forbidden''
            else if ep_allow p \<noteq> []
            then ED_Deny ''external MCP server spawn not permitted under an egress allowlist''
            else ED_Allow)
      else if dest_is_local dest then ED_Allow
      else if ep_airgap p then ED_Deny ''air-gap: external egress forbidden''
      else if ep_allow p = [] then ED_Allow
      else (case host_of dest of
              Some h \<Rightarrow> if allow_matches p h then ED_Allow else ED_Deny ''host not in the egress allowlist''
            | None \<Rightarrow> ED_Deny ''host not in the egress allowlist''))"

text \<open>The second component is the call of the audit sink's \<open>on_deny\<close>, if one is made.\<close>

definition check ::
  "EgressPolicy \<Rightarrow> EgressClass \<Rightarrow> string \<Rightarrow> (EgressDenied + unit) \<times> (EgressClass \<times> string \<times> string) option" where
  "check p cls dest =
     (case decide p cls dest of
        ED_Allow \<Rightarrow> (Ok (), None)
      | ED_Deny reason \<Rightarrow>
          (let host = (case host_of dest of Some h \<Rightarrow> h | None \<Rightarrow> ''<unparsed>'')
           in (Err \<lparr>ed_class = cls, ed_host = host, ed_reason = reason\<rparr>,
               if ep_audit p then Some (cls, host, reason) else None)))"

definition airgap_from_env :: "string option \<Rightarrow> bool" where
  "airgap_from_env v \<longleftrightarrow> v \<in> {Some ''1'', Some ''true'', Some ''yes'', Some ''on''}"

section \<open>The process-wide singleton\<close>

record egress_singleton =
  es_policy :: "EgressPolicy option"
  es_fallback :: "EgressPolicy option"

definition init_policy :: "EgressPolicy \<Rightarrow> egress_singleton \<Rightarrow> egress_singleton" where
  "init_policy p st = (case es_policy st of None \<Rightarrow> st\<lparr>es_policy := Some p\<rparr> | Some _ \<Rightarrow> st)"

text \<open>\<open>env\<close> is the value of \<open>GARMR_AIRGAP\<close> at the time of the call.\<close>

definition global_policy :: "string option \<Rightarrow> egress_singleton \<Rightarrow> EgressPolicy \<times> egress_singleton" where
  "global_policy env st =
     (case es_policy st of
        Some p \<Rightarrow> (p, st)
      | None \<Rightarrow>
          (case es_fallback st of
             Some f \<Rightarrow> (f, st)
           | None \<Rightarrow>
               (let f = EgressPolicy_new (airgap_from_env env) \<lparr>ec_allow = []\<rparr>
                in (f, st\<lparr>es_fallback := Some f\<rparr>))))"

section \<open>What a host can contain\<close>

lemma host_of_parts:
  assumes "host_of dest = Some h"
  shows "h \<noteq> [] \<and> list_all (\<lambda>c. \<not> authority_end c \<and> c \<noteq> CHR ''@'') h"
proof -
  define authority where "authority = takeWhile (\<lambda>c. \<not> authority_end c)
    (case after_scheme (trim dest) of Some r \<Rightarrow> r | None \<Rightarrow> trim dest)"
  define hp where "hp = rev (takeWhile (\<lambda>c. c \<noteq> CHR ''@'') (rev authority))"
  have hp: "\<not> authority_end c \<and> c \<noteq> CHR ''@''" if "c \<in> set hp" for c
    using that unfolding hp_def authority_def by (auto dest!: set_takeWhileD)
  have "h \<noteq> [] \<and> set h \<subseteq> set hp"
    using assms unfolding host_of_def Let_def authority_def [symmetric] hp_def [symmetric]
    by (cases hp) (auto split: if_splits dest!: set_takeWhileD)
  with hp show ?thesis by (auto simp: list_all_iff)
qed

text \<open>
  The host of a URL with user information, port and path is the host: what precedes the last \<open>@\<close> of the
  authority and what follows the authority play no part.
\<close>

lemma after_scheme_url: "CHR '':'' \<notin> set scheme \<Longrightarrow> after_scheme (scheme @ ''://'' @ rest) = Some rest"
proof (induction scheme)
  case Nil
  then show ?case by (simp add: starts_with_def)
next
  case (Cons c s)
  then have "\<not> starts_with (c # s @ ''://'' @ rest) ''://''" by (auto simp: starts_with_def)
  with Cons show ?case by simp
qed

lemma takeWhile_all_then:
  "list_all P xs \<Longrightarrow> ys = [] \<or> \<not> P (hd ys) \<Longrightarrow> takeWhile P (xs @ ys) = xs"
  by (induction xs) (auto simp: takeWhile_eq_Nil_iff)

definition plain_host :: "string \<Rightarrow> bool" where
  "plain_host h \<longleftrightarrow> h \<noteq> [] \<and> hd h \<noteq> CHR ''['' \<and>
     list_all (\<lambda>c. \<not> authority_end c \<and> c \<noteq> CHR ''@'' \<and> c \<noteq> CHR '':'') h"

definition port_part :: "string \<Rightarrow> bool" where
  "port_part p \<longleftrightarrow> p = [] \<or> hd p = CHR '':'' \<and>
     list_all (\<lambda>c. \<not> authority_end c \<and> c \<noteq> CHR ''@'' \<and> c \<noteq> CHR '':'') (tl p)"

lemma host_of_url:
  assumes "CHR '':'' \<notin> set scheme" "list_all (\<lambda>c. \<not> authority_end c) user" "plain_host h" "port_part port"
    and "tail = [] \<or> authority_end (hd tail)"
    and "dest = scheme @ ''://'' @ user @ ''@'' @ h @ port @ tail" "trim dest = dest"
  shows "host_of dest = Some h"
proof -
  let ?auth = "user @ ''@'' @ h @ port"
  have port: "list_all (\<lambda>c. \<not> authority_end c \<and> c \<noteq> CHR ''@'') port" "list_all (\<lambda>c. c \<noteq> CHR '':'') (tl port)"
      "port = [] \<or> hd port = CHR '':''"
  proof -
    have colon: "\<not> authority_end CHR '':''" by (simp add: authority_end_def)
    show "list_all (\<lambda>c. \<not> authority_end c \<and> c \<noteq> CHR ''@'') port"
      using assms(4) colon by (cases port) (auto simp: port_part_def list_all_iff)
    show "list_all (\<lambda>c. c \<noteq> CHR '':'') (tl port)" "port = [] \<or> hd port = CHR '':''"
      using assms(4) by (auto simp: port_part_def list_all_iff)
  qed
  have h: "h \<noteq> []" "hd h \<noteq> CHR ''[''" "list_all (\<lambda>c. c \<noteq> CHR '':'') h"
      "list_all (\<lambda>c. \<not> authority_end c \<and> c \<noteq> CHR ''@'') h"
    using assms(3) by (auto simp: plain_host_def list_all_iff)
  have at: "\<not> authority_end CHR ''@''" by (simp add: authority_end_def)
  have "list_all (\<lambda>c. \<not> authority_end c) ?auth"
    using assms(2) h(4) port(1) at by (auto simp: list_all_iff)
  from takeWhile_all_then [OF this, of tail] assms(5)
  have auth: "takeWhile (\<lambda>c. \<not> authority_end c) (user @ ''@'' @ h @ port @ tail) = ?auth" by simp
  have "list_all (\<lambda>c. c \<noteq> CHR ''@'') (rev (h @ port))" using h(4) port(1) by (auto simp: list_all_iff)
  from takeWhile_all_then [OF this, of "CHR ''@'' # rev user"]
  have hp: "rev (takeWhile (\<lambda>c. c \<noteq> CHR ''@'') (rev ?auth)) = h @ port" by simp
  have "length (filter (\<lambda>c. c = CHR '':'') port) \<le> 1"
    using port(2) by (cases port) (auto simp: list_all_iff filter_empty_conv)
  moreover have "filter (\<lambda>c. c = CHR '':'') h = []" using h(3) by (auto simp: list_all_iff filter_empty_conv)
  ultimately have colons: "\<not> 2 \<le> length (filter (\<lambda>c. c = CHR '':'') (h @ port))" by simp
  have host: "takeWhile (\<lambda>c. c \<noteq> CHR '':'') (h @ port) = h"
    by (rule takeWhile_all_then [OF h(3)]) (use port(3) in auto)
  have dest: "trim dest \<noteq> []" "after_scheme (trim dest) = Some (user @ ''@'' @ h @ port @ tail)"
    using assms(6,7) after_scheme_url [OF assms(1)] by simp_all
  show ?thesis
    unfolding host_of_def Let_def dest(2) option.case auth hp host using dest(1) h colons by simp
qed

section \<open>Decisions\<close>

lemma airgap_allows_only_local:
  "ep_airgap p \<Longrightarrow> decide p cls dest = ED_Allow \<longleftrightarrow> cls \<noteq> EC_McpRemote \<and> dest_is_local dest"
  by (simp add: decide_def)

lemma dest_is_local_host: "dest_is_local dest \<Longrightarrow> \<exists>h. host_of dest = Some h \<and> is_local h"
  by (auto simp: dest_is_local_def split: option.splits)

text \<open>A tighter policy never allows more.\<close>

definition tighter :: "EgressPolicy \<Rightarrow> EgressPolicy \<Rightarrow> bool" where
  "tighter p q \<longleftrightarrow> (ep_airgap q \<longrightarrow> ep_airgap p) \<and>
     (ep_airgap p \<or> ep_allow q = [] \<or> ep_allow p \<noteq> [] \<and> set (ep_allow p) \<subseteq> set (ep_allow q)) \<and>
     (ep_allow q \<noteq> [] \<longrightarrow> ep_airgap p \<or> ep_allow p \<noteq> [])"

lemma decide_mono:
  assumes "tighter p q" "decide p cls dest = ED_Allow"
  shows "decide q cls dest = ED_Allow"
proof (cases "cls = EC_McpRemote \<or> dest_is_local dest")
  case True
  with assms show ?thesis by (auto simp: decide_def tighter_def split: if_splits)
next
  case False
  with assms have "\<not> ep_airgap p" by (auto simp: decide_def split: if_splits)
  with assms False show ?thesis
    by (auto simp: decide_def tighter_def allow_matches_def Let_def list_ex_iff split: if_splits option.splits)
qed

lemma check_deny:
  assumes "fst (check p cls dest) = Err e"
  shows "decide p cls dest = ED_Deny (ed_reason e)"
    "ed_host e = ''<unparsed>'' \<or> host_of dest = Some (ed_host e)"
    "snd (check p cls dest) = (if ep_audit p then Some (cls, ed_host e, ed_reason e) else None)"
  using assms by (auto simp: check_def Let_def split: EgressDecision.splits option.splits)

text \<open>Locality of IPv4 destinations is membership in the reserved blocks.\<close>

lemma is_local_dotted: "is_local (dotted a b c d) \<longleftrightarrow> v4_is_local a b"
proof -
  have "dotted a b c d \<noteq> []" by (simp add: dotted_def)
  moreover have last: "last (to_ascii_lowercase (dotted a b c d)) \<noteq> CHR ''t''"
  proof -
    have "last (dotted a b c d) = last (dec (unat d))" "dec (unat d) \<noteq> []"
      using dec_hd_graphic [OF unat_u8 [of d]] by (simp_all add: dotted_def)
    moreover have "last (dec (unat d)) = dec_digit (unat d mod 10)" by (simp add: dec_def)
    moreover have "to_lower_char (dec_digit k) \<noteq> CHR ''t''" if "k < 10" for k
      by (subst of_char_eq_iff [where 'a = nat, symmetric]) (use that in \<open>auto simp: to_lower_char_def\<close>)
    ultimately show ?thesis
      using \<open>dotted a b c d \<noteq> []\<close> by (auto simp: to_ascii_lowercase_def last_map)
  qed
  then have "to_ascii_lowercase (dotted a b c d) \<noteq> ''localhost''" by auto
  moreover have "\<not> ends_with (to_ascii_lowercase (dotted a b c d)) ''.localhost''"
  proof
    assume "ends_with (to_ascii_lowercase (dotted a b c d)) ''.localhost''"
    then obtain k where "drop k (to_ascii_lowercase (dotted a b c d)) = ''.localhost''"
      by (auto simp: ends_with_def)
    then have "last (drop k (to_ascii_lowercase (dotted a b c d))) = CHR ''t''" by simp
    moreover have "k < length (to_ascii_lowercase (dotted a b c d))"
      using \<open>drop k _ = _\<close> by (metis drop_all list.distinct(1) not_le)
    ultimately show False using last by (simp add: last_drop)
  qed
  ultimately show ?thesis
    by (simp add: is_local_def Let_def trim_dotted parse_ip_dotted)
qed

section \<open>The singleton\<close>

datatype singleton_op = SInit EgressPolicy | SGlobal "string option"

fun singleton_step :: "egress_singleton \<Rightarrow> singleton_op \<Rightarrow> egress_singleton" where
  "singleton_step st (SInit p) = init_policy p st"
| "singleton_step st (SGlobal e) = snd (global_policy e st)"

lemma singleton_policy:
  "es_policy (foldl singleton_step st ops) =
     (case es_policy st of
        Some p \<Rightarrow> Some p
      | None \<Rightarrow> (case [p. SInit p \<leftarrow> ops] of [] \<Rightarrow> None | p # _ \<Rightarrow> Some p))"
proof (induction ops arbitrary: st)
  case (Cons x ops)
  then show ?case
    by (cases x) (simp_all add: init_policy_def global_policy_def Let_def split: option.split)
qed (simp split: option.split)

end
