(* ===== verification/Auth.thy ===== *)
theory Auth
  imports Garmr_Strings
begin

text \<open>
  Roles, data scopes and bearer-token resolution (\<open>crates/garmr-core/src/auth.rs\<close>). \<open>b3\<close> is BLAKE3 on byte
  strings and \<open>parse\<close> the JSON decoder of the user list.
\<close>

section \<open>Roles\<close>

datatype Role = Viewer | Analyst | Admin

primrec role_rank :: "Role \<Rightarrow> nat" where
  "role_rank Viewer = 0"
| "role_rank Analyst = 1"
| "role_rank Admin = 2"

lemma role_rank_inj [simp]: "role_rank r = role_rank s \<longleftrightarrow> r = s"
  by (cases r; cases s) simp_all

text \<open>The derived \<open>Ord\<close>: declaration order.\<close>

instantiation Role :: linorder
begin

definition less_eq_Role :: "Role \<Rightarrow> Role \<Rightarrow> bool" where
  "less_eq_Role r s \<longleftrightarrow> role_rank r \<le> role_rank s"

definition less_Role :: "Role \<Rightarrow> Role \<Rightarrow> bool" where
  "less_Role r s \<longleftrightarrow> role_rank r < role_rank s"

instance
  by standard (auto simp: less_eq_Role_def less_Role_def dest: antisym)

end

definition role_allows :: "Role \<Rightarrow> Role \<Rightarrow> bool" where
  "role_allows r required \<longleftrightarrow> required \<le> r"

definition role_from_str :: "string \<Rightarrow> string + Role" where
  "role_from_str s =
     (let t = to_ascii_lowercase (trim s)
      in if t \<in> {''viewer'', ''read'', ''readonly'', ''read_only''} then Ok Viewer
         else if t \<in> {''analyst'', ''operator''} then Ok Analyst
         else if t \<in> {''admin'', ''administrator''} then Ok Admin
         else Err (''unknown role: '' @ t @ '' (viewer|analyst|admin)''))"

section \<open>Data scopes\<close>

datatype DataScope = Unrestricted | Sources "string list"

definition scope_from_opt :: "string list option \<Rightarrow> DataScope" where
  "scope_from_opt x = (case x of None \<Rightarrow> Unrestricted | Some l \<Rightarrow> Sources l)"

definition is_unrestricted :: "DataScope \<Rightarrow> bool" where
  "is_unrestricted s \<longleftrightarrow> (case s of Unrestricted \<Rightarrow> True | Sources _ \<Rightarrow> False)"

definition scope_allowed :: "DataScope \<Rightarrow> string list option" where
  "scope_allowed s = (case s of Unrestricted \<Rightarrow> None | Sources l \<Rightarrow> Some l)"

definition allows_source :: "DataScope \<Rightarrow> string \<Rightarrow> bool" where
  "allows_source s src = (case s of Unrestricted \<Rightarrow> True | Sources l \<Rightarrow> list_ex (\<lambda>a. a = src) l)"

definition covers_all :: "DataScope \<Rightarrow> string list \<Rightarrow> bool" where
  "covers_all s req = list_all (allows_source s) req"

section \<open>Tokens\<close>

definition ct_eq :: "(bytes \<Rightarrow> bytes) \<Rightarrow> bytes \<Rightarrow> bytes \<Rightarrow> bool" where
  "ct_eq b3 a b \<longleftrightarrow> foldl (\<lambda>acc (x, y). acc OR (x XOR y)) 0 (zip (b3 a) (b3 b)) = 0"

record Principal =
  pr_user :: string
  pr_role :: Role

record UserToken =
  ut_token :: string
  ut_user :: string
  ut_role :: Role

type_synonym AuthRegistry = "UserToken list"

definition auth_new :: AuthRegistry where
  "auth_new = []"

definition auth_add :: "AuthRegistry \<Rightarrow> string \<Rightarrow> Role \<Rightarrow> string \<Rightarrow> AuthRegistry" where
  "auth_add reg user role token = reg @ [\<lparr>ut_token = token, ut_user = user, ut_role = role\<rparr>]"

datatype auth_error = AuthParse | AuthEmptyToken

definition auth_add_json ::
  "(string \<Rightarrow> UserToken list option) \<Rightarrow> AuthRegistry \<Rightarrow> string \<Rightarrow> (auth_error + nat) \<times> AuthRegistry" where
  "auth_add_json parse reg json =
     (if trim json = [] then (Ok 0, reg)
      else (case parse json of
              None \<Rightarrow> (Err AuthParse, reg)
            | Some l \<Rightarrow>
                if list_ex (\<lambda>u. trim (ut_token u) = []) l then (Err AuthEmptyToken, reg)
                else (Ok (length l), reg @ l)))"

definition principal_of :: "UserToken \<Rightarrow> Principal" where
  "principal_of u = \<lparr>pr_user = ut_user u, pr_role = ut_role u\<rparr>"

definition principals :: "AuthRegistry \<Rightarrow> Principal list" where
  "principals reg = map principal_of reg"

definition auth_resolve :: "(bytes \<Rightarrow> bytes) \<Rightarrow> AuthRegistry \<Rightarrow> string \<Rightarrow> Principal option" where
  "auth_resolve b3 reg presented =
     (if presented = [] then None
      else foldl (\<lambda>found u. if ct_eq b3 (str_bytes presented) (str_bytes (ut_token u))
                           then Some (principal_of u) else found) None reg)"

definition auth_is_empty :: "AuthRegistry \<Rightarrow> bool" where
  "auth_is_empty reg \<longleftrightarrow> reg = []"

definition has_role :: "AuthRegistry \<Rightarrow> Role \<Rightarrow> bool" where
  "has_role reg role \<longleftrightarrow> list_ex (\<lambda>u. role \<le> ut_role u) reg"

section \<open>Comparison\<close>

text \<open>BLAKE3's digests have 32 bytes.\<close>

definition hash32 :: "(bytes \<Rightarrow> bytes) \<Rightarrow> bool" where
  "hash32 b3 \<longleftrightarrow> (\<forall>x. length (b3 x) = 32)"

lemma or_fold_zero:
  "foldl (\<lambda>acc (x, y). acc OR (x XOR y)) a ps = (0 :: u8) \<longleftrightarrow> a = 0 \<and> list_all (\<lambda>(x, y). x = y) ps"
proof (induction ps arbitrary: a)
  case (Cons p ps)
  have "a OR (x XOR y) = 0 \<longleftrightarrow> a = 0 \<and> x = y" for x y
  proof -
    have "x XOR y = 0 \<longleftrightarrow> x = y"
      by (metis xor.assoc xor.right_neutral xor_self_eq xor.left_neutral)
    then show ?thesis by (simp add: or_eq_0_iff)
  qed
  then show ?case
    using Cons.IH by (cases p) simp
qed simp

lemma ct_eq_iff:
  assumes "hash32 b3"
  shows "ct_eq b3 a b \<longleftrightarrow> b3 a = b3 b"
proof -
  have "length (b3 a) = length (b3 b)" using assms by (simp add: hash32_def)
  then have "list_all (\<lambda>(x, y). x = y) (zip (b3 a) (b3 b)) \<longleftrightarrow> b3 a = b3 b"
    by (auto simp: list_all_length list_eq_iff_nth_eq)
  then show ?thesis by (simp add: ct_eq_def or_fold_zero)
qed

section \<open>The contract of a token registry\<close>

text \<open>
  The interface both token registries implement: \<open>resolve\<close> answers a presented secret, \<open>grants\<close> says for
  which identity an entry of the registry vouches under that secret.
\<close>

locale authenticator =
  fixes resolve :: "'r \<Rightarrow> string \<Rightarrow> 'p option" and grants :: "'r \<Rightarrow> string \<Rightarrow> 'p \<Rightarrow> bool"
  assumes resolve_empty: "resolve reg [] = None"
    and resolve_grants: "resolve reg t = Some p \<Longrightarrow> grants reg t p"
    and grants_resolve: "t \<noteq> [] \<Longrightarrow> grants reg t p \<Longrightarrow> resolve reg t \<noteq> None"
begin

lemma resolve_None_iff: "resolve reg t = None \<longleftrightarrow> t = [] \<or> (\<forall>p. \<not> grants reg t p)"
  using resolve_empty resolve_grants grants_resolve by (metis option.exhaust)

lemma resolve_mono:
  assumes "\<And>p. grants reg t p \<Longrightarrow> grants reg' t p" "resolve reg' t = None"
  shows "resolve reg t = None"
  using assms by (auto simp: resolve_None_iff)

end

definition auth_grants :: "(bytes \<Rightarrow> bytes) \<Rightarrow> AuthRegistry \<Rightarrow> string \<Rightarrow> Principal \<Rightarrow> bool" where
  "auth_grants b3 reg t p \<longleftrightarrow>
     list_ex (\<lambda>u. ct_eq b3 (str_bytes t) (str_bytes (ut_token u)) \<and> principal_of u = p) reg"

lemma auth_resolve_find:
  "auth_resolve b3 reg t =
     (if t = [] then None
      else map_option principal_of (find (\<lambda>u. ct_eq b3 (str_bytes t) (str_bytes (ut_token u))) (rev reg)))"
  by (simp add: auth_resolve_def foldl_last_match split: option.split)

interpretation users: authenticator "auth_resolve b3" "auth_grants b3"
proof
  show "auth_resolve b3 reg [] = None" for reg
    by (simp add: auth_resolve_def)
  show "auth_resolve b3 reg t = Some p \<Longrightarrow> auth_grants b3 reg t p" for reg t p
    by (auto simp: auth_resolve_find auth_grants_def list_ex_iff find_Some_iff split: if_splits)
      (metis nth_mem set_rev length_rev)
  show "t \<noteq> [] \<Longrightarrow> auth_grants b3 reg t p \<Longrightarrow> auth_resolve b3 reg t \<noteq> None" for reg t p
    by (auto simp: auth_resolve_find auth_grants_def list_ex_iff find_None_iff)
qed

text \<open>Tokens from configuration are never blank.\<close>

lemma auth_add_json_tokens:
  assumes "auth_add_json parse reg json = (Ok n, reg')"
  shows "\<exists>l. reg' = reg @ l \<and> length l = n \<and> list_all (\<lambda>u. trim (ut_token u) \<noteq> []) l"
  using assms by (auto simp: auth_add_json_def list_ex_iff list_all_iff split: if_splits option.splits)

end
