(* ===== verification/Collector.thy ===== *)
theory Collector
  imports Auth Std_Net Audit_Segment
begin

text \<open>
  Authenticated collectors (\<open>crates/garmr-core/src/collector.rs\<close>): the registry of plaintext and minted
  credentials, minting, the registry file, and the hot-swappable shared registry. \<open>b3\<close> and \<open>kd\<close> are BLAKE3
  and its keyed mode, \<open>parse\<close> the JSON decoders.
\<close>

section \<open>Credentials\<close>

record Collector =
  co_id :: string
  co_token :: string
  co_sources :: "string list"

definition may_assert :: "Collector \<Rightarrow> string \<Rightarrow> bool" where
  "may_assert c src \<longleftrightarrow> co_sources c = [] \<or> list_ex (\<lambda>s. s = src) (co_sources c)"

definition trusted_source_id :: "Collector \<Rightarrow> string" where
  "trusted_source_id c = co_id c"

record CollectorRecord =
  rc_id :: string
  rc_digest_hex :: "string option"
  rc_sources :: "string list"
  rc_created_at :: int
  rc_expires_at :: "int option"
  rc_revoked :: bool
  rc_fingerprint :: string

definition is_active :: "CollectorRecord \<Rightarrow> int \<Rightarrow> bool" where
  "is_active r now \<longleftrightarrow> \<not> rc_revoked r \<and> (case rc_expires_at r of None \<Rightarrow> True | Some e \<Rightarrow> now < e)"

definition inactive_reason :: "CollectorRecord \<Rightarrow> int \<Rightarrow> string option" where
  "inactive_reason r now =
     (if rc_revoked r then Some ''revoked''
      else if (case rc_expires_at r of None \<Rightarrow> False | Some e \<Rightarrow> e \<le> now) then Some ''expired'' else None)"

section \<open>Hexadecimal\<close>

definition hex_byte :: "u8 \<Rightarrow> string" where
  "hex_byte b = [hex_char (unat b div 16), hex_char (unat b mod 16)]"

definition hex :: "bytes \<Rightarrow> string" where
  "hex b = concat (map hex_byte b)"

fun unhex_pairs :: "string \<Rightarrow> bytes option" where
  "unhex_pairs (a # b # rest) =
     (case to_digit 16 a of None \<Rightarrow> None | Some hi \<Rightarrow>
     (case to_digit 16 b of None \<Rightarrow> None | Some lo \<Rightarrow>
     (case unhex_pairs rest of None \<Rightarrow> None | Some bs \<Rightarrow> Some (of_nat (hi * 16 + lo) # bs))))"
| "unhex_pairs _ = Some []"

definition unhex :: "string \<Rightarrow> bytes option" where
  "unhex s = (if length s \<noteq> 64 then None else unhex_pairs s)"

section \<open>The registry\<close>

record CollectorRegistry =
  cr_collectors :: "Collector list"
  cr_records :: "CollectorRecord list"
  cr_digest_key :: "bytes option"
  cr_bridged :: "Collector list"

definition registry_new :: CollectorRegistry where
  "registry_new = \<lparr>cr_collectors = [], cr_records = [], cr_digest_key = None, cr_bridged = []\<rparr>"

definition registry_is_empty :: "CollectorRegistry \<Rightarrow> bool" where
  "registry_is_empty reg \<longleftrightarrow> cr_collectors reg = [] \<and> cr_records reg = []"

definition registry_len :: "CollectorRegistry \<Rightarrow> nat" where
  "registry_len reg = length (cr_collectors reg) + length (cr_records reg)"

definition registry_add_json ::
  "(string \<Rightarrow> Collector list option) \<Rightarrow> CollectorRegistry \<Rightarrow> string \<Rightarrow> (auth_error + nat) \<times> CollectorRegistry" where
  "registry_add_json parse reg json =
     (if trim json = [] then (Ok 0, reg)
      else (case parse json of
              None \<Rightarrow> (Err AuthParse, reg)
            | Some l \<Rightarrow>
                if list_ex (\<lambda>c. trim (co_token c) = []) l then (Err AuthEmptyToken, reg)
                else (Ok (length l), reg\<lparr>cr_collectors := cr_collectors reg @ l\<rparr>)))"

definition contains_id :: "CollectorRegistry \<Rightarrow> string \<Rightarrow> bool" where
  "contains_id reg i \<longleftrightarrow>
     list_ex (\<lambda>c. co_id c = i) (cr_collectors reg) \<or> list_ex (\<lambda>r. rc_id r = i) (cr_records reg)"

definition bridge :: "CollectorRecord \<Rightarrow> Collector" where
  "bridge r = \<lparr>co_id = rc_id r, co_token = [], co_sources = rc_sources r\<rparr>"

definition load_records :: "CollectorRegistry \<Rightarrow> bytes \<Rightarrow> CollectorRecord list \<Rightarrow> CollectorRegistry" where
  "load_records reg key records =
     reg\<lparr>cr_digest_key := Some key, cr_bridged := map bridge records, cr_records := records\<rparr>"

text \<open>The stored digest of a record that the presented one matches.\<close>

definition record_matches :: "(bytes \<Rightarrow> bytes) \<Rightarrow> bytes \<Rightarrow> CollectorRecord \<Rightarrow> bool" where
  "record_matches b3 digest r =
     (case Option.bind (rc_digest_hex r) unhex of None \<Rightarrow> False | Some stored \<Rightarrow> ct_eq b3 digest stored)"

definition resolve_at ::
  "(bytes \<Rightarrow> bytes) \<Rightarrow> (bytes \<Rightarrow> bytes \<Rightarrow> bytes) \<Rightarrow> CollectorRegistry \<Rightarrow> string \<Rightarrow> int \<Rightarrow> Collector option" where
  "resolve_at b3 kd reg presented now =
     (if presented = [] then None
      else
        (let found = foldl (\<lambda>found c. if ct_eq b3 (str_bytes presented) (str_bytes (co_token c)) then Some c else found)
                       None (cr_collectors reg)
         in case cr_digest_key reg of
              None \<Rightarrow> found
            | Some key \<Rightarrow>
                (let digest = kd key (str_bytes presented)
                 in foldl (\<lambda>found (i, r).
                       if record_matches b3 digest r \<and> is_active r now
                       then (if i < length (cr_bridged reg) then Some (cr_bridged reg ! i) else found)
                       else found) found (List.enumerate 0 (cr_records reg)))))"

section \<open>Minting\<close>

record Minted =
  mi_record :: CollectorRecord
  mi_token :: string

text \<open>\<open>raw\<close>: the 32 bytes of the two random UUIDs.\<close>

definition mint ::
  "(bytes \<Rightarrow> bytes \<Rightarrow> bytes) \<Rightarrow> string \<Rightarrow> string list \<Rightarrow> int option \<Rightarrow> bytes \<Rightarrow> int \<Rightarrow> bytes \<Rightarrow> string + Minted" where
  "mint kd i sources expires_at key now raw =
     (if trim i = [] then Err ''collector id must not be empty''
      else
        (let token = hex raw;
             digest_hex = hex (kd key (str_bytes token))
         in Ok \<lparr>mi_record = \<lparr>rc_id = i, rc_digest_hex = Some digest_hex, rc_sources = sources, rc_created_at = now,
                             rc_expires_at = expires_at, rc_revoked = False, rc_fingerprint = take 12 digest_hex\<rparr>,
                mi_token = token\<rparr>))"

section \<open>The file and the shared registry\<close>

record CollectorFile =
  cf_version :: u32
  cf_collectors :: "CollectorRecord list"

definition COLLECTOR_FILE_VERSION :: u32 where
  "COLLECTOR_FILE_VERSION = 1"

definition CollectorFile_new :: CollectorFile where
  "CollectorFile_new = \<lparr>cf_version = COLLECTOR_FILE_VERSION, cf_collectors = []\<rparr>"

datatype file_error = FileParse | FileTooNew u32

definition CollectorFile_parse :: "(bytes \<Rightarrow> CollectorFile option) \<Rightarrow> bytes \<Rightarrow> file_error + CollectorFile" where
  "CollectorFile_parse parse b =
     (case parse b of
        None \<Rightarrow> Err FileParse
      | Some f \<Rightarrow> if COLLECTOR_FILE_VERSION < cf_version f then Err (FileTooNew (cf_version f)) else Ok f)"

record SharedCollectors =
  sc_enabled :: bool
  sc_inner :: CollectorRegistry

definition shared_new :: "CollectorRegistry \<Rightarrow> SharedCollectors" where
  "shared_new initial = \<lparr>sc_enabled = (\<not> registry_is_empty initial), sc_inner = initial\<rparr>"

definition shared_get :: "SharedCollectors \<Rightarrow> CollectorRegistry" where
  "shared_get s = sc_inner s"

definition swap :: "SharedCollectors \<Rightarrow> CollectorRegistry \<Rightarrow> SharedCollectors" where
  "swap s nxt = s\<lparr>sc_inner := nxt\<rparr>"

section \<open>The registry invariant\<close>

text \<open>The bridged collectors are aligned with the records, and nothing is minted without a key.\<close>

definition registry_inv :: "CollectorRegistry \<Rightarrow> bool" where
  "registry_inv reg \<longleftrightarrow> cr_bridged reg = map bridge (cr_records reg) \<and>
     (cr_digest_key reg = None \<longrightarrow> cr_records reg = [])"

lemma registry_inv_new: "registry_inv registry_new"
  by (simp add: registry_inv_def registry_new_def)

lemma registry_inv_add_json: "registry_inv reg \<Longrightarrow> registry_inv (snd (registry_add_json parse reg json))"
  by (auto simp: registry_inv_def registry_add_json_def split: option.split)

lemma registry_inv_load: "registry_inv (load_records reg key records)"
  by (simp add: registry_inv_def load_records_def)

text \<open>How a registry is built, as a step relation.\<close>

inductive built :: "CollectorRegistry \<Rightarrow> bool" where
  built_new: "built registry_new"
| built_json: "built reg \<Longrightarrow> built (snd (registry_add_json parse reg json))"
| built_load: "built reg \<Longrightarrow> built (load_records reg key records)"

lemma built_inv: "built reg \<Longrightarrow> registry_inv reg"
  by (induction rule: built.induct) (simp_all add: registry_inv_new registry_inv_add_json registry_inv_load)

section \<open>Resolution\<close>

definition minted_match :: "(bytes \<Rightarrow> bytes) \<Rightarrow> (bytes \<Rightarrow> bytes \<Rightarrow> bytes) \<Rightarrow> CollectorRegistry \<Rightarrow> string \<Rightarrow> int \<Rightarrow>
    CollectorRecord \<Rightarrow> bool" where
  "minted_match b3 kd reg t now r \<longleftrightarrow>
     (case cr_digest_key reg of None \<Rightarrow> False | Some key \<Rightarrow> record_matches b3 (kd key (str_bytes t)) r \<and> is_active r now)"

definition plain_match :: "(bytes \<Rightarrow> bytes) \<Rightarrow> string \<Rightarrow> Collector \<Rightarrow> bool" where
  "plain_match b3 t c \<longleftrightarrow> ct_eq b3 (str_bytes t) (str_bytes (co_token c))"

text \<open>The scan of the minted records with the index-aligned lookup.\<close>

definition scan_minted :: "('r \<Rightarrow> bool) \<Rightarrow> 'c list \<Rightarrow> 'c option \<Rightarrow> (nat \<times> 'r) list \<Rightarrow> 'c option" where
  "scan_minted P bs init es =
     foldl (\<lambda>found (i, r). if P r then (if i < length bs then Some (bs ! i) else found) else found) init es"

lemma scan_minted_snoc [simp]:
  "scan_minted P bs init (es @ [(i, r)]) =
     (if P r \<and> i < length bs then Some (bs ! i) else scan_minted P bs init es)"
  "scan_minted P bs init [] = init"
  by (simp_all add: scan_minted_def)

lemma scan_minted_Some:
  "scan_minted P bs init es = Some x \<Longrightarrow>
     init = Some x \<or> (\<exists>i r. (i, r) \<in> set es \<and> P r \<and> i < length bs \<and> x = bs ! i)"
proof (induction es rule: rev_induct)
  case (snoc e es)
  then show ?case by (cases e) (auto split: if_splits)
qed simp

lemma scan_minted_None:
  "scan_minted P bs init es = None \<longleftrightarrow> init = None \<and> (\<forall>i r. (i, r) \<in> set es \<longrightarrow> P r \<longrightarrow> length bs \<le> i)"
proof (induction es rule: rev_induct)
  case (snoc e es)
  then show ?case by (cases e) auto
qed simp

lemma scan_minted_bridged:
  "scan_minted P (map f (xs @ ys)) init (List.enumerate 0 xs) =
     (case find P (rev xs) of None \<Rightarrow> init | Some r \<Rightarrow> Some (f r))"
proof (induction xs arbitrary: ys rule: rev_induct)
  case (snoc x xs)
  from snoc.IH [of "x # ys"] show ?case
    by (simp add: enumerate_append_eq nth_append)
qed simp

lemma resolve_at_scan:
  "resolve_at b3 kd reg t now =
     (if t = [] then None
      else scan_minted (minted_match b3 kd reg t now) (cr_bridged reg) (find (plain_match b3 t) (rev (cr_collectors reg)))
             (List.enumerate 0 (cr_records reg)))"
proof (cases "cr_digest_key reg")
  case None
  have "scan_minted (minted_match b3 kd reg t now) bs init es = init" for bs :: "Collector list" and init es
    by (induction es rule: rev_induct) (auto simp: scan_minted_def minted_match_def None)
  with None show ?thesis
    by (simp add: resolve_at_def Let_def plain_match_def [abs_def] foldl_last_match [where g = "\<lambda>c. c"] split: option.split)
next
  case (Some key)
  then show ?thesis
    by (simp add: resolve_at_def Let_def plain_match_def [abs_def] foldl_last_match [where g = "\<lambda>c. c"]
        scan_minted_def minted_match_def split: option.split)
qed

definition collector_grants ::
  "(bytes \<Rightarrow> bytes) \<Rightarrow> (bytes \<Rightarrow> bytes \<Rightarrow> bytes) \<Rightarrow> CollectorRegistry \<times> int \<Rightarrow> string \<Rightarrow> Collector \<Rightarrow> bool" where
  "collector_grants b3 kd regnow t c =
     (case regnow of (reg, now) \<Rightarrow>
        c \<in> set (cr_collectors reg) \<and> plain_match b3 t c \<or>
        (\<exists>i < length (cr_records reg). minted_match b3 kd reg t now (cr_records reg ! i) \<and>
           i < length (cr_bridged reg) \<and> c = cr_bridged reg ! i))"

interpretation collectors: authenticator "\<lambda>(reg, now) t. resolve_at b3 kd reg t now" "collector_grants b3 kd"
proof
  fix regnow :: "CollectorRegistry \<times> int" and t :: string and c :: Collector
  obtain reg now where [simp]: "regnow = (reg, now)" by fastforce
  show "(case regnow of (reg, now) \<Rightarrow> \<lambda>t. resolve_at b3 kd reg t now) [] = None"
    by (simp add: resolve_at_def)
  show "(case regnow of (reg, now) \<Rightarrow> \<lambda>t. resolve_at b3 kd reg t now) t = Some c \<Longrightarrow> collector_grants b3 kd regnow t c"
    by (auto simp: resolve_at_scan collector_grants_def in_set_enumerate_eq find_Some_iff split: if_splits
        dest!: scan_minted_Some) (metis nth_mem set_rev length_rev)
  show "t \<noteq> [] \<Longrightarrow> collector_grants b3 kd regnow t c \<Longrightarrow>
      (case regnow of (reg, now) \<Rightarrow> \<lambda>t. resolve_at b3 kd reg t now) t \<noteq> None"
    by (auto simp: resolve_at_scan collector_grants_def scan_minted_None in_set_enumerate_eq find_None_iff not_le
        dest: spec [where P = "\<lambda>i. \<forall>r. _ i r"])
qed

text \<open>In a well-formed registry the last live minted record wins over the plaintext entries.\<close>

lemma resolve_at_built:
  assumes "registry_inv reg" "t \<noteq> []"
  shows "resolve_at b3 kd reg t now =
    (case find (minted_match b3 kd reg t now) (rev (cr_records reg)) of
       Some r \<Rightarrow> Some (bridge r)
     | None \<Rightarrow> find (plain_match b3 t) (rev (cr_collectors reg)))"
  using assms scan_minted_bridged [of _ bridge "cr_records reg" "[]"]
  by (simp add: resolve_at_scan registry_inv_def split: option.split)

section \<open>Minted credentials\<close>

lemma to_digit_hex_char [simp]: "n < 16 \<Longrightarrow> to_digit 16 (hex_char n) = Some n"
  by (auto simp: to_digit_def hex_char_def of_char_of Let_def)

lemma unhex_pairs_hex [simp]: "unhex_pairs (hex b) = Some b"
proof (induction b)
  case (Cons x b)
  have "unat x < 256" by (rule unat_u8)
  then have "unat x div 16 < 16" by (simp add: div_less_iff_less_mult)
  moreover have "(of_nat (unat x div 16 * 16 + unat x mod 16) :: u8) = x" by (simp only: div_mult_mod_eq) simp
  ultimately show ?case
    using Cons.IH by (simp add: hex_def hex_byte_def del: of_nat_add of_nat_mult)
qed (simp add: hex_def)

lemma length_hex [simp]: "length (hex b) = 2 * length b"
  by (induction b) (simp_all add: hex_def hex_byte_def)

lemma unhex_hex: "length b = 32 \<Longrightarrow> unhex (hex b) = Some b"
  by (simp add: unhex_def)

lemma minted_resolves:
  assumes "mint kd i sources expires key t0 raw = Ok m" "length raw = 32" "\<And>x. length (kd key x) = 32" "hash32 b3"
    and "registry_inv reg" "cr_digest_key reg = Some key" "cr_records reg = rs @ [mi_record m]"
    and "case expires of None \<Rightarrow> True | Some e \<Rightarrow> now < e"
  shows "resolve_at b3 kd reg (mi_token m) now = Some \<lparr>co_id = i, co_token = [], co_sources = sources\<rparr>"
proof -
  from assms(1) have m: "mi_token m = hex raw" "mi_record m = \<lparr>rc_id = i,
      rc_digest_hex = Some (hex (kd key (str_bytes (hex raw)))), rc_sources = sources, rc_created_at = t0,
      rc_expires_at = expires, rc_revoked = False, rc_fingerprint = take 12 (hex (kd key (str_bytes (hex raw))))\<rparr>"
    by (auto simp: mint_def Let_def split: if_splits)
  have "hex raw \<noteq> []" using assms(2) length_hex [of raw] by (metis list.size(3) mult_is_0 zero_neq_numeral)
  moreover have "minted_match b3 kd reg (hex raw) now (mi_record m)"
    using assms(3,4,6,8) by (simp add: minted_match_def record_matches_def m unhex_hex ct_eq_iff is_active_def)
  ultimately show ?thesis
    unfolding m(1) using resolve_at_built [OF assms(5)] by (simp add: assms(7) bridge_def m(2))
qed

section \<open>Hot reload\<close>

lemma swaps_keep_enabled: "sc_enabled (foldl swap s regs) = sc_enabled s"
  by (induction regs arbitrary: s) (simp_all add: swap_def)

lemma empty_registry_resolves_nothing:
  assumes "registry_is_empty reg"
  shows "resolve_at b3 kd reg t now = None"
  using assms by (simp add: resolve_at_scan registry_is_empty_def)

end
