(* ===== verification/Boundary_Properties.thy ===== *)
theory Boundary_Properties
  imports Egress Collector
begin

text \<open>
  The properties of the two boundaries of the system: outgoing connections, and the tokens presented on incoming
  ones.
\<close>

section \<open>Helpers\<close>

lemma find_mem: "find P xs = Some x \<Longrightarrow> x \<in> set xs \<and> P x"
  by (auto simp: find_Some_iff)

lemma dec_chars: "n < 256 \<Longrightarrow> set (dec n) \<subseteq> dec_digit ` {..<10}"
  by (auto simp: dec_def div_less_iff_less_mult intro!: imageI)

lemma dec_digit_plain:
  assumes "k < 10"
  shows "\<not> authority_end (dec_digit k) \<and> dec_digit k \<noteq> CHR ''@'' \<and> dec_digit k \<noteq> CHR '':'' \<and> dec_digit k \<noteq> CHR ''[''"
proof -
  have "dec_digit k \<noteq> c" if "(of_char c :: nat) < 48 \<or> 57 < (of_char c :: nat)" for c
    using of_char_dec_digit [OF assms] that assms by auto
  then show ?thesis by (auto simp: authority_end_def)
qed

lemma plain_host_dotted: "plain_host (dotted a b c d)"
proof -
  have dec: "x \<in> set (dec (unat w)) \<Longrightarrow> \<not> authority_end x \<and> x \<noteq> CHR ''@'' \<and> x \<noteq> CHR '':'' \<and> x \<noteq> CHR ''[''" for x and w :: u8
    using dec_chars [OF unat_u8 [of w]] dec_digit_plain by fastforce
  have "dec (unat a) \<noteq> []" using dec_hd_graphic [OF unat_u8 [of a]] by blast
  moreover from this have "hd (dec (unat a)) \<noteq> CHR ''[''" using dec [of "hd (dec (unat a))" a] by simp
  moreover have "\<not> authority_end CHR ''.''" by (simp add: authority_end_def)
  ultimately show ?thesis
    using dec by (auto simp: plain_host_def dotted_def list_all_iff)
qed

section \<open>Egress\<close>



text \<open>
  For a URL with user information, an IPv4 host, an optional port and anything after the authority, the air-gap
  decision depends on the address alone: allowed exactly for the loopback, private and link-local blocks.
\<close>

lemma airgap_ipv4_url:
  assumes "ep_airgap p" "cls \<noteq> EC_McpRemote"
    and "CHR '':'' \<notin> set scheme" "list_all (\<lambda>c. \<not> authority_end c) user" "port_part port"
    and "tail = [] \<or> authority_end (hd tail)"
    and "dest = scheme @ ''://'' @ user @ ''@'' @ dotted a b c d @ port @ tail" "trim dest = dest"
  shows "decide p cls dest = ED_Allow \<longleftrightarrow>
    a = 127 \<or> a = 10 \<or> a = 172 \<and> 16 \<le> b \<and> b \<le> 31 \<or> a = 192 \<and> b = 168 \<or> a = 169 \<and> b = 254"
proof -
  have "host_of dest = Some (dotted a b c d)"
    by (rule host_of_url [OF assms(3,4) plain_host_dotted assms(5-8)])
  then show ?thesis
    using assms(1,2)
    by (auto simp: airgap_allows_only_local dest_is_local_def is_local_dotted v4_is_local_def v4_is_loopback_def
        v4_is_private_def v4_is_link_local_def)
qed

lemma airgap_ipv4_url_example:
  "decide airgap_policy EC_LlmExternal ''https://u:p@10.1.2.3:443/x'' = ED_Allow"
proof -
  have "dotted 10 1 2 3 = ''10.1.2.3''" by code_simp
  then show ?thesis
    using airgap_ipv4_url [of airgap_policy EC_LlmExternal "''https''" "''u:p''" "'':443''" "''/x''" "''https://u:p@10.1.2.3:443/x''" 10 1 2 3]
    by (simp add: airgap_policy_def authority_end_def port_part_def trim_graphic graphic_def)
qed

text \<open>
  A tighter policy never allows more: turning the air gap on, or narrowing a non-empty allowlist without emptying
  it, or adding the first allowlist, only removes allowed connections.
\<close>

lemma tighter_policy_allows_less:
  assumes "ep_airgap q \<longrightarrow> ep_airgap p"
    and "ep_airgap p \<or> ep_allow q = [] \<or> ep_allow p \<noteq> [] \<and> set (ep_allow p) \<subseteq> set (ep_allow q)"
    and "decide p cls dest = ED_Allow"
  shows "decide q cls dest = ED_Allow"
  by (rule decide_mono [OF _ assms(3)]) (use assms(1,2) in \<open>auto simp: tighter_def\<close>)

lemma tighter_policy_allows_less_example:
  "decide permissive EC_Telemetry ''localhost'' = ED_Allow"
proof -
  have "trim ''localhost'' = ''localhost''" by (rule trim_graphic) (simp add: graphic_def)
  then have "decide airgap_policy EC_Telemetry ''localhost'' = ED_Allow"
    by (simp add: decide_def dest_is_local_def host_of_def authority_end_def starts_with_def is_local_def
        to_ascii_lowercase_def to_lower_char_def)
  then show ?thesis
    using tighter_policy_allows_less [of permissive airgap_policy EC_Telemetry "''localhost''"]
    by (simp add: permissive_def airgap_policy_def)
qed



text \<open>
  The scheme separator is searched anywhere in the destination, so a separator in the query decides the host.
\<close>

lemma separator_in_query_decides_host:
  "decide airgap_policy EC_Telemetry ''http:/evil.example/?://127.0.0.1/'' = ED_Allow"
proof -
  have t: "trim ''http:/evil.example/?://127.0.0.1/'' = ''http:/evil.example/?://127.0.0.1/''"
    by (rule trim_graphic) (simp add: graphic_def)
  have "host_of ''http:/evil.example/?://127.0.0.1/'' = Some ''127.0.0.1''"
    by (simp add: host_of_def t authority_end_def starts_with_def)
  moreover have "dotted 127 0 0 1 = ''127.0.0.1''" by code_simp
  ultimately show ?thesis
    using is_local_dotted [of 127 0 0 1]
    by (simp add: decide_def dest_is_local_def v4_is_local_def v4_is_loopback_def)
qed

section \<open>Tokens\<close>

text \<open>
  A user token resolves to a principal exactly when it is non-empty and some configured entry has a token of the
  same digest; the principal is that of such an entry, so its role is one the registry holds.
\<close>

lemma user_token_resolution:
  assumes "hash32 b3"
  shows "(auth_resolve b3 reg t = None \<longleftrightarrow>
      t = [] \<or> (\<forall>u \<in> set reg. b3 (str_bytes (ut_token u)) \<noteq> b3 (str_bytes t))) \<and>
    (auth_resolve b3 reg t = Some p \<longrightarrow>
      (\<exists>u \<in> set reg. b3 (str_bytes (ut_token u)) = b3 (str_bytes t) \<and> p = principal_of u) \<and> has_role reg (pr_role p))"
proof
  have grants: "auth_grants b3 reg t q \<longleftrightarrow>
      (\<exists>u \<in> set reg. b3 (str_bytes (ut_token u)) = b3 (str_bytes t) \<and> q = principal_of u)" for q
    by (auto simp: auth_grants_def list_ex_iff ct_eq_iff [OF assms] eq_commute [of "b3 (str_bytes t)"])
  then show "auth_resolve b3 reg t = None \<longleftrightarrow>
      t = [] \<or> (\<forall>u \<in> set reg. b3 (str_bytes (ut_token u)) \<noteq> b3 (str_bytes t))"
    by (auto simp: users.resolve_None_iff)
  show "auth_resolve b3 reg t = Some p \<longrightarrow>
      (\<exists>u \<in> set reg. b3 (str_bytes (ut_token u)) = b3 (str_bytes t) \<and> p = principal_of u) \<and> has_role reg (pr_role p)"
    using users.resolve_grants [of b3 reg t p] grants [of p]
    by (auto simp: has_role_def list_ex_iff principal_of_def)
qed

lemma user_token_resolution_example:
  "auth_resolve (\<lambda>x. replicate 32 (of_nat (length x))) [\<lparr>ut_token = ''s3'', ut_user = ''ann'', ut_role = Admin\<rparr>] ''abc'' = None"
  using user_token_resolution [of "\<lambda>x. replicate 32 (of_nat (length x))" "[\<lparr>ut_token = ''s3'', ut_user = ''ann'', ut_role = Admin\<rparr>]" "''abc''"]
  by (simp add: hash32_def)

text \<open>
  C18. In a registry built by its operations, a collector token resolves only to a plaintext entry with a token of the
  same digest, or to a minted record whose stored digest matches and which is neither revoked nor expired at that time.
\<close>

theorem collector_resolution_sound:
  assumes "built reg" "hash32 b3" "resolve_at b3 kd reg t now = Some c"
  shows "t \<noteq> [] \<and>
    ((c \<in> set (cr_collectors reg) \<and> b3 (str_bytes (co_token c)) = b3 (str_bytes t)) \<or>
     (\<exists>r \<in> set (cr_records reg). c = bridge r \<and> \<not> rc_revoked r \<and>
        (case rc_expires_at r of None \<Rightarrow> True | Some e \<Rightarrow> now < e) \<and>
        (\<exists>key stored. cr_digest_key reg = Some key \<and> Option.bind (rc_digest_hex r) unhex = Some stored \<and>
           b3 stored = b3 (kd key (str_bytes t)))))"
proof -
  have ne: "t \<noteq> []" using assms(3) by (auto simp: resolve_at_def)
  note res = assms(3) [unfolded resolve_at_built [OF built_inv [OF assms(1)] ne]]
  show ?thesis
  proof (cases "find (minted_match b3 kd reg t now) (rev (cr_records reg))")
    case None
    with res have "find (plain_match b3 t) (rev (cr_collectors reg)) = Some c" by simp
    from find_mem [OF this] ne show ?thesis by (simp add: plain_match_def ct_eq_iff [OF assms(2)])
  next
    case (Some r)
    with res find_mem [OF Some] have r: "c = bridge r" "r \<in> set (cr_records reg)" "minted_match b3 kd reg t now r"
      by simp_all
    from r(3) have "\<exists>key stored. cr_digest_key reg = Some key \<and> Option.bind (rc_digest_hex r) unhex = Some stored \<and>
        b3 stored = b3 (kd key (str_bytes t))" "is_active r now"
      by (auto simp: minted_match_def record_matches_def ct_eq_iff [OF assms(2)] split: option.splits)
    with r(1,2) ne show ?thesis by (auto simp: is_active_def)
  qed
qed

theorem collector_resolution_sound_witness:
  "\<exists>r \<in> set (cr_records (load_records registry_new [] [\<lparr>rc_id = ''c'', rc_digest_hex = Some (hex (replicate 32 0)),
        rc_sources = [], rc_created_at = 0, rc_expires_at = Some 9, rc_revoked = False, rc_fingerprint = []\<rparr>])).
     \<not> rc_revoked r"
proof -
  let ?b3 = "\<lambda>_. replicate 32 0" and ?kd = "\<lambda>_ _. replicate 32 0"
  let ?r = "\<lparr>rc_id = ''c'', rc_digest_hex = Some (hex (replicate 32 0)), rc_sources = [], rc_created_at = 0,
    rc_expires_at = Some 9, rc_revoked = False, rc_fingerprint = []\<rparr>"
  let ?reg = "load_records registry_new [] [?r]"
  have "hash32 ?b3" by (simp add: hash32_def)
  moreover have "built ?reg" by (intro built.intros)
  moreover have "resolve_at ?b3 ?kd ?reg ''t'' 5 = Some (bridge ?r)"
    using ct_eq_iff [OF \<open>hash32 ?b3\<close>]
    by (simp add: resolve_at_def load_records_def registry_new_def record_matches_def unhex_hex is_active_def)
  ultimately show ?thesis
    using collector_resolution_sound [of ?reg ?b3 ?kd "''t''" 5 "bridge ?r"] by (auto simp: load_records_def registry_new_def)
qed

text \<open>
  A freshly minted credential works until it expires: in a registry that holds its record under the minting key, its
  token resolves to the collector it was minted for, with no secret in it.
\<close>

lemma minted_credential_resolves:
  assumes "mint kd i sources expires key t0 raw = Inr m" "length raw = 32" "\<And>x. length (kd key x) = 32" "hash32 b3"
    and "built reg" "cr_digest_key reg = Some key" "cr_records reg = rs @ [mi_record m]"
    and "case expires of None \<Rightarrow> True | Some e \<Rightarrow> now < e"
  shows "resolve_at b3 kd reg (mi_token m) now = Some \<lparr>co_id = i, co_token = [], co_sources = sources\<rparr>"
  by (rule minted_resolves [OF assms(1-4) built_inv [OF assms(5)] assms(6-8)])

lemma minted_credential_resolves_example:
  "\<exists>m. mint (\<lambda>_ _. replicate 32 7) ''edge'' [''fw''] (Some 90) [] 0 (replicate 32 1) = Inr m \<and>
     resolve_at (\<lambda>_. replicate 32 0) (\<lambda>_ _. replicate 32 7) (load_records registry_new [] [mi_record m]) (mi_token m) 50 =
       Some \<lparr>co_id = ''edge'', co_token = [], co_sources = [''fw'']\<rparr>"
proof -
  have "trim ''edge'' \<noteq> []" by (simp add: trim_graphic graphic_def)
  then obtain m where m: "mint (\<lambda>_ _. replicate 32 7) ''edge'' [''fw''] (Some 90) [] 0 (replicate 32 1) = Inr m"
    by (simp add: mint_def Let_def)
  have "resolve_at (\<lambda>_. replicate 32 0) (\<lambda>_ _. replicate 32 7) (load_records registry_new [] [mi_record m]) (mi_token m) 50 =
       Some \<lparr>co_id = ''edge'', co_token = [], co_sources = [''fw'']\<rparr>"
    by (rule minted_credential_resolves [OF m, where rs = "[]"])
      (simp_all only: built.intros, simp_all add: hash32_def load_records_def)
  with m show ?thesis by blast
qed

end
