(* ===== verification/Garmr_Tables.thy ===== *)
theory Garmr_Tables
  imports Garmr_Strings "HOL-Library.Multiset"
begin

text \<open>
  A table of the embedded database: its rows in key order. Inserting under a present key replaces the row.
\<close>

fun tab_put :: "string \<Rightarrow> 'v \<Rightarrow> (string \<times> 'v) list \<Rightarrow> (string \<times> 'v) list" where
  "tab_put k v [] = [(k, v)]"
| "tab_put k v ((a, b) # rows) =
     (if k < a then (k, v) # (a, b) # rows else if k = a then (k, v) # rows else (a, b) # tab_put k v rows)"

lemma tab_put_map_of: "map_of (tab_put k v rows) = (map_of rows)(k \<mapsto> v)"
  by (induction k v rows rule: tab_put.induct) auto

lemma tab_put_keys:
  "sorted_wrt (<) (map fst rows) \<Longrightarrow> sorted_wrt (<) (map fst (tab_put k v rows)) \<and>
     set (map fst (tab_put k v rows)) = insert k (set (map fst rows))"
  by (induction k v rows rule: tab_put.induct) (auto simp: not_less_iff_gr_or_eq)

lemma tab_put_set:
  "sorted_wrt (<) (map fst rows) \<Longrightarrow> set (tab_put k v rows) = insert (k, v) {r \<in> set rows. fst r \<noteq> k}"
  by (induction k v rows rule: tab_put.induct) (auto simp: not_less_iff_gr_or_eq)

lemma tab_put_fresh: "k \<notin> fst ` set rows \<Longrightarrow> mset (tab_put k v rows) = add_mset (k, v) (mset rows)"
  by (induction k v rows rule: tab_put.induct) auto

text \<open>The decoded values, in key order; a row that does not decode is skipped.\<close>

definition row_values :: "(string \<times> 'v option) list \<Rightarrow> 'v list" where
  "row_values rows = List.map_filter snd rows"

lemma row_values_mem: "v \<in> set (row_values rows) \<longleftrightarrow> (\<exists>k. (k, Some v) \<in> set rows)"
  by (force simp: row_values_def List.map_filter_def)

lemma row_values_put:
  assumes "sorted_wrt (<) (map fst rows)"
  shows "set (row_values (tab_put k (Some v) rows)) \<subseteq> insert v (set (row_values rows))"
  by (auto simp: row_values_mem tab_put_set [OF assms])

lemma row_values_put_fresh:
  assumes "k \<notin> fst ` set rows"
  shows "mset (row_values (tab_put k (Some v) rows)) = add_mset v (mset (row_values rows))"
proof -
  have eq: "mset (row_values rs) = image_mset (the \<circ> snd) (filter_mset (\<lambda>r. snd r \<noteq> None) (mset rs))"
    for rs :: "(string \<times> 'a option) list"
    by (simp add: row_values_def List.map_filter_def comp_def)
  show ?thesis by (simp add: eq tab_put_fresh [OF assms])
qed


lemma distinct_remdups_adj_sort: "distinct (remdups_adj (sort (xs :: 'a::linorder list)))"
proof -
  have "distinct (remdups_adj ys)" if "sorted ys" for ys :: "'a list"
    using that by (induction ys rule: remdups_adj.induct) (auto simp: order.antisym)
  then show ?thesis by simp
qed

text \<open>The decoded row of a key, and the tables whose keys are in order.\<close>

definition tab_row :: "(string \<times> 'v option) list \<Rightarrow> string \<Rightarrow> 'v option" where
  "tab_row rows k = (case map_of rows k of Some x \<Rightarrow> x | None \<Rightarrow> None)"

lemma row_put [simp]: "tab_row (tab_put k (Some v) rows) = (tab_row rows)(k := Some v)"
  by (auto simp: tab_row_def tab_put_map_of fun_eq_iff)

lemma row_eq_Some: "tab_row rows k = Some v \<longleftrightarrow> map_of rows k = Some (Some v)"
  by (auto simp: tab_row_def split: option.splits)

definition table_ok :: "(string \<times> 'v) list \<Rightarrow> bool" where
  "table_ok rows \<longleftrightarrow> sorted_wrt (<) (map fst rows)"

lemma table_ok_put [simp]: "table_ok rows \<Longrightarrow> table_ok (tab_put k v rows)"
  unfolding table_ok_def by (rule tab_put_keys [THEN conjunct1])

lemma table_ok_row: "table_ok rows \<Longrightarrow> (k, Some v) \<in> set rows \<Longrightarrow> tab_row rows k = Some v"
  by (auto simp: table_ok_def row_eq_Some strict_sorted_iff)

lemma row_values_distinct:
  assumes "table_ok rows" "\<And>k v. tab_row rows k = Some v \<Longrightarrow> f v = k"
  shows "distinct (map f (row_values rows))"
proof -
  have "map f (row_values rs) = map fst (filter (\<lambda>r. snd r \<noteq> None) rs)" if "set rs \<subseteq> set rows" for rs
    using that
  proof (induction rs)
    case (Cons r rs)
    obtain k v where r: "r = (k, v)" by fastforce
    with Cons table_ok_row [OF assms(1), of k] assms(2) show ?case
      by (cases v) (auto simp: row_values_def map_filter_simps)
  qed (simp add: row_values_def map_filter_simps)
  moreover have "distinct (map fst rows)" using assms(1) by (simp add: table_ok_def strict_sorted_iff)
  ultimately show ?thesis using distinct_map_filter by (metis order_refl)
qed

lemma row_values_skip: "row_values (xs @ (k, None) # ys) = row_values (xs @ ys)"
  by (simp add: row_values_def List.map_filter_def)

end
