(* ===== verification/Ingest_Seq.thy ===== *)
theory Ingest_Seq
  imports Garmr_Text Garmr_Tables
begin

text \<open>
  Delivery tracking per collector, \<open>garmr-store/src/state/ingest_seq.rs\<close>, and the aggregation of gap audits,
  \<open>garmr-cli/src/ingest_seq.rs\<close>. Sequence numbers, epochs and counters are 64-bit words with Rust's saturating
  addition. The table of the embedded database is its list of rows in key order; the stored form of a row (JSON) and the
  two functions that write and read it are arguments, and a failed database call aborts the transaction.
\<close>

section \<open>The state of one epoch\<close>

definition sat_add :: "u64 \<Rightarrow> u64 \<Rightarrow> u64" where
  "sat_add a b = (if unat a + unat b < 2 ^ 64 then a + b else - 1)"

definition MISSING_CAP :: nat where
  "MISSING_CAP = 4096"

definition EPOCHS_PER_COLLECTOR_CAP :: nat where
  "EPOCHS_PER_COLLECTOR_CAP = 16"

record SeqState =
  ss_first_seq :: u64
  ss_high :: u64
  ss_missing :: "u64 list"
  ss_gaps :: u64
  ss_replays :: u64
  ss_updated_us :: int

definition SeqState_default :: SeqState where
  "SeqState_default =
     \<lparr>ss_first_seq = 0, ss_high = 0, ss_missing = [], ss_gaps = 0, ss_replays = 0, ss_updated_us = 0\<rparr>"

datatype SeqVerdict = FirstOfEpoch | Advance | Reordered | Replay | Gap u64

definition is_gap :: "SeqVerdict \<Rightarrow> bool" where
  "is_gap v = (case v of Gap _ \<Rightarrow> True | _ \<Rightarrow> False)"

text \<open>\<open>slice::binary_search\<close>: the halving loop and the final comparison.\<close>

fun bs_loop :: "u64 list \<Rightarrow> u64 \<Rightarrow> nat \<Rightarrow> nat \<Rightarrow> nat" where
  "bs_loop xs x sz base =
     (if sz \<le> 1 then base
      else (let half = sz div 2; mid = base + half
            in bs_loop xs x (sz - half) (if xs ! mid > x then base else mid)))"

declare bs_loop.simps [simp del]

definition binary_search :: "u64 list \<Rightarrow> u64 \<Rightarrow> nat option" where
  "binary_search xs x =
     (if xs = [] then None
      else (let base = bs_loop xs x (length xs) 0 in if xs ! base = x then Some base else None))"

lemma sat_add_one: "n < (seq :: u64) \<Longrightarrow> unat (sat_add n 1) = Suc (unat n)"
proof -
  assume "n < seq"
  then have "unat n < unat seq" by (simp add: word_less_nat_alt)
  also have "unat seq < 2 ^ 64" using unsigned_less [of seq, where ?'a = nat] by simp
  finally have "unat n + 1 < 2 ^ 64" using \<open>unat n < unat seq\<close> \<open>unat seq < 2 ^ 64\<close> by linarith
  then show ?thesis by (simp add: sat_add_def unat_add_lem [THEN iffD1])
qed

text \<open>The loop that records the skipped numbers.\<close>

function push_skipped :: "u64 \<Rightarrow> u64 \<Rightarrow> u64 list \<Rightarrow> u64 list" where
  "push_skipped n seq missing = (if n < seq then push_skipped (sat_add n 1) seq (missing @ [n]) else missing)"
  by pat_completeness auto
termination
  by (relation "measure (\<lambda>(n, seq, _). unat seq - unat n)")
    (auto simp: sat_add_one word_less_nat_alt intro: diff_less_mono2)

declare push_skipped.simps [simp del]

definition classify :: "SeqState \<Rightarrow> u64 \<Rightarrow> bool \<Rightarrow> SeqVerdict \<times> SeqState" where
  "classify s seq is_new =
     (if is_new then (FirstOfEpoch, s\<lparr>ss_first_seq := seq, ss_high := seq\<rparr>)
      else if seq \<le> ss_high s
      then (case binary_search (ss_missing s) seq of
              Some idx \<Rightarrow> (Reordered, s\<lparr>ss_missing := take idx (ss_missing s) @ drop (Suc idx) (ss_missing s)\<rparr>)
            | None \<Rightarrow> (Replay, s\<lparr>ss_replays := sat_add (ss_replays s) 1\<rparr>))
      else
        (let missing = push_skipped (sat_add (ss_high s) 1) seq (ss_missing s);
             s = s\<lparr>ss_missing := missing, ss_high := seq\<rparr>
         in if length missing > MISSING_CAP
            then (let evict = length missing - MISSING_CAP;
                      newly_lost = of_nat evict;
                      s = s\<lparr>ss_missing := drop evict missing, ss_gaps := sat_add (ss_gaps s) newly_lost\<rparr>
                  in if newly_lost > 0 then (Gap newly_lost, s) else (Advance, s))
            else (Advance, s)))"

section \<open>The table\<close>

definition seq_prefix :: "string \<Rightarrow> string" where
  "seq_prefix collector_id = collector_id @ ''|''"

text \<open>\<open>{epoch:020}\<close>: zero-padded to twenty digits.\<close>

definition seq_key :: "string \<Rightarrow> u64 \<Rightarrow> string" where
  "seq_key collector_id epoch =
     (let d = show_u64 epoch in collector_id @ ''|'' @ replicate (20 - length d) CHR ''0'' @ d)"

definition own_keys :: "string \<Rightarrow> (string \<times> 'v) list \<Rightarrow> string list" where
  "own_keys collector_id table = filter (\<lambda>k. starts_with k (seq_prefix collector_id)) (map fst table)"

definition drop_keys :: "string list \<Rightarrow> (string \<times> 'v) list \<Rightarrow> (string \<times> 'v) list" where
  "drop_keys victims table = filter (\<lambda>(k, v). k \<notin> set victims) table"

text \<open>
  The outstanding numbers of the victims are added to the gaps of the oldest row kept. A failure to serialise aborts the
  transaction.
\<close>

definition fold_orphaned ::
  "(SeqState \<Rightarrow> 'v option) \<Rightarrow> ('v \<Rightarrow> SeqState option) \<Rightarrow> string list \<Rightarrow> string list \<Rightarrow> u64 \<Rightarrow>
   (string \<times> 'v) list \<Rightarrow> (string \<times> 'v) list option" where
  "fold_orphaned to_json from_json keys victims orphaned table =
     (if orphaned > 0
      then (case find (\<lambda>k. k \<notin> set victims) keys of
              None \<Rightarrow> Some table
            | Some kept \<Rightarrow>
                (case Option.bind (map_of table kept) from_json of
                   None \<Rightarrow> Some table
                 | Some s \<Rightarrow>
                     (case to_json (s\<lparr>ss_gaps := sat_add (ss_gaps s) orphaned\<rparr>) of
                        None \<Rightarrow> None
                      | Some b \<Rightarrow> Some (tab_put kept b table))))
      else Some table)"

definition evict_stale_epochs ::
  "(SeqState \<Rightarrow> 'v option) \<Rightarrow> ('v \<Rightarrow> SeqState option) \<Rightarrow> (string \<times> 'v) list \<Rightarrow> string \<Rightarrow> string \<Rightarrow>
   (string \<times> 'v) list option" where
  "evict_stale_epochs to_json from_json table collector_id keep_key =
     (let keys = own_keys collector_id table
      in if length keys \<le> EPOCHS_PER_COLLECTOR_CAP then Some table
         else
           (let excess = length keys - EPOCHS_PER_COLLECTOR_CAP;
                victims = filter (\<lambda>k. k \<noteq> keep_key) (take excess keys);
                orphaned =
                  foldl (\<lambda>n k. case Option.bind (map_of table k) from_json of
                                 None \<Rightarrow> n | Some s \<Rightarrow> sat_add n (of_nat (length (ss_missing s)))) 0 victims
            in fold_orphaned to_json from_json keys victims orphaned (drop_keys victims table)))"

text \<open>\<open>ok\<close>: every call of the database in the transaction succeeded.\<close>

definition observe_ingest_seq ::
  "(SeqState \<Rightarrow> 'v option) \<Rightarrow> ('v \<Rightarrow> SeqState option) \<Rightarrow> bool \<Rightarrow> int \<Rightarrow> (string \<times> 'v) list \<Rightarrow>
   string \<Rightarrow> u64 \<Rightarrow> u64 \<Rightarrow> SeqVerdict option \<times> (string \<times> 'v) list" where
  "observe_ingest_seq to_json from_json ok now_us table collector_id epoch seq =
     (let key = seq_key collector_id epoch;
          cur = Option.bind (map_of table key) from_json;
          is_new_epoch = (cur = None);
          (verdict, s) = classify (case cur of None \<Rightarrow> SeqState_default | Some s \<Rightarrow> s) seq is_new_epoch
      in if \<not> ok then (None, table)
         else
           (case to_json (s\<lparr>ss_updated_us := now_us\<rparr>) of
              None \<Rightarrow> (None, table)
            | Some b \<Rightarrow>
                (let table' = tab_put key b table
                 in if is_new_epoch
                    then (case evict_stale_epochs to_json from_json table' collector_id key of
                            None \<Rightarrow> (None, table)
                          | Some t \<Rightarrow> (Some verdict, t))
                    else (Some verdict, table'))))"

section \<open>The health view\<close>

record SeqHealth =
  sh_collector_id :: string
  sh_epoch :: u64
  sh_first_seq :: u64
  sh_high_seq :: u64
  sh_gaps :: u64
  sh_outstanding :: u64
  sh_replays :: u64
  sh_updated_us :: int

definition rsplit_once :: "char \<Rightarrow> string \<Rightarrow> (string \<times> string) option" where
  "rsplit_once c s =
     (if c \<in> set s
      then (let r = takeWhile (\<lambda>x. x \<noteq> c) (rev s) in Some (take (length s - Suc (length r)) s, rev r))
      else None)"

definition seq_health_row :: "('v \<Rightarrow> SeqState option) \<Rightarrow> string \<times> 'v \<Rightarrow> SeqHealth list" where
  "seq_health_row from_json row =
     (case rsplit_once CHR ''|'' (fst row) of
        None \<Rightarrow> []
      | Some (collector_id, epoch_str) \<Rightarrow>
          (let epoch = (case parse_u64 (dropWhile (\<lambda>c. c = CHR ''0'') epoch_str) of None \<Rightarrow> 0 | Some w \<Rightarrow> w)
           in case from_json (snd row) of
                None \<Rightarrow> []
              | Some s \<Rightarrow>
                  [\<lparr>sh_collector_id = collector_id, sh_epoch = epoch, sh_first_seq = ss_first_seq s,
                    sh_high_seq = ss_high s, sh_gaps = ss_gaps s,
                    sh_outstanding = of_nat (length (ss_missing s)), sh_replays = ss_replays s,
                    sh_updated_us = ss_updated_us s\<rparr>]))"

definition ingest_seq_health :: "('v \<Rightarrow> SeqState option) \<Rightarrow> (string \<times> 'v) list \<Rightarrow> SeqHealth list" where
  "ingest_seq_health from_json table =
     sort_key (\<lambda>r. - sh_updated_us r) (concat (map (seq_health_row from_json) table))"

section \<open>Gap audits\<close>

definition GAP_AUDIT_WINDOW_SECS :: u64 where
  "GAP_AUDIT_WINDOW_SECS = 60"

record GapWindow =
  gw_window_start :: u64
  gw_pending_lost :: u64
  gw_last_epoch :: u64
  gw_last_seq :: u64

definition GapWindow_default :: GapWindow where
  "GapWindow_default = \<lparr>gw_window_start = 0, gw_pending_lost = 0, gw_last_epoch = 0, gw_last_seq = 0\<rparr>"

record SeqMark =
  sm_collector_id :: string
  sm_epoch :: u64
  sm_seq :: u64

text \<open>The audit line, with the data its text is formatted from: collector, loss, epoch and number.\<close>

type_synonym gap_audit = "string \<times> u64 \<times> u64 \<times> u64"

definition flush_gap_window :: "string \<Rightarrow> GapWindow \<Rightarrow> gap_audit list \<times> GapWindow" where
  "flush_gap_window collector_id w =
     (if gw_pending_lost w = 0 then ([], w)
      else ([(collector_id, gw_pending_lost w, gw_last_epoch w, gw_last_seq w)], w\<lparr>gw_pending_lost := 0\<rparr>))"

text \<open>One iteration of the loop, with the answer of the observation and the clock.\<close>

definition seq_observe_step ::
  "(string \<Rightarrow> GapWindow option) \<times> gap_audit list \<Rightarrow> SeqMark \<times> SeqVerdict option \<times> u64 \<Rightarrow>
   (string \<Rightarrow> GapWindow option) \<times> gap_audit list" where
  "seq_observe_step st obs =
     (case (st, obs) of ((windows, audits), (mark, verdict, now)) \<Rightarrow>
        (case verdict of
           Some (Gap newly_lost) \<Rightarrow>
             (let cid = sm_collector_id mark;
                  w = (case windows cid of None \<Rightarrow> GapWindow_default | Some w \<Rightarrow> w);
                  w = (if gw_window_start w = 0 then w\<lparr>gw_window_start := now\<rparr> else w);
                  w = w\<lparr>gw_pending_lost := sat_add (gw_pending_lost w) newly_lost,
                        gw_last_epoch := sm_epoch mark, gw_last_seq := sm_seq mark\<rparr>
              in if gw_window_start w + GAP_AUDIT_WINDOW_SECS \<le> now
                 then (let (lines, w) = flush_gap_window cid w
                       in (windows(cid \<mapsto> w\<lparr>gw_window_start := now\<rparr>), audits @ lines))
                 else (windows(cid \<mapsto> w), audits))
         | _ \<Rightarrow> (windows, audits)))"

definition seq_observe_loop ::
  "(SeqMark \<times> SeqVerdict option \<times> u64) list \<Rightarrow> (string \<Rightarrow> GapWindow option) \<times> gap_audit list" where
  "seq_observe_loop obs = foldl seq_observe_step (Map.empty, []) obs"

section \<open>Searching\<close>

lemma bs_loop_range:
  assumes "sz \<noteq> 0"
  shows "base \<le> bs_loop xs x sz base \<and> bs_loop xs x sz base < base + sz"
  using assms
proof (induction xs x sz base rule: bs_loop.induct)
  case (1 xs x sz base)
  show ?case
  proof (cases "sz \<le> 1")
    case True
    with 1 show ?thesis by (simp add: bs_loop.simps)
  next
    case False
    then have "sz - sz div 2 \<noteq> 0" by linarith
    with 1 False show ?thesis
      by (subst (1 2) bs_loop.simps) (fastforce simp: Let_def)
  qed
qed

text \<open>The loop keeps the sought element between its bounds.\<close>

lemma bs_loop_finds:
  assumes "sorted_wrt (<) xs" "base + sz \<le> length xs" "i < length xs" "xs ! i = x" "base \<le> i" "i < base + sz"
  shows "bs_loop xs x sz base = i"
  using assms
proof (induction xs x sz base rule: bs_loop.induct)
  case (1 xs x sz base)
  show ?case
  proof (cases "sz \<le> 1")
    case True
    with 1 show ?thesis by (simp add: bs_loop.simps)
  next
    case False
    let ?half = "sz div 2" let ?mid = "base + ?half"
    have half: "0 < ?half" "?half < sz" using False by auto
    have mid: "xs ! ?mid > x \<longleftrightarrow> i < ?mid"
    proof -
      have "xs ! ?mid > xs ! i" if "i < ?mid"
        using 1(2,3,4) that half by (simp add: sorted_wrt_iff_nth_less)
      moreover have "xs ! ?mid \<le> xs ! i" if "?mid \<le> i"
        using 1(2,3,4) that half by (cases "?mid = i") (auto simp: sorted_wrt_iff_nth_less less_imp_le)
      ultimately show ?thesis using 1(5) by (metis not_le)
    qed
    have "bs_loop xs x sz base = bs_loop xs x (sz - ?half) (if i < ?mid then base else ?mid)"
      using False by (subst bs_loop.simps) (simp add: Let_def mid)
    also have "\<dots> = i"
      using 1 False half by (auto simp: mid Let_def)
    finally show ?thesis .
  qed
qed

lemma binary_search_Some:
  assumes "sorted_wrt (<) xs"
  shows "binary_search xs x = Some i \<longleftrightarrow> i < length xs \<and> xs ! i = x"
proof (cases "xs = []")
  case False
  then have "bs_loop xs x (length xs) 0 < length xs" using bs_loop_range [of "length xs" 0 xs x] by simp
  with False assms bs_loop_finds [of xs 0 "length xs" i x] show ?thesis
    by (auto simp: binary_search_def Let_def)
qed (simp add: binary_search_def)

lemma binary_search_None: "sorted_wrt (<) xs \<Longrightarrow> binary_search xs x = None \<longleftrightarrow> x \<notin> set xs"
  using binary_search_Some [of xs x] by (metis in_set_conv_nth not_None_eq)

section \<open>The skipped numbers\<close>

lemma push_skipped_eq:
  "push_skipped n seq missing = missing @ map of_nat [unat n..<unat seq]"
proof (induction n seq missing rule: push_skipped.induct)
  case (1 n seq missing)
  show ?case
  proof (cases "n < seq")
    case True
    then have "[unat n..<unat seq] = unat n # [Suc (unat n)..<unat seq]"
      by (simp add: word_less_nat_alt upt_conv_Cons)
    with 1 True show ?thesis by (subst push_skipped.simps) (simp add: sat_add_one)
  next
    case False
    then show ?thesis by (subst push_skipped.simps) (simp add: word_less_nat_alt)
  qed
qed

lemma map_of_nat_upt:
  assumes "b \<le> 2 ^ 64"
  shows "set (map (of_nat :: nat \<Rightarrow> u64) [a..<b]) = {w. a \<le> unat w \<and> unat w < b}"
    "sorted_wrt (<) (map (of_nat :: nat \<Rightarrow> u64) [a..<b])"
proof -
  have un: "unat (of_nat k :: u64) = k" if "k < b" for k
    using that assms by (simp add: unat_of_nat)
  show "set (map (of_nat :: nat \<Rightarrow> u64) [a..<b]) = {w. a \<le> unat w \<and> unat w < b}"
  proof (intro set_eqI iffI)
    fix w :: u64
    assume "w \<in> {w. a \<le> unat w \<and> unat w < b}"
    then show "w \<in> set (map of_nat [a..<b])"
      by (auto simp: image_iff intro!: bexI [of _ "unat w"])
  qed (auto simp: un)
  have "sorted_wrt (\<lambda>i j. (of_nat i :: u64) < of_nat j) [a..<b]"
    by (rule sorted_wrt_mono_rel [OF _ sorted_wrt_upt]) (auto simp: word_less_nat_alt un)
  then show "sorted_wrt (<) (map (of_nat :: nat \<Rightarrow> u64) [a..<b])" by (simp add: sorted_wrt_map)
qed

text \<open>
  What the tracker knows after the observations \<open>h\<close> (in order), with the set of numbers it has given up on: every number
  from the first to the highest has been observed, is outstanding, or was given up, and outstanding numbers have neither
  been observed nor given up.
\<close>

definition tracks :: "u64 list \<Rightarrow> SeqState \<Rightarrow> u64 set \<Rightarrow> bool" where
  "tracks h s lost \<longleftrightarrow>
     h \<noteq> [] \<and> ss_first_seq s = hd h \<and> ss_high s \<in> set h \<and> (\<forall>x \<in> set h. x \<le> ss_high s) \<and>
     sorted_wrt (<) (ss_missing s) \<and> length (ss_missing s) \<le> MISSING_CAP \<and>
     {x. ss_first_seq s \<le> x \<and> x \<le> ss_high s} \<subseteq> set h \<union> set (ss_missing s) \<union> lost \<and>
     set (ss_missing s) \<inter> (set h \<union> lost) = {} \<and>
     set (ss_missing s) \<union> lost \<subseteq> {x. ss_first_seq s < x \<and> x < ss_high s} \<and>
     unat (ss_gaps s) = card lost"

lemma tracks_first:
  "classify SeqState_default seq True = (v, s) \<Longrightarrow> v = FirstOfEpoch \<and> tracks [seq] s {}"
  by (auto simp: classify_def tracks_def SeqState_default_def MISSING_CAP_def)

lemma sorted_wrt_remove:
  fixes x :: "'a::linorder"
  assumes "sorted_wrt (<) (a @ x # b)"
  shows "sorted_wrt (<) (a @ b)" "set (a @ b) = set (a @ x # b) - {x}"
  using assms by (auto simp: sorted_wrt_append)

lemma tracks_low:
  assumes "tracks h s lost" "seq \<le> ss_high s" "classify s seq False = (v, s')"
  shows "tracks (h @ [seq]) s' lost \<and> v = (if seq \<in> set (ss_missing s) then Reordered else Replay) \<and> ss_gaps s' = ss_gaps s"
proof (cases "binary_search (ss_missing s) seq")
  case None
  with assms have "seq \<notin> set (ss_missing s)" by (simp add: tracks_def binary_search_None)
  with None assms show ?thesis by (auto simp: classify_def tracks_def)
next
  case (Some idx)
  let ?m = "ss_missing s" let ?m' = "take idx ?m @ drop (Suc idx) ?m"
  have sorted: "sorted_wrt (<) ?m" using assms(1) by (simp add: tracks_def)
  with Some have idx: "idx < length ?m" "?m ! idx = seq" by (simp_all add: binary_search_Some)
  have split: "?m = take idx ?m @ seq # drop (Suc idx) ?m" using id_take_nth_drop [OF idx(1)] idx(2) by simp
  have sorted': "sorted_wrt (<) ?m'" "set ?m' = set ?m - {seq}"
    using sorted_wrt_remove [of "take idx ?m" seq "drop (Suc idx) ?m"] sorted split by metis+
  have "seq \<in> set ?m" using idx nth_mem by blast
  moreover have "s' = s\<lparr>ss_missing := ?m'\<rparr>" "v = Reordered"
    using assms(2,3) Some by (auto simp: classify_def)
  ultimately show ?thesis
    using assms(1) sorted' idx(1) by (auto simp: tracks_def)
qed

text \<open>What is owed when a number above the highest one arrives: the outstanding numbers and the ones it skips.\<close>

definition owed :: "u64 list \<Rightarrow> SeqState \<Rightarrow> u64 set \<Rightarrow> u64 \<Rightarrow> u64 list \<Rightarrow> bool" where
  "owed h s lost seq m \<longleftrightarrow>
     sorted_wrt (<) m \<and> set m \<inter> (set (h @ [seq]) \<union> lost) = {} \<and>
     set m \<subseteq> {x. ss_first_seq s < x \<and> x < seq} \<and>
     {x. ss_first_seq s \<le> x \<and> x \<le> seq} \<subseteq> set (h @ [seq]) \<union> set m \<union> lost"

lemma skipped_set:
  assumes "hi < (seq :: u64)"
  shows "set (map of_nat [Suc (unat hi)..<unat seq]) = {x. hi < x \<and> x < seq}"
    "sorted_wrt (<) (map (of_nat :: nat \<Rightarrow> u64) [Suc (unat hi)..<unat seq])"
proof -
  have "unat seq \<le> 2 ^ 64" using unsigned_less [of seq, where ?'a = nat] by simp
  note skip = map_of_nat_upt [OF this, of "Suc (unat hi)"]
  show "set (map of_nat [Suc (unat hi)..<unat seq]) = {x. hi < x \<and> x < seq}"
    unfolding skip(1) by (auto simp: word_less_nat_alt Suc_le_eq)
  show "sorted_wrt (<) (map (of_nat :: nat \<Rightarrow> u64) [Suc (unat hi)..<unat seq])" by (rule skip(2))
qed

lemma owed_skipped:
  assumes t: "tracks h s lost" and lt: "ss_high s < seq"
  shows "owed h s lost seq (push_skipped (sat_add (ss_high s) 1) seq (ss_missing s))"
proof -
  let ?skip = "map of_nat [Suc (unat (ss_high s))..<unat seq] :: u64 list"
  have m: "push_skipped (sat_add (ss_high s) 1) seq (ss_missing s) = ss_missing s @ ?skip"
    by (simp add: push_skipped_eq sat_add_one [OF lt])
  have old: "\<forall>x \<in> set (ss_missing s) \<union> lost. ss_first_seq s < x \<and> x < ss_high s" "ss_first_seq s \<le> ss_high s"
    "\<forall>x \<in> set h. x \<le> ss_high s" "sorted_wrt (<) (ss_missing s)" "set (ss_missing s) \<inter> (set h \<union> lost) = {}"
    "{x. ss_first_seq s \<le> x \<and> x \<le> ss_high s} \<subseteq> set h \<union> set (ss_missing s) \<union> lost"
    using t by (auto simp: tracks_def)
  have set: "set (ss_missing s @ ?skip) = set (ss_missing s) \<union> {x. ss_high s < x \<and> x < seq}"
    by (simp only: set_append skipped_set(1) [OF lt])
  have "x < y" if "x \<in> set (ss_missing s)" "y \<in> set ?skip" for x y
    using that old(1) unfolding skipped_set(1) [OF lt] by (auto intro: less_trans)
  then have "sorted_wrt (<) (ss_missing s @ ?skip)"
    unfolding sorted_wrt_append by (intro conjI ballI old(4) skipped_set(2) [OF lt])
  moreover have "set (ss_missing s @ ?skip) \<inter> (set (h @ [seq]) \<union> lost) = {}"
  proof -
    have "x \<noteq> y" if "ss_high s < x" "y \<in> set h \<union> lost" for x y
      using that old(1,3) by (auto dest: less_trans)
    moreover have "seq \<notin> set (ss_missing s)" using old(1) lt by (auto dest: less_trans)
    ultimately show ?thesis unfolding set using old(5) by auto
  qed
  moreover have "set (ss_missing s @ ?skip) \<subseteq> {x. ss_first_seq s < x \<and> x < seq}"
    unfolding set using old(1,2) lt by (auto intro: less_trans le_less_trans)
  moreover have "{x. ss_first_seq s \<le> x \<and> x \<le> seq} \<subseteq> set (h @ [seq]) \<union> set (ss_missing s @ ?skip) \<union> lost"
    unfolding set using old(6) by fastforce
  ultimately show ?thesis by (simp only: owed_def m)
qed

text \<open>Giving up the first \<open>e\<close> numbers owed, as many as exceed the cap.\<close>

lemma give_up_count:
  assumes "owed h s lost seq m" "lost \<subseteq> {x. ss_first_seq s < x \<and> x < seq}" "unat (ss_gaps s) = card lost"
    "e \<le> length m"
  shows "card (lost \<union> set (take e m)) = card lost + e" "unat (of_nat e :: u64) = e"
    "unat (sat_add (ss_gaps s) (of_nat e)) = card (lost \<union> set (take e m))"
proof -
  have "distinct (take e m)" using assms(1) by (auto simp: owed_def strict_sorted_iff)
  moreover have "lost \<inter> set (take e m) = {}" using assms(1) set_take_subset [of e m] by (auto simp: owed_def)
  ultimately show card: "card (lost \<union> set (take e m)) = card lost + e"
    using assms(4) by (simp add: card_Un_disjoint distinct_card)
  have "lost \<union> set (take e m) \<subset> (UNIV :: u64 set)"
    using assms(1,2) set_take_subset [of e m] by (fastforce simp: owed_def)
  then have "card (lost \<union> set (take e m)) < card (UNIV :: u64 set)" by (rule psubset_card_mono [OF finite])
  then have small: "card lost + e < 2 ^ 64" by (simp add: card_word card)
  then show e: "unat (of_nat e :: u64) = e" by (simp add: unat_of_nat)
  show "unat (sat_add (ss_gaps s) (of_nat e)) = card (lost \<union> set (take e m))"
    using small by (simp add: sat_add_def card e assms(3) unat_add_lem [THEN iffD1])
qed

lemma owed_split:
  assumes "owed h s lost seq m"
  shows "sorted_wrt (<) (drop e m)" "set (drop e m) \<inter> (set (h @ [seq]) \<union> (lost \<union> set (take e m))) = {}"
    "set (drop e m) \<union> set (take e m) = set m" "set (take e m) \<inter> set (h @ [seq]) = {}"
proof -
  have "sorted_wrt (<) (take e m @ drop e m)" using assms by (simp add: owed_def)
  then have d: "sorted_wrt (<) (drop e m)" "distinct (take e m @ drop e m)"
    by (simp_all only: sorted_wrt_append) (use assms in \<open>simp add: owed_def strict_sorted_iff\<close>)
  have u: "set (take e m) \<union> set (drop e m) = set m" by (simp only: append_take_drop_id flip: set_append)
  show "sorted_wrt (<) (drop e m)" "set (drop e m) \<union> set (take e m) = set m" using d(1) u by auto
  show "set (drop e m) \<inter> (set (h @ [seq]) \<union> (lost \<union> set (take e m))) = {}" "set (take e m) \<inter> set (h @ [seq]) = {}"
    using assms u d(2) unfolding owed_def distinct_append by blast+
qed

text \<open>A number above the highest one: the skipped ones become outstanding, and what exceeds the cap is given up.\<close>

lemma tracks_high:
  assumes t: "tracks h s lost" and seq: "\<not> seq \<le> ss_high s" and c: "classify s seq False = (v, s')"
  obtains lost' where "tracks (h @ [seq]) s' lost'" "lost \<subseteq> lost'" "(lost' - lost) \<inter> set (h @ [seq]) = {}"
    "v = (if lost' = lost then Advance else Gap (of_nat (card (lost' - lost))))"
proof -
  define m where "m = push_skipped (sat_add (ss_high s) 1) seq (ss_missing s)"
  define e where "e = length m - MISSING_CAP"
  define lost' where "lost' = lost \<union> set (take e m)"
  have lt: "ss_high s < seq" using seq by simp
  have o: "owed h s lost seq m" unfolding m_def by (rule owed_skipped [OF t lt])
  have old: "lost \<subseteq> {x. ss_first_seq s < x \<and> x < seq}" "unat (ss_gaps s) = card lost" "h \<noteq> []" "ss_first_seq s = hd h"
    "\<forall>x \<in> set h. x \<le> ss_high s"
    using t lt by (auto simp: tracks_def)
  note count = give_up_count [OF o old(1,2), of e, folded lost'_def] and split = owed_split [OF o, of e]
  have le: "e \<le> length m" by (simp add: e_def)
  have vs: "v = (if e = 0 then Advance else Gap (of_nat e))"
    "s' = s\<lparr>ss_missing := drop e m, ss_high := seq,
          ss_gaps := (if e = 0 then ss_gaps s else sat_add (ss_gaps s) (of_nat e))\<rparr>"
    using c seq count(2) [OF le]
    by (auto simp: classify_def Let_def m_def [symmetric] e_def word_less_nat_alt split: if_splits)
  have "unat (ss_gaps s') = card lost'" using count [OF le] old(2) by (simp add: vs(2) lost'_def)
  moreover have "length (drop e m) \<le> MISSING_CAP" by (simp add: e_def)
  ultimately have "tracks (h @ [seq]) s' lost'"
    using o old lt split unfolding tracks_def owed_def vs(2) lost'_def
    by (auto intro: order.trans less_imp_le)
  moreover have diff: "lost' - lost = set (take e m)" using o split(3) by (auto simp: lost'_def owed_def)
  moreover have "card (set (take e m)) = e"
    using o le by (simp add: owed_def strict_sorted_iff distinct_card)
  ultimately show ?thesis
    using vs(1) split(4) le by (intro that [of lost']) (auto simp: lost'_def)
qed

section \<open>A run of observations\<close>

definition track_run :: "u64 list \<Rightarrow> SeqState" where
  "track_run h =
     (case h of
        [] \<Rightarrow> SeqState_default
      | x # xs \<Rightarrow> foldl (\<lambda>s q. snd (classify s q False)) (snd (classify SeqState_default x True)) xs)"

lemma track_run_snoc: "h \<noteq> [] \<Longrightarrow> track_run (h @ [q]) = snd (classify (track_run h) q False)"
  by (cases h) (simp_all add: track_run_def)

lemma tracks_run: "h \<noteq> [] \<Longrightarrow> \<exists>lost. tracks h (track_run h) lost"
proof (induction h rule: rev_induct)
  case (snoc q h)
  show ?case
  proof (cases "h = []")
    case True
    obtain v s where "classify SeqState_default q True = (v, s)" by fastforce
    with tracks_first [OF this] True show ?thesis by (auto simp: track_run_def)
  next
    case False
    with snoc.IH obtain lost where t: "tracks h (track_run h) lost" by blast
    obtain v s where c: "classify (track_run h) q False = (v, s)" by fastforce
    show ?thesis
    proof (cases "q \<le> ss_high (track_run h)")
      case True
      from tracks_low [OF t True c] show ?thesis by (auto simp: track_run_snoc [OF False] c)
    next
      case False': False
      from tracks_high [OF t False' c] show ?thesis by (metis track_run_snoc [OF False] c snd_conv)
    qed
  qed
qed simp

lemma run_verdict:
  assumes "h \<noteq> []" "classify (track_run h) q False = (v, s)"
  obtains "v = Replay" | "v \<noteq> Replay" "q \<notin> set h"
proof -
  obtain lost where t: "tracks h (track_run h) lost" using tracks_run [OF assms(1)] by blast
  show thesis
  proof (cases "q \<le> ss_high (track_run h)")
    case True
    from tracks_low [OF t True assms(2)] t show thesis
      by (auto simp: tracks_def split: if_splits intro: that)
  next
    case False
    with t have "q \<notin> set h" by (auto simp: tracks_def)
    moreover have "v \<noteq> Replay" by (rule tracks_high [OF t False assms(2)]) simp
    ultimately show thesis by (rule that(2) [rotated])
  qed
qed

end
