(* ===== verification/Ingest_Properties.thy ===== *)
theory Ingest_Properties
  imports Ingest_Seq
begin

text \<open>
  The properties of delivery tracking: what the counters of an epoch mean, how much state a collector can create, and
  which confirmed gaps reach the audit ledger.
\<close>

section \<open>The table\<close>

lemma own_keys_distinct: "sorted_wrt (<) (map fst t) \<Longrightarrow> distinct (own_keys c t)"
  by (simp add: own_keys_def strict_sorted_iff)

lemma own_keys_put:
  assumes "sorted_wrt (<) (map fst t)"
  shows "length (own_keys c (tab_put k v t)) \<le> Suc (length (own_keys c t))"
    "k \<in> fst ` set t \<Longrightarrow> length (own_keys c (tab_put k v t)) = length (own_keys c t)"
proof -
  let ?t = "tab_put k v t"
  have set: "set (own_keys c ?t) \<subseteq> insert k (set (own_keys c t))"
    "k \<in> fst ` set t \<Longrightarrow> set (own_keys c ?t) = set (own_keys c t)"
    using tab_put_keys [OF assms, of k v] by (auto simp: own_keys_def)
  have len: "length (own_keys c ?t) = card (set (own_keys c ?t))" "length (own_keys c t) = card (set (own_keys c t))"
    using own_keys_distinct assms tab_put_keys [OF assms] by (metis distinct_card)+
  show "length (own_keys c ?t) \<le> Suc (length (own_keys c t))"
    unfolding len using card_mono [OF _ set(1)] card_insert_le_m1 by (simp add: card_insert_if split: if_splits)
  show "length (own_keys c ?t) = length (own_keys c t)" if "k \<in> fst ` set t"
    unfolding len using set(2) [OF that] by simp
qed

lemma filter_not_one:
  "distinct xs \<Longrightarrow> length xs \<le> Suc (length (filter (\<lambda>x. x \<noteq> k) xs))"
proof (induction xs)
  case (Cons a xs)
  show ?case
  proof (cases "a = k")
    case True
    with Cons.prems have "filter (\<lambda>x. x \<noteq> k) xs = xs" by (auto intro: filter_True)
    with True show ?thesis by simp
  qed (use Cons in simp)
qed simp

lemma drop_keys_props:
  "map_of (drop_keys vs t) k = (if k \<in> set vs then None else map_of t k)"
  "map fst (drop_keys vs t) = filter (\<lambda>k. k \<notin> set vs) (map fst t)"
  by (induction t) (auto simp: drop_keys_def)

text \<open>How many rows are left when the oldest are removed except the one just written.\<close>

lemma drop_keys_count:
  assumes "sorted_wrt (<) (map fst t)" "keys = own_keys c t" "cap < length keys"
    "vs = filter (\<lambda>k. k \<noteq> keep) (take (length keys - cap) keys)"
  shows "length (own_keys c (drop_keys vs t)) \<le> Suc cap"
proof -
  have d: "distinct keys" using own_keys_distinct assms(1,2) by simp
  have "own_keys c (drop_keys vs t) = filter (\<lambda>k. k \<notin> set vs) keys"
    by (simp add: own_keys_def drop_keys_props(2) assms(2) conj_commute)
  moreover have "length (filter (\<lambda>k. k \<in> set vs) keys) + length (filter (\<lambda>k. k \<notin> set vs) keys) = length keys"
    by (rule sum_length_filter_compl)
  moreover have "length (filter (\<lambda>k. k \<in> set vs) keys) = length vs"
  proof -
    have "set vs \<subseteq> set keys" using set_take_subset [of "length keys - cap" keys] by (auto simp: assms(4))
    then have "set (filter (\<lambda>k. k \<in> set vs) keys) = set vs" by auto
    moreover have "distinct vs" using d by (simp add: assms(4))
    ultimately show ?thesis using d by (metis distinct_card distinct_filter)
  qed
  moreover have "length keys - cap \<le> Suc (length vs)"
    using filter_not_one [of "take (length keys - cap) keys" keep] d assms(3,4) by simp
  ultimately show ?thesis using assms(3) by simp
qed

lemma fold_orphaned_cases:
  assumes "fold_orphaned to_json from_json keys vs n t = Some t'"
  obtains "t' = t" | kept b where "kept \<in> set keys" "map_of t kept \<noteq> None" "t' = tab_put kept b t"
proof (cases "t' = t")
  case False
  with assms obtain kept s b where "find (\<lambda>k. k \<notin> set vs) keys = Some kept"
      "Option.bind (map_of t kept) from_json = Some s" "t' = tab_put kept b t"
    by (auto simp: fold_orphaned_def split: if_splits option.splits)
  then show thesis
    by (intro that(2) [of kept b]) (auto simp: find_Some_iff bind_eq_Some_conv)
qed (rule that(1))

lemma evict_bound:
  assumes "sorted_wrt (<) (map fst t)" "evict_stale_epochs to_json from_json t c keep = Some t'"
  shows "length (own_keys c t') \<le> Suc EPOCHS_PER_COLLECTOR_CAP \<and> sorted_wrt (<) (map fst t') \<and>
    (\<forall>k. \<not> starts_with k (seq_prefix c) \<longrightarrow> map_of t' k = map_of t k)"
proof (cases "length (own_keys c t) \<le> EPOCHS_PER_COLLECTOR_CAP")
  case True
  with assms show ?thesis by (simp add: evict_stale_epochs_def)
next
  case False
  define keys where "keys = own_keys c t"
  define vs where "vs = filter (\<lambda>k. k \<noteq> keep) (take (length keys - EPOCHS_PER_COLLECTOR_CAP) keys)"
  define t1 where "t1 = drop_keys vs t"
  have count: "length (own_keys c t1) \<le> Suc EPOCHS_PER_COLLECTOR_CAP"
    unfolding t1_def by (rule drop_keys_count [OF assms(1) keys_def _ vs_def]) (use False keys_def in simp)
  have sorted: "sorted_wrt (<) (map fst t1)" using assms(1) by (simp add: t1_def drop_keys_props(2) sorted_wrt_filter)
  have own: "starts_with k (seq_prefix c)" if "k \<in> set keys" for k using that by (simp add: keys_def own_keys_def)
  have vs: "set vs \<subseteq> set keys" using set_take_subset [of _ keys] by (auto simp: vs_def)
  have others: "map_of t1 k = map_of t k" if "\<not> starts_with k (seq_prefix c)" for k
    using that own vs by (auto simp: t1_def drop_keys_props(1))
  obtain n where "fold_orphaned to_json from_json keys vs n t1 = Some t'"
    using assms(2) False unfolding evict_stale_epochs_def Let_def keys_def vs_def t1_def by auto
  then show ?thesis
  proof (cases rule: fold_orphaned_cases)
    case 1
    with count sorted others show ?thesis by simp
  next
    case (2 kept b)
    then have "kept \<in> fst ` set t1" by (metis map_of_eq_None_iff)
    with own_keys_put [OF sorted, of kept c b] count have "length (own_keys c t') \<le> Suc EPOCHS_PER_COLLECTOR_CAP"
      by (simp add: 2(3))
    moreover have "k \<noteq> kept" if "\<not> starts_with k (seq_prefix c)" for k using that own 2(1) by blast
    ultimately show ?thesis using tab_put_keys [OF sorted, of kept b] others by (simp add: 2(3) tab_put_map_of)
  qed
qed

lemma observe_bound:
  assumes "sorted_wrt (<) (map fst t)" "length (own_keys c t) \<le> Suc EPOCHS_PER_COLLECTOR_CAP"
    "observe_ingest_seq to_json from_json ok now t c epoch seq = (r, t')"
  shows "length (own_keys c t') \<le> Suc EPOCHS_PER_COLLECTOR_CAP \<and> sorted_wrt (<) (map fst t') \<and>
    (\<forall>k. \<not> starts_with k (seq_prefix c) \<longrightarrow> map_of t' k = map_of t k)"
proof (cases "t' = t")
  case False
  let ?k = "seq_key c epoch"
  have own: "starts_with ?k (seq_prefix c)" by (simp add: seq_key_def seq_prefix_def starts_with_def Let_def)
  from False assms(3) obtain b where
      "evict_stale_epochs to_json from_json (tab_put ?k b t) c ?k = Some t' \<or>
       Option.bind (map_of t ?k) from_json \<noteq> None \<and> t' = tab_put ?k b t"
    by (auto simp: observe_ingest_seq_def Let_def split: prod.splits if_splits option.splits)
  then have "evict_stale_epochs to_json from_json (tab_put ?k b t) c ?k = Some t' \<or>
       map_of t ?k \<noteq> None \<and> t' = tab_put ?k b t"
    by (cases "map_of t ?k") auto
  then show ?thesis
  proof
    assume "evict_stale_epochs to_json from_json (tab_put ?k b t) c ?k = Some t'"
    from evict_bound [OF _ this] tab_put_keys [OF assms(1), of ?k b] own
    show ?thesis by (auto simp: tab_put_map_of)
  next
    assume t': "map_of t ?k \<noteq> None \<and> t' = tab_put ?k b t"
    then have "?k \<in> fst ` set t" by (metis map_of_eq_None_iff)
    with own_keys_put(2) [OF assms(1), of ?k c b] assms(2) t' tab_put_keys [OF assms(1), of ?k b] own
    show ?thesis by (auto simp: tab_put_map_of)
  qed
qed (use assms in simp)

section \<open>Gap audits\<close>

definition lost_of :: "string \<Rightarrow> (SeqMark \<times> SeqVerdict option \<times> u64) list \<Rightarrow> nat" where
  "lost_of c obs =
     sum_list (map (\<lambda>(m, v, now). case v of Some (Gap n) \<Rightarrow> if sm_collector_id m = c then unat n else 0 | _ \<Rightarrow> 0) obs)"

definition audited_of :: "string \<Rightarrow> gap_audit list \<Rightarrow> nat" where
  "audited_of c audits = sum_list (map (\<lambda>(d, n, e, q). if d = c then unat n else 0) audits)"

definition pending_of :: "string \<Rightarrow> (string \<Rightarrow> GapWindow option) \<Rightarrow> nat" where
  "pending_of c ws = (case ws c of None \<Rightarrow> 0 | Some w \<Rightarrow> unat (gw_pending_lost w))"

lemma pending_of_upd [simp]:
  "pending_of c (ws(d \<mapsto> w)) = (if d = c then unat (gw_pending_lost w) else pending_of c ws)"
  by (simp add: pending_of_def)

lemma sat_add_unat: "unat a + unat b < 2 ^ 64 \<Longrightarrow> unat (sat_add a b) = unat a + unat b"
  by (simp add: sat_add_def unat_add_lem [THEN iffD1])

lemma gap_step:
  assumes "seq_observe_step (ws, as) ob = (ws', as')" "pending_of c ws + lost_of c [ob] < 2 ^ 64"
  shows "audited_of c as' + pending_of c ws' = audited_of c as + pending_of c ws + lost_of c [ob]"
proof -
  obtain m v now where ob: "ob = (m, v, now)" by (metis prod_cases3)
  show ?thesis
  proof (cases "\<exists>n. v = Some (Gap n)")
    case True
    then obtain n where v: "v = Some (Gap n)" by blast
    define w where "w = (case ws (sm_collector_id m) of None \<Rightarrow> GapWindow_default | Some w \<Rightarrow> w)"
    have p: "unat (gw_pending_lost w) = pending_of (sm_collector_id m) ws"
      by (simp add: w_def pending_of_def GapWindow_default_def split: option.split)
    show ?thesis
    proof (cases "sm_collector_id m = c")
      case True
      with assms(2) p have "unat (sat_add (gw_pending_lost w) n) = unat (gw_pending_lost w) + unat n"
        by (intro sat_add_unat) (simp add: lost_of_def ob v)
      with assms(1) True p show ?thesis
        unfolding ob v seq_observe_step_def
        by (auto simp: Let_def w_def [symmetric] flush_gap_window_def lost_of_def audited_of_def
            simp flip: unat_eq_zero split: if_splits)
    next
      case False
      with assms(1) show ?thesis
        unfolding ob v seq_observe_step_def
        by (auto simp: Let_def flush_gap_window_def lost_of_def audited_of_def split: if_splits)
    qed
  next
    case False
    then have "(ws', as') = (ws, as)" "lost_of c [ob] = 0"
      using assms(1) by (auto simp: ob seq_observe_step_def lost_of_def split: option.splits SeqVerdict.splits)
    then show ?thesis by simp
  qed
qed

lemma gap_loop:
  assumes "lost_of c obs < 2 ^ 64"
  shows "case seq_observe_loop obs of (ws, as) \<Rightarrow> audited_of c as + pending_of c ws = lost_of c obs"
  using assms
proof (induction obs rule: rev_induct)
  case Nil
  show ?case by (simp add: seq_observe_loop_def audited_of_def pending_of_def lost_of_def)
next
  case (snoc ob obs)
  obtain ws as where l: "seq_observe_loop obs = (ws, as)" by fastforce
  obtain ws' as' where st: "seq_observe_step (ws, as) ob = (ws', as')" by fastforce
  have split: "lost_of c (obs @ [ob]) = lost_of c obs + lost_of c [ob]" by (simp add: lost_of_def)
  then have IH: "audited_of c as + pending_of c ws = lost_of c obs" using snoc l by simp
  then have "audited_of c as' + pending_of c ws' = lost_of c obs + lost_of c [ob]"
    using gap_step [OF st, of c] snoc.prems split by simp
  moreover have "seq_observe_loop (obs @ [ob]) = (ws', as')"
    using l st by (simp add: seq_observe_loop_def)
  ultimately show ?case by (simp add: split)
qed

section \<open>The health view\<close>

lemma show_nat_digits: "set (show_nat n) \<subseteq> dec_digit ` {..<10}"
proof (induction n rule: show_nat.induct)
  case (1 n)
  then show ?case by (subst show_nat.simps) auto
qed

lemma dec_digit_neq: "k < 10 \<Longrightarrow> dec_digit k \<noteq> CHR ''|''"
proof -
  assume "k < 10"
  then have "of_char (dec_digit k) \<noteq> (of_char CHR ''|'' :: nat)" by simp
  then show ?thesis by metis
qed

lemma show_nat_head: "0 < n \<Longrightarrow> hd (show_nat n) \<noteq> CHR ''0''"
proof (induction n rule: show_nat.induct)
  case (1 n)
  show ?case
  proof (cases "n < 10")
    case True
    with 1(2) have "of_char (dec_digit n) \<noteq> (of_char CHR ''0'' :: nat)" by simp
    with True show ?thesis by (metis show_nat.simps list.sel(1))
  next
    case False
    with 1 have "hd (show_nat (n div 10)) \<noteq> CHR ''0''" by simp
    with False show ?thesis using show_nat_graphic [of "n div 10"] by (subst show_nat.simps) simp
  qed
qed

lemma parse_padded:
  "(case parse_u64 (dropWhile (\<lambda>c. c = CHR ''0'') (replicate k CHR ''0'' @ show_u64 e)) of None \<Rightarrow> 0 | Some w \<Rightarrow> w) = e"
proof -
  have strip: "dropWhile (\<lambda>c. c = CHR ''0'') (replicate k CHR ''0'' @ d) = dropWhile (\<lambda>c. c = CHR ''0'') d" for d
    by (induction k) simp_all
  have trim: "trim (show_u64 e) = show_u64 e"
    by (rule trim_graphic) (use show_nat_graphic [of "unat e"] in \<open>simp add: show_u64_def\<close>)
  show ?thesis
  proof (cases "unat e = 0")
    case True
    moreover have "show_nat 0 = ''0''" by code_simp
    ultimately show ?thesis by (simp add: strip show_u64_def parse_u64_def unat_eq_zero)
  next
    case False
    then obtain c cs where "show_u64 e = c # cs" "c \<noteq> CHR ''0''"
      using show_nat_head [of "unat e"] show_nat_graphic [of "unat e"]
      by (cases "show_nat (unat e)") (auto simp: show_u64_def)
    then have "dropWhile (\<lambda>c. c = CHR ''0'') (show_u64 e) = show_u64 e" by simp
    then show ?thesis using parse_show_u64 [of e] by (simp add: strip trim)
  qed
qed

lemma rsplit_once_last:
  assumes "x \<notin> set b"
  shows "rsplit_once x (a @ x # b) = Some (a, b)"
proof -
  have "takeWhile (\<lambda>y. y \<noteq> x) (rev b @ x # rev a) = rev b"
    using assms by (intro takeWhile_tail [THEN trans]) (auto simp: takeWhile_append)
  then show ?thesis by (simp add: rsplit_once_def)
qed

lemma health_row_key:
  assumes "from_json b = Some s"
  shows "seq_health_row from_json (seq_key c e, b) =
    [\<lparr>sh_collector_id = c, sh_epoch = e, sh_first_seq = ss_first_seq s, sh_high_seq = ss_high s, sh_gaps = ss_gaps s,
      sh_outstanding = of_nat (length (ss_missing s)), sh_replays = ss_replays s, sh_updated_us = ss_updated_us s\<rparr>]"
proof -
  let ?d = "replicate (20 - length (show_u64 e)) CHR ''0'' @ show_u64 e"
  have "CHR ''|'' \<notin> set ?d"
    using show_nat_digits [of "unat e"] dec_digit_neq by (fastforce simp: show_u64_def)
  then have "rsplit_once CHR ''|'' (seq_key c e) = Some (c, ?d)"
    using rsplit_once_last [of "CHR ''|''" ?d c] by (simp add: seq_key_def Let_def)
  with assms parse_padded [of "20 - length (show_u64 e)" e] show ?thesis by (simp add: seq_health_row_def)
qed

section \<open>The row of an epoch\<close>


lemma tracks_updated [simp]: "tracks h (s\<lparr>ss_updated_us := u\<rparr>) lost = tracks h s lost"
  by (simp add: tracks_def)





section \<open>Properties\<close>



text \<open>
  Verdicts tell the truth about one epoch: an already observed number is always a replay, and a confirmed gap of
  \<open>n\<close> stands for \<open>n\<close> distinct numbers below the new one of which none has ever been observed.
\<close>

lemma sequence_verdicts:
  assumes "h \<noteq> []" "classify (track_run h) q False = (v, s)"
  shows "(q \<in> set h \<longrightarrow> v = Replay) \<and>
    (\<forall>n. v = Gap n \<longrightarrow> n \<noteq> 0 \<and> (\<exists>lost. card lost = unat n \<and> lost \<inter> set h = {} \<and> lost \<subseteq> {x. hd h < x \<and> x < q}))"
proof -
  obtain lost where t: "tracks h (track_run h) lost" using tracks_run [OF assms(1)] by blast
  have "\<exists>l. n \<noteq> 0 \<and> card l = unat n \<and> l \<inter> set h = {} \<and> l \<subseteq> {x. hd h < x \<and> x < q}" if v: "v = Gap n" for n
  proof -
    have hi: "\<not> q \<le> ss_high (track_run h)" using tracks_low [OF t _ assms(2)] v by (auto split: if_splits)
    obtain l where l: "tracks (h @ [q]) s l" "lost \<subseteq> l" "(l - lost) \<inter> set (h @ [q]) = {}"
        "v = (if l = lost then Advance else Gap (of_nat (card (l - lost))))"
      using tracks_high [OF t hi assms(2)] .
    then have n: "n = of_nat (card (l - lost))" "l - lost \<noteq> {}" using v by (auto split: if_splits)
    have "ss_high s = q" using assms(2) hi by (auto simp: classify_def Let_def split: if_splits)
    then have "l - lost \<subset> UNIV" "l - lost \<subseteq> {x. hd h < x \<and> x < q}" using l(1) assms(1) by (auto simp: tracks_def)
    from psubset_card_mono [OF finite this(1)] have "unat n = card (l - lost)"
      by (simp add: n(1) card_word unat_of_nat)
    moreover have "card (l - lost) \<noteq> 0" using n(2) by (simp add: card_eq_0_iff finite_subset [OF _ finite])
    ultimately show ?thesis
      using l(3) \<open>l - lost \<subseteq> {x. hd h < x \<and> x < q}\<close> by (intro exI [of _ "l - lost"]) auto
  qed
  moreover have "q \<in> set h \<longrightarrow> v = Replay" by (rule run_verdict [OF assms]) auto
  ultimately show ?thesis by blast
qed

lemma sequence_verdicts_example:
  "fst (classify (track_run [3, 9]) 3 False) = Replay"
  using sequence_verdicts [of "[3, 9]" 3 "fst (classify (track_run [3, 9]) 3 False)" "snd (classify (track_run [3, 9]) 3 False)"]
  by simp

text \<open>
  A collector cannot grow the table: from any table in key order, an observation leaves at most one row more than
  the cap of epochs for its collector, keeps the order, and does not touch a row outside the collector's prefix. A failed
  observation changes nothing.
\<close>

lemma collector_state_bounded:
  assumes "sorted_wrt (<) (map fst t)" "length (own_keys c t) \<le> Suc EPOCHS_PER_COLLECTOR_CAP"
    "observe_ingest_seq to_json from_json ok now t c epoch seq = (r, t')"
  shows "length (own_keys c t') \<le> Suc EPOCHS_PER_COLLECTOR_CAP \<and> sorted_wrt (<) (map fst t') \<and>
    (\<forall>k. \<not> starts_with k (seq_prefix c) \<longrightarrow> map_of t' k = map_of t k) \<and> (r = None \<longrightarrow> t' = t)"
proof -
  have "r = None \<longrightarrow> t' = t"
    using assms(3) by (auto simp: observe_ingest_seq_def Let_def split: prod.splits if_splits option.splits)
  with observe_bound [OF assms] show ?thesis by blast
qed

lemma collector_state_bounded_example:
  "length (own_keys ''c'' (snd (observe_ingest_seq Some Some True 0 [(''d|1'', SeqState_default)] ''c'' 1 1))) \<le> 17 \<and>
   map_of (snd (observe_ingest_seq Some Some True 0 [(''d|1'', SeqState_default)] ''c'' 1 1)) ''d|1'' = Some SeqState_default"
  using collector_state_bounded [of "[(''d|1'', SeqState_default)]" "''c''" Some Some True 0 1 1
      "fst (observe_ingest_seq Some Some True 0 [(''d|1'', SeqState_default)] ''c'' 1 1)"
      "snd (observe_ingest_seq Some Some True 0 [(''d|1'', SeqState_default)] ''c'' 1 1)"]
  by (simp add: own_keys_def EPOCHS_PER_COLLECTOR_CAP_def starts_with_def seq_prefix_def)

text \<open>
  C20. No confirmed loss is dropped or counted twice between the tracker and the ledger: while the total stays below
  \<open>2 ^ 64\<close>, what the audit lines of a collector report plus what its window still holds is what its verdicts confirmed.
\<close>

theorem gap_audit_conserves_loss:
  assumes "lost_of c obs < 2 ^ 64"
  shows "audited_of c (snd (seq_observe_loop obs)) + pending_of c (fst (seq_observe_loop obs)) = lost_of c obs"
  using gap_loop [OF assms] by (simp add: case_prod_beta)

theorem gap_audit_conserves_loss_witness:
  "audited_of ''c'' (snd (seq_observe_loop [(\<lparr>sm_collector_id = ''c'', sm_epoch = 1, sm_seq = 9\<rparr>, Some (Gap 4), 1000)])) +
   pending_of ''c'' (fst (seq_observe_loop [(\<lparr>sm_collector_id = ''c'', sm_epoch = 1, sm_seq = 9\<rparr>, Some (Gap 4), 1000)])) = 4"
  using gap_audit_conserves_loss [of "''c''" "[(\<lparr>sm_collector_id = ''c'', sm_epoch = 1, sm_seq = 9\<rparr>, Some (Gap 4), 1000)]"]
  by (simp add: lost_of_def)

end
