(* ===== verification/Ha_Replica.thy ===== *)
theory Ha_Replica
  imports Garmr_Strings
begin

text \<open>
  Read replicas over an object store, \<open>garmr-retention/src/ha.rs\<close>, and the loops of the daemon that drive them
  (\<open>garmr-cli/src/serve.rs\<close>). The object store, the JSON forms of the manifest and of the lease, the normalisation of
  object paths and BLAKE3 are arguments. A store answers a read with the object and its version (the pair of entity tag
  and version), or that there is none, or with a failure, which stands for a failed transfer of the body too. Local file
  system faults are an argument of each operation that can meet them.
\<close>

section \<open>The object store\<close>

datatype 'e get_result = Found bytes 'e | NotFound | GetFailed

datatype 'e PutMode = Overwrite | Create | Update 'e

datatype put_result = PutOk | AlreadyExists | Precondition | PutFailed

type_synonym ('s, 'e) get_op = "'s \<Rightarrow> string \<Rightarrow> 'e get_result"
type_synonym ('s, 'e) put_op = "'s \<Rightarrow> string \<Rightarrow> bytes \<Rightarrow> 'e PutMode \<Rightarrow> put_result \<times> 's"

section \<open>Snapshots and leases\<close>

record Entry =
  en_path :: string
  en_len :: u64
  en_digest :: "string option"

record Manifest =
  mf_id :: u64
  mf_files :: "Entry list"
  mf_epoch :: u64
  mf_created_at_us :: int
  mf_writer :: string

record Lease =
  le_epoch :: u64
  le_holder :: string
  le_acquired_at_us :: int

datatype FenceVerdict = Continue | SelfFence u64

datatype HaErr = StoreErr | LostRace u64 | DigestMismatch string string string

definition MANIFEST_KEY :: string where
  "MANIFEST_KEY = ''MANIFEST.json''"

definition EPOCH_KEY :: string where
  "EPOCH_KEY = ''EPOCH.json''"

definition fence_verdict :: "u64 \<Rightarrow> Lease option \<Rightarrow> FenceVerdict" where
  "fence_verdict mine observed =
     (case observed of
        Some l \<Rightarrow> if le_epoch l > mine then SelfFence (le_epoch l) else Continue
      | None \<Rightarrow> Continue)"

text \<open>The object key of a file: the prefix and the relative path, normalised by the store's path type.\<close>

definition key :: "(string \<Rightarrow> string) \<Rightarrow> string \<Rightarrow> string \<Rightarrow> string" where
  "key path_from prefix rel = path_from (prefix @ rel)"

definition get_manifest :: "(bytes \<Rightarrow> Manifest option) \<Rightarrow> 'e get_result \<Rightarrow> HaErr + Manifest option" where
  "get_manifest dec answer =
     (case answer of
        Found b _ \<Rightarrow> (case dec b of None \<Rightarrow> Err StoreErr | Some m \<Rightarrow> Ok (Some m))
      | NotFound \<Rightarrow> Ok None
      | GetFailed \<Rightarrow> Err StoreErr)"

definition last_shipped_id :: "(bytes \<Rightarrow> Manifest option) \<Rightarrow> 'e get_result \<Rightarrow> HaErr + u64" where
  "last_shipped_id dec answer =
     (case get_manifest dec answer of
        Inl e \<Rightarrow> Err e
      | Inr m \<Rightarrow> Ok (case m of None \<Rightarrow> 0 | Some m \<Rightarrow> mf_id m))"

definition lease :: "(bytes \<Rightarrow> Lease option) \<Rightarrow> 'e get_result \<Rightarrow> HaErr + Lease option" where
  "lease dec answer =
     (case answer of
        Found b _ \<Rightarrow> (case dec b of None \<Rightarrow> Err StoreErr | Some l \<Rightarrow> Ok (Some l))
      | NotFound \<Rightarrow> Ok None
      | GetFailed \<Rightarrow> Err StoreErr)"

section \<open>Promotion\<close>

text \<open>
  Taking the lease is a read, which fixes the next epoch and the condition of the write, and the conditional write. Other
  nodes run between the two.
\<close>

definition lease_decision :: "(bytes \<Rightarrow> Lease option) \<Rightarrow> 'e get_result \<Rightarrow> HaErr + (u64 \<times> 'e PutMode)" where
  "lease_decision dec current =
     (case current of
        Found b v \<Rightarrow> (case dec b of None \<Rightarrow> Err StoreErr | Some l \<Rightarrow> Ok (le_epoch l + 1, Update v))
      | NotFound \<Rightarrow> Ok (1, Create)
      | GetFailed \<Rightarrow> Err StoreErr)"

definition lease_write ::
  "('s, 'e) put_op \<Rightarrow> (Lease \<Rightarrow> bytes option) \<Rightarrow> string \<Rightarrow> 's \<Rightarrow> string \<Rightarrow> int \<Rightarrow> u64 \<times> 'e PutMode \<Rightarrow> (HaErr + Lease) \<times> 's" where
  "lease_write put enc epoch_key s holder now_us decision =
     (case decision of (next_epoch, mode) \<Rightarrow>
        (let l = \<lparr>le_epoch = next_epoch, le_holder = holder, le_acquired_at_us = now_us\<rparr>
         in case enc l of
              None \<Rightarrow> (Err StoreErr, s)
            | Some body \<Rightarrow>
                (case put s epoch_key body mode of (r, s') \<Rightarrow>
                   (case r of
                      PutOk \<Rightarrow> (Ok l, s')
                    | AlreadyExists \<Rightarrow> (Err (LostRace next_epoch), s')
                    | Precondition \<Rightarrow> (Err (LostRace next_epoch), s')
                    | PutFailed \<Rightarrow> (Err StoreErr, s')))))"

definition acquire_lease ::
  "('s, 'e) get_op \<Rightarrow> ('s, 'e) put_op \<Rightarrow> (Lease \<Rightarrow> bytes option) \<Rightarrow> (bytes \<Rightarrow> Lease option) \<Rightarrow> string \<Rightarrow> 's \<Rightarrow>
   string \<Rightarrow> int \<Rightarrow> (HaErr + Lease) \<times> 's" where
  "acquire_lease get put enc dec epoch_key s holder now_us =
     (case lease_decision dec (get s epoch_key) of
        Inl e \<Rightarrow> (Err e, s)
      | Inr d \<Rightarrow> lease_write put enc epoch_key s holder now_us d)"

section \<open>Shipping\<close>

text \<open>
  A file of the warehouse as the writer meets it: the length its metadata gives, what streaming it yields (nothing when
  it cannot be opened or read) and, for a database file, how the attempts to take a private copy go. An attempt fails to
  copy, fails to run its check, leaves a copy that opens (with the bytes it has then), or one that does not.
\<close>

datatype copy_attempt = CopyFailed | JoinFailed | Opens bytes | Invalid

record ship_file =
  sf_rel :: string
  sf_len :: u64
  sf_read :: "bytes option"
  sf_attempts :: "copy_attempt list"
  sf_raw_copy :: "bytes option"

fun validated_redb_copy :: "nat \<Rightarrow> copy_attempt list \<Rightarrow> bytes option \<Rightarrow> HaErr + bytes" where
  "validated_redb_copy (Suc n) (a # as) raw =
     (case a of
        CopyFailed \<Rightarrow> Err StoreErr
      | JoinFailed \<Rightarrow> Err StoreErr
      | Opens b \<Rightarrow> Ok b
      | Invalid \<Rightarrow> validated_redb_copy n as raw)"
| "validated_redb_copy _ _ raw = (case raw of None \<Rightarrow> Err StoreErr | Some b \<Rightarrow> Ok b)"

definition upload_streamed ::
  "('s, 'e) put_op \<Rightarrow> (bytes \<Rightarrow> string) \<Rightarrow> string \<Rightarrow> 's \<Rightarrow> bytes option \<Rightarrow> (HaErr + u64 \<times> string) \<times> 's" where
  "upload_streamed put blake k s content =
     (case content of
        None \<Rightarrow> (Err StoreErr, s)
      | Some b \<Rightarrow>
          (case put s k b Overwrite of (r, s') \<Rightarrow>
             (if r = PutOk then (Ok (of_nat (length b), blake b), s') else (Err StoreErr, s'))))"

definition hash_file :: "(bytes \<Rightarrow> string) \<Rightarrow> bytes option \<Rightarrow> HaErr + string" where
  "hash_file blake content = (case content of None \<Rightarrow> Err StoreErr | Some b \<Rightarrow> Ok (blake b))"

definition collect_files :: "ship_file list \<Rightarrow> ship_file list" where
  "collect_files listing = sort_key sf_rel listing"

text \<open>The entry of a file already in the store, \<open>prev\<close> being the previous manifest's entries by path.\<close>

definition kept_entry ::
  "(bytes \<Rightarrow> string) \<Rightarrow> (string \<Rightarrow> Entry option) \<Rightarrow> ship_file \<Rightarrow> HaErr + Entry" where
  "kept_entry blake prev f =
     (case (case prev (sf_rel f) of
              None \<Rightarrow> None
            | Some e \<Rightarrow> if en_len e = sf_len f then en_digest e else None) of
        Some d \<Rightarrow> Ok \<lparr>en_path = sf_rel f, en_len = sf_len f, en_digest = Some d\<rparr>
      | None \<Rightarrow>
          (case hash_file blake (sf_read f) of
             Inl e \<Rightarrow> Err e
           | Inr d \<Rightarrow> Ok \<lparr>en_path = sf_rel f, en_len = sf_len f, en_digest = Some d\<rparr>))"

text \<open>What a file sends: a database file a private copy, any other file itself.\<close>

definition sent_content :: "ship_file \<Rightarrow> HaErr + bytes option" where
  "sent_content f =
     (if ends_with (sf_rel f) ''.redb''
      then (case validated_redb_copy 3 (sf_attempts f) (sf_raw_copy f) of Inl e \<Rightarrow> Err e | Inr b \<Rightarrow> Ok (Some b))
      else Ok (sf_read f))"

definition ship_one ::
  "('s \<Rightarrow> string \<Rightarrow> u64 option) \<Rightarrow> ('s, 'e) put_op \<Rightarrow> (bytes \<Rightarrow> string) \<Rightarrow> (string \<Rightarrow> string) \<Rightarrow>
   (string \<Rightarrow> Entry option) \<Rightarrow> 's \<Rightarrow> ship_file \<Rightarrow> (HaErr + Entry \<times> bool) \<times> 's" where
  "ship_one head put blake k prev s f =
     (if ends_with (sf_rel f) ''.parquet'' \<and> head s (k (sf_rel f)) = Some (sf_len f)
      then (case kept_entry blake prev f of Inl e \<Rightarrow> (Err e, s) | Inr e \<Rightarrow> (Ok (e, False), s))
      else
        (case sent_content f of
           Inl e \<Rightarrow> (Err e, s)
         | Inr content \<Rightarrow>
             (case upload_streamed put blake (k (sf_rel f)) s content of (r, s') \<Rightarrow>
                (case r of
                   Inl e \<Rightarrow> (Err e, s')
                 | Inr (n, d) \<Rightarrow> (Ok (\<lparr>en_path = sf_rel f, en_len = n, en_digest = Some d\<rparr>, True), s')))))"

fun ship_files ::
  "('s \<Rightarrow> string \<Rightarrow> u64 option) \<Rightarrow> ('s, 'e) put_op \<Rightarrow> (bytes \<Rightarrow> string) \<Rightarrow> (string \<Rightarrow> string) \<Rightarrow>
   (string \<Rightarrow> Entry option) \<Rightarrow> 's \<Rightarrow> ship_file list \<Rightarrow> Entry list \<Rightarrow> nat \<Rightarrow> (HaErr + Entry list \<times> nat) \<times> 's" where
  "ship_files head put blake k prev s [] entries uploaded = (Ok (entries, uploaded), s)"
| "ship_files head put blake k prev s (f # fs) entries uploaded =
     (case ship_one head put blake k prev s f of (r, s') \<Rightarrow>
        (case r of
           Inl e \<Rightarrow> (Err e, s')
         | Inr (e, sent) \<Rightarrow>
             ship_files head put blake k prev s' fs (entries @ [e]) (if sent then Suc uploaded else uploaded)))"

text \<open>Collecting entries into a hash map: of two with one path the later stays.\<close>

definition entries_by_path :: "Manifest option \<Rightarrow> string \<Rightarrow> Entry option" where
  "entries_by_path m = (case m of None \<Rightarrow> Map.empty | Some m \<Rightarrow> map_of (rev (map (\<lambda>e. (en_path e, e)) (mf_files m))))"

definition ship ::
  "('s, 'e) get_op \<Rightarrow> ('s \<Rightarrow> string \<Rightarrow> u64 option) \<Rightarrow> ('s, 'e) put_op \<Rightarrow> (Manifest \<Rightarrow> bytes option) \<Rightarrow>
   (bytes \<Rightarrow> Manifest option) \<Rightarrow> (bytes \<Rightarrow> string) \<Rightarrow> (string \<Rightarrow> string) \<Rightarrow> 's \<Rightarrow> ship_file list \<Rightarrow> u64 \<Rightarrow> u64 \<Rightarrow>
   string \<Rightarrow> int \<Rightarrow> (HaErr + nat) \<times> 's" where
  "ship get head put enc dec blake k s listing snapshot_id epoch writer now_us =
     (case get_manifest dec (get s (k MANIFEST_KEY)) of
        Inl e \<Rightarrow> (Err e, s)
      | Inr m \<Rightarrow>
          (case ship_files head put blake k (entries_by_path m) s (collect_files listing) [] 0 of (r, s') \<Rightarrow>
             (case r of
                Inl e \<Rightarrow> (Err e, s')
              | Inr (entries, uploaded) \<Rightarrow>
                  (case enc \<lparr>mf_id = snapshot_id, mf_files = entries, mf_epoch = epoch, mf_created_at_us = now_us,
                             mf_writer = writer\<rparr> of
                     None \<Rightarrow> (Err StoreErr, s')
                   | Some body \<Rightarrow>
                       (case put s' (k MANIFEST_KEY) body Overwrite of (p, s'') \<Rightarrow>
                          (if p = PutOk then (Ok uploaded, s'') else (Err StoreErr, s'')))))))"

section \<open>Pulling\<close>

text \<open>
  The follower's directories, each absent or a table of files by relative path, and the faults its file system can
  have. The removals whose failure the code ignores: the files an attempt to remove the old staging directory leaves, and
  whether the backup directory goes away before and after the swap. Creating the staging directory; then for each entry
  of the manifest (by position) creating its directory, the local copy, the writing of the download, and what a failure
  leaves in the staged file; and the two renames of the swap.
\<close>

record replica_fs =
  rf_live :: "(string \<Rightarrow> bytes option) option"
  rf_staging :: "(string \<Rightarrow> bytes option) option"
  rf_backup :: "(string \<Rightarrow> bytes option) option"

record replica_io =
  rio_leftover :: "string \<Rightarrow> bool"
  rio_clear_backup :: bool
  rio_drop_backup :: bool
  rio_staging :: bool
  rio_parent :: "nat \<Rightarrow> bool"
  rio_copy :: "nat \<Rightarrow> bool"
  rio_write :: "nat \<Rightarrow> bool"
  rio_residue :: "nat \<Rightarrow> bytes option"
  rio_rename_old :: bool
  rio_rename_new :: bool

text \<open>The local copy that may be used again: a parquet file of the recorded length.\<close>

definition local_candidate :: "(string \<Rightarrow> bytes option) option \<Rightarrow> Entry \<Rightarrow> bytes option" where
  "local_candidate live e =
     (if ends_with (en_path e) ''.parquet''
      then (case Option.bind live (\<lambda>fs. fs (en_path e)) of
              None \<Rightarrow> None
            | Some b \<Rightarrow> if of_nat (length b) = en_len e then Some b else None)
      else None)"

definition digest_accepts :: "(bytes \<Rightarrow> string) \<Rightarrow> Entry \<Rightarrow> bytes \<Rightarrow> bool" where
  "digest_accepts blake e b = (en_digest e = None \<or> en_digest e = Some (blake b))"

definition download :: "(bytes \<Rightarrow> string) \<Rightarrow> bool \<Rightarrow> 'e get_result \<Rightarrow> Entry \<Rightarrow> HaErr + bytes" where
  "download blake write_ok got e =
     (case got of
        Found b _ \<Rightarrow>
          (if \<not> write_ok then Err StoreErr
           else (case en_digest e of
                   None \<Rightarrow> Ok b
                 | Some want \<Rightarrow> if want \<noteq> blake b then Err (DigestMismatch (en_path e) want (blake b)) else Ok b))
      | NotFound \<Rightarrow> Err StoreErr
      | GetFailed \<Rightarrow> Err StoreErr)"

definition pull_file ::
  "(bytes \<Rightarrow> string) \<Rightarrow> replica_io \<Rightarrow> (string \<Rightarrow> bytes option) option \<Rightarrow> (nat \<Rightarrow> 'e get_result) \<Rightarrow> nat \<Rightarrow> Entry \<Rightarrow>
   HaErr + bytes" where
  "pull_file blake io live got i e =
     (if \<not> rio_parent io i then Err StoreErr
      else (case local_candidate live e of
              Some b \<Rightarrow>
                if rio_copy io i \<and> digest_accepts blake e b then Ok b
                else download blake (rio_write io i) (got i) e
            | None \<Rightarrow> download blake (rio_write io i) (got i) e))"

fun pull_files ::
  "(bytes \<Rightarrow> string) \<Rightarrow> replica_io \<Rightarrow> (string \<Rightarrow> bytes option) option \<Rightarrow> (nat \<Rightarrow> 'e get_result) \<Rightarrow> nat \<Rightarrow> Entry list \<Rightarrow>
   (string \<Rightarrow> bytes option) \<Rightarrow> HaErr option \<times> (string \<Rightarrow> bytes option)" where
  "pull_files blake io live got i [] staging = (None, staging)"
| "pull_files blake io live got i (e # es) staging =
     (case pull_file blake io live got i e of
        Inl err \<Rightarrow> (Some err, staging(en_path e := rio_residue io i))
      | Inr b \<Rightarrow> pull_files blake io live got (Suc i) es (staging(en_path e \<mapsto> b)))"

text \<open>Moving the live directory aside, the staged one in its place, and dropping the old one.\<close>

definition swap_in :: "replica_io \<Rightarrow> replica_fs \<Rightarrow> bool \<times> replica_fs" where
  "swap_in io fs =
     (let fs = (if rio_clear_backup io then fs\<lparr>rf_backup := None\<rparr> else fs)
      in if rf_live fs \<noteq> None \<and> \<not> rio_rename_old io then (False, fs)
         else (let fs = (if rf_live fs \<noteq> None then fs\<lparr>rf_backup := rf_live fs, rf_live := None\<rparr> else fs)
               in if \<not> rio_rename_new io then (False, fs)
                  else (let fs = fs\<lparr>rf_live := rf_staging fs, rf_staging := None\<rparr>
                        in (True, if rio_drop_backup io then fs\<lparr>rf_backup := None\<rparr> else fs))))"

text \<open>What is in the staging directory when the download starts.\<close>

definition fresh_staging :: "replica_io \<Rightarrow> replica_fs \<Rightarrow> string \<Rightarrow> bytes option" where
  "fresh_staging io fs p = (if rio_leftover io p then Option.bind (rf_staging fs) (\<lambda>d. d p) else None)"

text \<open>
  \<open>man\<close>, \<open>lease_answer\<close> and \<open>got\<close> are the store's answers at the moments they are asked for; a writer may ship in between.
\<close>

definition pull ::
  "(bytes \<Rightarrow> Manifest option) \<Rightarrow> (bytes \<Rightarrow> Lease option) \<Rightarrow> (bytes \<Rightarrow> string) \<Rightarrow> replica_io \<Rightarrow> 'e get_result \<Rightarrow>
   'e get_result \<Rightarrow> (nat \<Rightarrow> 'e get_result) \<Rightarrow> replica_fs \<Rightarrow> u64 \<Rightarrow> (HaErr + u64 option) \<times> replica_fs" where
  "pull dec_m dec_l blake io man lease_answer got fs have_id =
     (case get_manifest dec_m man of
        Inl e \<Rightarrow> (Err e, fs)
      | Inr None \<Rightarrow> (Ok None, fs)
      | Inr (Some m) \<Rightarrow>
          (if mf_id m \<le> have_id then (Ok None, fs)
           else
             (case lease dec_l lease_answer of
                Inl e \<Rightarrow> (Err e, fs)
              | Inr l \<Rightarrow>
                  (if (case l of Some l \<Rightarrow> mf_epoch m < le_epoch l | None \<Rightarrow> False) then (Ok None, fs)
                   else if \<not> rio_staging io then (Err StoreErr, fs\<lparr>rf_staging := Some (fresh_staging io fs)\<rparr>)
                   else
                     (case pull_files blake io (rf_live fs) got 0 (mf_files m) (fresh_staging io fs) of
                        (Some e, staged) \<Rightarrow> (Err e, fs\<lparr>rf_staging := Some staged\<rparr>)
                      | (None, staged) \<Rightarrow>
                          (case swap_in io (fs\<lparr>rf_staging := Some staged\<rparr>) of (done_ok, fs') \<Rightarrow>
                             if done_ok then (Ok (Some (mf_id m)), fs') else (Err StoreErr, fs')))))))"

section \<open>The daemon's loops\<close>

text \<open>The epoch a writer ships under and the counter it resumes, read once when the loop starts.\<close>

definition writer_epoch :: "HaErr + Lease option \<Rightarrow> u64" where
  "writer_epoch r = (case r of Inr (Some l) \<Rightarrow> le_epoch l | Inr None \<Rightarrow> 0 | Inl _ \<Rightarrow> 0)"

definition writer_counter :: "HaErr + u64 \<Rightarrow> u64" where
  "writer_counter r = (case r of Inr n \<Rightarrow> n | Inl _ \<Rightarrow> 0)"

text \<open>One round of the ship loop: stop when fenced, otherwise ship under the next id. An unreadable lease is ignored.\<close>

definition ship_round :: "u64 \<Rightarrow> u64 \<Rightarrow> HaErr + Lease option \<Rightarrow> u64 option" where
  "ship_round epoch snapshot_id observed =
     (case observed of
        Inr l \<Rightarrow> (case fence_verdict epoch l of SelfFence _ \<Rightarrow> None | Continue \<Rightarrow> Some (snapshot_id + 1))
      | Inl _ \<Rightarrow> Some (snapshot_id + 1))"

text \<open>One round of the follower: the id it holds afterwards.\<close>

definition follower_round :: "u64 \<Rightarrow> HaErr + u64 option \<Rightarrow> u64" where
  "follower_round have_id r = (case r of Inr (Some n) \<Rightarrow> n | _ \<Rightarrow> have_id)"

end
