(* ===== verification/Ha_Laws.thy ===== *)
theory Ha_Laws
  imports Ha_Replica
begin

text \<open>
  The contract of the object store as a locale, with an in-memory store that keeps it, and what promotion, shipping and
  pulling do over every store that keeps it.
\<close>

section \<open>The contract\<close>

definition condition_holds :: "'e PutMode \<Rightarrow> 'e get_result \<Rightarrow> bool" where
  "condition_holds mode current =
     (case mode of Overwrite \<Rightarrow> True | Create \<Rightarrow> current = NotFound | Update v \<Rightarrow> (\<exists>b. current = Found b v))"

text \<open>
  A successful put stores the body and, when conditional, found its condition true. A refused conditional put changes
  nothing; one that fails otherwise may or may not have landed. No put touches another object. A version identifies the
  body of its object, as an entity tag does.
\<close>

locale object_store =
  fixes get :: "('s, 'e) get_op" and head :: "'s \<Rightarrow> string \<Rightarrow> u64 option" and put :: "('s, 'e) put_op"
  assumes put_ok: "put s k b mode = (PutOk, s') \<Longrightarrow> condition_holds mode (get s k) \<and> (\<exists>v. get s' k = Found b v)"
    and put_refused: "put s k b mode = (r, s') \<Longrightarrow> r = AlreadyExists \<or> r = Precondition \<Longrightarrow> get s' k = get s k"
    and put_failed: "put s k b mode = (PutFailed, s') \<Longrightarrow>
      get s' k = get s k \<or> condition_holds mode (get s k) \<and> (\<exists>v. get s' k = Found b v)"
    and put_frame: "put s k b mode = (r, s') \<Longrightarrow> k' \<noteq> k \<Longrightarrow> get s' k' = get s k'"
    and version: "get s k = Found b v \<Longrightarrow> get s' k = Found b' v \<Longrightarrow> b = b'"
    and head: "head s k = Some n \<Longrightarrow> \<exists>b v. get s k = Found b v \<and> n = of_nat (length b)"
begin

lemma put_cases:
  assumes "put s k b mode = (r, s')"
  obtains "r \<noteq> PutOk" "get s' k = get s k" | v where "condition_holds mode (get s k)" "get s' k = Found b v"
  using put_ok put_refused [OF assms] put_failed assms by (cases r) blast+

end

text \<open>An in-memory store: a table of bodies, each body its own version.\<close>

definition mem_get :: "(string \<Rightarrow> bytes option, bytes) get_op" where
  "mem_get s k = (case s k of None \<Rightarrow> NotFound | Some b \<Rightarrow> Found b b)"

definition mem_head :: "(string \<Rightarrow> bytes option) \<Rightarrow> string \<Rightarrow> u64 option" where
  "mem_head s k = map_option (\<lambda>b. of_nat (length b)) (s k)"

definition mem_put :: "(string \<Rightarrow> bytes option, bytes) put_op" where
  "mem_put s k b mode =
     (case mode of
        Overwrite \<Rightarrow> (PutOk, s(k \<mapsto> b))
      | Create \<Rightarrow> if s k = None then (PutOk, s(k \<mapsto> b)) else (AlreadyExists, s)
      | Update v \<Rightarrow> if s k = Some v then (PutOk, s(k \<mapsto> b)) else (Precondition, s))"

interpretation mem: object_store mem_get mem_head mem_put
  by unfold_locales
    (auto simp: mem_get_def mem_head_def mem_put_def condition_holds_def split: PutMode.splits if_splits option.splits)

section \<open>Promotion\<close>

text \<open>
  The runs of any number of promoting nodes: what each has read and decided, and the leases granted, newest first. Between
  the two steps of one node others may take theirs, and other objects may change.
\<close>

inductive lease_run ::
  "('s, 'e) get_op \<Rightarrow> ('s, 'e) put_op \<Rightarrow> (Lease \<Rightarrow> bytes option) \<Rightarrow> (bytes \<Rightarrow> Lease option) \<Rightarrow> string \<Rightarrow> nat \<Rightarrow>
   's \<Rightarrow> (nat \<Rightarrow> (u64 \<times> 'e PutMode) option) \<Rightarrow> (nat \<times> Lease) list \<Rightarrow> bool"
  for get :: "('s, 'e) get_op" and put :: "('s, 'e) put_op" and enc dec k where
  unleased: "get s k = NotFound \<Longrightarrow> lease_run get put enc dec k 0 s Map.empty []"
| leased: "lease dec (get s k) = Ok (Some l) \<Longrightarrow> lease_run get put enc dec k (unat (le_epoch l)) s Map.empty []"
| decide: "lease_run get put enc dec k n s p g \<Longrightarrow> lease_decision dec (get s k) = Ok d \<Longrightarrow>
    lease_run get put enc dec k n s (p(node \<mapsto> d)) g"
| commit: "lease_run get put enc dec k n s p g \<Longrightarrow> p node = Some d \<Longrightarrow>
    lease_write put enc k s holder now_us d = (r, s') \<Longrightarrow>
    lease_run get put enc dec k (Suc n) s' (p(node := None)) (case r of Inr l \<Rightarrow> (node, l) # g | Inl _ \<Rightarrow> g)"
| other: "lease_run get put enc dec k n s p g \<Longrightarrow> get s' k = get s k \<Longrightarrow> lease_run get put enc dec k n s' p g"

text \<open>The lease object is absent, or a lease no older than any granted one.\<close>

definition lease_covers :: "(bytes \<Rightarrow> Lease option) \<Rightarrow> 'e get_result \<Rightarrow> nat \<Rightarrow> (nat \<times> Lease) list \<Rightarrow> bool" where
  "lease_covers dec current n g \<longleftrightarrow>
     (case current of
        NotFound \<Rightarrow> g = []
      | Found b v \<Rightarrow> (\<exists>l. dec b = Some l \<and> unat (le_epoch l) \<le> n \<and> (\<forall>x \<in> set g. le_epoch (snd x) \<le> le_epoch l))
      | GetFailed \<Rightarrow> False)"

text \<open>Where a decision came from: an absent lease, or one read with the version the write asks for.\<close>

definition decided :: "(bytes \<Rightarrow> Lease option) \<Rightarrow> ('s \<Rightarrow> 'e get_result) \<Rightarrow> u64 \<times> 'e PutMode \<Rightarrow> bool" where
  "decided dec get d \<longleftrightarrow>
     d = (1, Create) \<or> (\<exists>s b v l. get s = Found b v \<and> dec b = Some l \<and> d = (le_epoch l + 1, Update v))"

definition newest_first :: "(nat \<times> Lease) list \<Rightarrow> bool" where
  "newest_first g \<longleftrightarrow> sorted_wrt (\<lambda>x y. le_epoch (snd y) < le_epoch (snd x)) g"

lemma decision_decided: "lease_decision dec (get s k) = Ok d \<Longrightarrow> decided dec (\<lambda>s. get s k) d"
  by (fastforce simp: lease_decision_def decided_def split: get_result.splits option.splits)

lemma next_epoch:
  assumes "unat (e :: u64) \<le> n" "Suc n < 2 ^ 64"
  shows "unat (e + 1) = Suc (unat e)" "e < e + 1"
proof -
  have "unat e + unat (1 :: u64) < 2 ^ LENGTH(64)" using assms by simp
  from unat_add_lem [THEN iffD1, OF this] show "unat (e + 1) = Suc (unat e)" by simp
  then show "e < e + 1" by (simp add: word_less_nat_alt)
qed

context object_store
begin

text \<open>The epoch a write whose condition holds moves to is above every granted one.\<close>

lemma winning_epoch:
  assumes "decided dec (\<lambda>s. get s k) (e, mode)" "condition_holds mode (get s k)" "lease_covers dec (get s k) n g" "Suc n < 2 ^ 64"
  shows "unat e \<le> Suc n \<and> (\<forall>x \<in> set g. le_epoch (snd x) < e)"
  using assms(1) unfolding decided_def
proof
  assume "(e, mode) = (1, Create)"
  with assms(2,3) show ?thesis by (simp add: condition_holds_def lease_covers_def)
next
  assume "\<exists>s b v l. get s k = Found b v \<and> dec b = Some l \<and> (e, mode) = (le_epoch l + 1, Update v)"
  then obtain s0 b v l where d: "get s0 k = Found b v" "dec b = Some l" "e = le_epoch l + 1" "mode = Update v" by blast
  with assms(2) obtain c where "get s k = Found c v" by (auto simp: condition_holds_def)
  with version [OF d(1) this] assms(3) d(2) have l: "unat (le_epoch l) \<le> n" "\<forall>x \<in> set g. le_epoch (snd x) \<le> le_epoch l"
    by (auto simp: lease_covers_def)
  from next_epoch [OF l(1) assms(4)] l show ?thesis by (auto simp: d(3) intro: le_less_trans)
qed

lemma commit_step:
  assumes w: "lease_write put enc k s holder now_us d = (r, s')" and "decided dec (\<lambda>s. get s k) d"
    and c: "lease_covers dec (get s k) n g" and "newest_first g" and n: "Suc n < 2 ^ 64"
    and enc: "\<And>l b. enc l = Some b \<Longrightarrow> dec b = Some l"
  shows "lease_covers dec (get s' k) (Suc n) (case r of Inr l \<Rightarrow> (node, l) # g | Inl _ \<Rightarrow> g) \<and>
    newest_first (case r of Inr l \<Rightarrow> (node, l) # g | Inl _ \<Rightarrow> g)"
proof -
  obtain e mode where d: "d = (e, mode)" by fastforce
  let ?l = "\<lparr>le_epoch = e, le_holder = holder, le_acquired_at_us = now_us\<rparr>"
  have keep: "lease_covers dec (get s k) (Suc n) g"
    using c by (auto simp: lease_covers_def split: get_result.splits)
  show ?thesis
  proof (cases "enc ?l")
    case None
    with w d keep assms(4) show ?thesis by (auto simp: lease_write_def)
  next
    case (Some body)
    obtain p where p: "put s k body mode = (p, s')" and r: "r = (case p of PutOk \<Rightarrow> Ok ?l | PutFailed \<Rightarrow> Err StoreErr | _ \<Rightarrow> Err (LostRace e))"
      using w d Some by (auto simp: lease_write_def split: prod.splits put_result.splits)
    from p show ?thesis
    proof (cases rule: put_cases)
      case 1
      with r keep assms(4) show ?thesis by (cases p) simp_all
    next
      case (2 v)
      have win: "unat e \<le> Suc n" "\<forall>x \<in> set g. le_epoch (snd x) < e"
        using winning_epoch [OF _ 2(1) c n] assms(2) d by auto
      with 2(2) enc [OF Some] r assms(4) show ?thesis
        by (cases p) (auto simp: lease_covers_def newest_first_def intro: less_imp_le)
    qed
  qed
qed

lemma lease_run_invariant:
  assumes enc: "\<And>l b. enc l = Some b \<Longrightarrow> dec b = Some l" and "lease_run get put enc dec k n s p g" "n < 2 ^ 64"
  shows "lease_covers dec (get s k) n g \<and> newest_first g \<and> (\<forall>node d. p node = Some d \<longrightarrow> decided dec (\<lambda>s. get s k) d)"
  using assms(2,3)
proof (induction rule: lease_run.induct)
  case (leased s l)
  then show ?case by (auto simp: lease_def lease_covers_def newest_first_def split: get_result.splits option.splits)
next
  case (decide n s p g d node)
  then show ?case using decision_decided [of dec get s k d] by auto
next
  case (commit n s p g node d holder now_us r s')
  from commit have IH: "lease_covers dec (get s k) n g" "newest_first g" "decided dec (\<lambda>s. get s k) d"
    "\<forall>node d. p node = Some d \<longrightarrow> decided dec (\<lambda>s. get s k) d" by (auto simp del: split_paired_All)
  from commit_step [OF commit.hyps(3) IH(3,1,2) commit.prems enc] IH(4) show ?case by auto
qed (auto simp: lease_covers_def newest_first_def)

end

section \<open>Pulling\<close>

lemma download_Ok: "download blake w got e = Ok b \<Longrightarrow> digest_accepts blake e b"
  by (auto simp: download_def digest_accepts_def split: get_result.splits if_splits option.splits)

lemma pull_file_Ok: "pull_file blake io live got i e = Ok b \<Longrightarrow> digest_accepts blake e b"
  by (auto simp: pull_file_def split: if_splits option.splits dest: download_Ok)

text \<open>Every staged file is a named one that its digest accepts, or was there before.\<close>

lemma pull_files_accepted:
  assumes "pull_files blake io live got i es st = (None, st')"
  shows "dom st' = dom st \<union> en_path ` set es"
    "\<And>p b. st' p = Some b \<Longrightarrow> (\<exists>e \<in> set es. en_path e = p \<and> digest_accepts blake e b) \<or> st p = Some b"
proof -
  have "dom st' = dom st \<union> en_path ` set es \<and>
    (\<forall>p b. st' p = Some b \<longrightarrow> (\<exists>e \<in> set es. en_path e = p \<and> digest_accepts blake e b) \<or> st p = Some b)"
    using assms
  proof (induction es arbitrary: i st)
    case (Cons e es)
    then obtain b where b: "pull_file blake io live got i e = Ok b"
      "pull_files blake io live got (Suc i) es (st(en_path e \<mapsto> b)) = (None, st')"
      by (auto split: sum.splits)
    note IH = Cons.IH [OF b(2)]
    have "(\<exists>e' \<in> set (e # es). en_path e' = p \<and> digest_accepts blake e' c) \<or> st p = Some c" if "st' p = Some c" for p c
      using IH [THEN conjunct2, rule_format, OF that] pull_file_Ok [OF b(1)] by (auto split: if_splits)
    with IH show ?case by auto
  qed simp
  then show "dom st' = dom st \<union> en_path ` set es"
    "\<And>p b. st' p = Some b \<Longrightarrow> (\<exists>e \<in> set es. en_path e = p \<and> digest_accepts blake e b) \<or> st p = Some b"
    by blast+
qed

text \<open>A pull that has all it needs stages every file.\<close>

definition io_fine :: "replica_io \<Rightarrow> bool" where
  "io_fine io \<longleftrightarrow> rio_leftover io = (\<lambda>_. False) \<and> rio_staging io \<and> (\<forall>i. rio_parent io i \<and> rio_copy io i \<and> rio_write io i) \<and>
     rio_rename_old io \<and> rio_rename_new io"

lemma pull_file_fine:
  assumes "io_fine io" "got i = Found b v" "en_digest e = Some (blake b)"
  shows "\<exists>c. pull_file blake io live got i e = Ok c \<and> blake c = blake b"
  using assms
  by (auto simp: pull_file_def io_fine_def download_def digest_accepts_def split: option.split)

lemma pull_files_fine:
  assumes "io_fine io" "\<And>j. j < length es \<Longrightarrow> \<exists>b v. got (i + j) = Found b v \<and> en_digest (es ! j) = Some (blake b)"
  shows "\<exists>st'. pull_files blake io live got i es st = (None, st')"
  using assms(2)
proof (induction es arbitrary: i st)
  case (Cons e es)
  from Cons.prems [of 0] obtain b v where b: "got i = Found b v" "en_digest e = Some (blake b)" by auto
  obtain c where "pull_file blake io live got i e = Ok c"
    using pull_file_fine [where blake = blake and got = got, OF assms(1) b, of live] by auto
  moreover have "\<exists>st'. pull_files blake io live got (Suc i) es (st(en_path e \<mapsto> c)) = (None, st')"
  proof (rule Cons.IH)
    fix j
    assume "j < length es"
    with Cons.prems [of "Suc j"] show "\<exists>b v. got (Suc i + j) = Found b v \<and> en_digest (es ! j) = Some (blake b)" by simp
  qed
  ultimately show ?case by simp
qed simp

lemma swap_in_fine: "io_fine io \<Longrightarrow> \<exists>fs'. swap_in io fs = (True, fs') \<and> rf_live fs' = rf_staging fs"
  by (simp add: swap_in_def io_fine_def Let_def)

text \<open>What the swap does to the live directory: nothing, the move aside alone, or the whole of it.\<close>

lemma swap_in_cases:
  assumes "swap_in io fs = (ok, fs')"
  obtains "ok" "rf_live fs' = rf_staging fs" | "\<not> ok" "rf_live fs' = rf_live fs"
  | "\<not> ok" "rf_live fs' = None" "rf_backup fs' = rf_live fs" "rf_live fs \<noteq> None"
  using assms by (auto simp: swap_in_def Let_def split: if_splits)

section \<open>Shipping\<close>

text \<open>
  What makes it right to leave a data file in the store alone: an object of the file's length holds the file's bytes, and
  the previous manifest's digest for that length is theirs.
\<close>

definition immutable_ok ::
  "('s, 'e) get_op \<Rightarrow> (bytes \<Rightarrow> string) \<Rightarrow> (string \<Rightarrow> string) \<Rightarrow> (string \<Rightarrow> Entry option) \<Rightarrow> 's \<Rightarrow> ship_file \<Rightarrow> bool" where
  "immutable_ok get blake k prev s f \<longleftrightarrow>
     (ends_with (sf_rel f) ''.parquet'' \<longrightarrow>
       (\<forall>b v. get s (k (sf_rel f)) = Found b v \<longrightarrow> of_nat (length b) = sf_len f \<longrightarrow>
          sf_read f = Some b \<and>
          (\<forall>e d. prev (sf_rel f) = Some e \<longrightarrow> en_len e = sf_len f \<longrightarrow> en_digest e = Some d \<longrightarrow> d = blake b)))"

text \<open>The entry records the file, and the store holds what the file sends.\<close>

definition shipped ::
  "('s, 'e) get_op \<Rightarrow> (bytes \<Rightarrow> string) \<Rightarrow> (string \<Rightarrow> string) \<Rightarrow> 's \<Rightarrow> ship_file \<Rightarrow> Entry \<Rightarrow> bool" where
  "shipped get blake k s f e \<longleftrightarrow>
     en_path e = sf_rel f \<and>
     (\<exists>b v. sent_content f = Ok (Some b) \<and> get s (k (sf_rel f)) = Found b v \<and> en_digest e = Some (blake b))"

lemma ends_with_last: "ends_with s p \<Longrightarrow> p \<noteq> [] \<Longrightarrow> last s = last p"
  unfolding ends_with_def by (metis drop_eq_Nil last_drop not_le)

lemma parquet_not_redb: "ends_with p ''.parquet'' \<Longrightarrow> \<not> ends_with p ''.redb''"
  using ends_with_last [of p "''.parquet''"] ends_with_last [of p "''.redb''"] by auto

context object_store
begin

lemma ship_one_shipped:
  assumes "ship_one head put blake k prev s f = (Ok (e, sent), s')" "immutable_ok get blake k prev s f"
  shows "shipped get blake k s' f e" "\<And>q. q \<noteq> k (sf_rel f) \<Longrightarrow> get s' q = get s q"
proof -
  have "shipped get blake k s' f e \<and> (\<forall>q. q \<noteq> k (sf_rel f) \<longrightarrow> get s' q = get s q)"
  proof (cases "ends_with (sf_rel f) ''.parquet'' \<and> head s (k (sf_rel f)) = Some (sf_len f)")
    case True
    from head [of s "k (sf_rel f)"] True obtain b v where g: "get s (k (sf_rel f)) = Found b v" "sf_len f = of_nat (length b)"
      by blast
    with True assms(2) have im: "sf_read f = Some b"
      "\<And>e d. prev (sf_rel f) = Some e \<Longrightarrow> en_len e = sf_len f \<Longrightarrow> en_digest e = Some d \<Longrightarrow> d = blake b"
      by (simp_all add: immutable_ok_def)
    from True assms(1) have e: "kept_entry blake prev f = Ok e" "s' = s"
      by (auto simp: ship_one_def split: sum.splits)
    have "en_path e = sf_rel f \<and> en_digest e = Some (blake b)"
      using e(1) im by (auto simp: kept_entry_def hash_file_def split: option.splits if_splits sum.splits)
    with g im(1) e(2) True parquet_not_redb show ?thesis by (simp add: shipped_def sent_content_def)
  next
    case False
    with assms(1) obtain b where b: "sent_content f = Ok (Some b)" "put s (k (sf_rel f)) b Overwrite = (PutOk, s')"
        "en_path e = sf_rel f" "en_digest e = Some (blake b)"
      by (auto simp: ship_one_def upload_streamed_def split: sum.splits option.splits prod.splits if_splits)
    with put_ok [OF b(2)] put_frame [OF b(2)] show ?thesis by (auto simp: shipped_def)
  qed
  then show "shipped get blake k s' f e" "\<And>q. q \<noteq> k (sf_rel f) \<Longrightarrow> get s' q = get s q" by blast+
qed

lemma ship_files_shipped:
  assumes "ship_files head put blake k prev s fs es n = (Ok (es', n'), s')"
    "\<forall>f \<in> set fs. immutable_ok get blake k prev s f" "distinct (map (k \<circ> sf_rel) fs)"
  shows "\<exists>new. es' = es @ new \<and> list_all2 (shipped get blake k s') fs new \<and>
    (\<forall>q. q \<notin> (k \<circ> sf_rel) ` set fs \<longrightarrow> get s' q = get s q)"
  using assms
proof (induction fs arbitrary: s es n)
  case (Cons f fs)
  then obtain e sent s1 where one: "ship_one head put blake k prev s f = (Ok (e, sent), s1)"
    and rest: "ship_files head put blake k prev s1 fs (es @ [e]) (if sent then Suc n else n) = (Ok (es', n'), s')"
    by (auto split: prod.splits sum.splits)
  note here = ship_one_shipped [OF one]
  have im: "immutable_ok get blake k prev s f" using Cons.prems by simp
  have key: "k (sf_rel g) \<noteq> k (sf_rel f)" if "g \<in> set fs" for g
  proof -
    have "k (sf_rel f) \<notin> (\<lambda>g. k (sf_rel g)) ` set fs" using Cons.prems(3) by (simp add: comp_def)
    with that show ?thesis by (metis image_eqI)
  qed
  have "\<forall>g \<in> set fs. immutable_ok get blake k prev s1 g"
    using Cons.prems(2) here(2) [OF im key] by (simp add: immutable_ok_def)
  with Cons.IH [OF rest] Cons.prems(3) obtain new where new: "es' = (es @ [e]) @ new"
      "list_all2 (shipped get blake k s') fs new" "\<forall>q. q \<notin> (k \<circ> sf_rel) ` set fs \<longrightarrow> get s' q = get s1 q"
    by auto
  have "get s' (k (sf_rel f)) = get s1 (k (sf_rel f))" using new(3) Cons.prems(3) by auto
  with here(1) [OF im] have "shipped get blake k s' f e" by (simp add: shipped_def)
  with new here(2) [OF im] show ?case by (intro exI [of _ "e # new"]) auto
qed simp

text \<open>A successful ship leaves a manifest that describes what the store holds.\<close>

lemma ship_shipped:
  assumes "ship get head put enc dec blake k s listing n epoch writer now_us = (Ok u, s')"
    "\<And>m b. enc m = Some b \<Longrightarrow> dec b = Some m"
    "\<forall>f \<in> set listing. \<forall>m. get_manifest dec (get s (k MANIFEST_KEY)) = Ok m \<longrightarrow> immutable_ok get blake k (entries_by_path m) s f"
    "inj_on k (insert MANIFEST_KEY (sf_rel ` set listing))" "distinct (map sf_rel listing)" "MANIFEST_KEY \<notin> sf_rel ` set listing"
  obtains es where "get_manifest dec (get s' (k MANIFEST_KEY)) =
      Ok (Some \<lparr>mf_id = n, mf_files = es, mf_epoch = epoch, mf_created_at_us = now_us, mf_writer = writer\<rparr>)"
    "list_all2 (shipped get blake k s') (collect_files listing) es"
    "\<And>q. q \<notin> k ` insert MANIFEST_KEY (sf_rel ` set listing) \<Longrightarrow> get s' q = get s q"
proof -
  let ?mf = "\<lambda>es. \<lparr>mf_id = n, mf_files = es, mf_epoch = epoch, mf_created_at_us = now_us, mf_writer = writer\<rparr>"
  obtain m es s1 body where m: "get_manifest dec (get s (k MANIFEST_KEY)) = Ok m"
    and files: "ship_files head put blake k (entries_by_path m) s (collect_files listing) [] 0 = (Ok (es, u), s1)"
    and body: "enc (?mf es) = Some body" "put s1 (k MANIFEST_KEY) body Overwrite = (PutOk, s')"
    using assms(1) by (auto simp: ship_def split: sum.splits prod.splits option.splits if_splits)
  have set: "set (collect_files listing) = set listing" by (simp add: collect_files_def)
  have "mset (map (k \<circ> sf_rel) (collect_files listing)) = mset (map (k \<circ> sf_rel) listing)"
    by (simp add: collect_files_def)
  moreover have "distinct (map (k \<circ> sf_rel) listing)"
    using assms(4,5) by (auto simp: distinct_map inj_on_def)
  ultimately have "distinct (map (k \<circ> sf_rel) (collect_files listing))" by (metis mset_eq_imp_distinct_iff)
  then obtain new where new: "es = new" "list_all2 (shipped get blake k s1) (collect_files listing) new"
      "\<forall>q. q \<notin> (k \<circ> sf_rel) ` set listing \<longrightarrow> get s1 q = get s q"
    using ship_files_shipped [OF files] assms(3) m set by auto
  have key: "k (sf_rel f) \<noteq> k MANIFEST_KEY" if "f \<in> set listing" for f
    using assms(4,6) that by (metis image_eqI inj_on_contraD insertI1 insertI2)
  have frame: "get s' q = get s1 q" if "q \<noteq> k MANIFEST_KEY" for q using put_frame [OF body(2) that] .
  have "list_all2 (shipped get blake k s') (collect_files listing) es"
    using new(2) key set frame unfolding new(1) list_all2_conv_all_nth by (metis nth_mem shipped_def)
  moreover have "get_manifest dec (get s' (k MANIFEST_KEY)) = Ok (Some (?mf es))"
    using put_ok [OF body(2)] assms(2) [OF body(1)] by (auto simp: get_manifest_def)
  moreover have "get s' q = get s q" if "q \<notin> k ` insert MANIFEST_KEY (sf_rel ` set listing)" for q
    using that new(3) frame [of q] by (auto simp: image_image)
  ultimately show thesis using that by blast
qed

end

end
