(* ===== verification/Ha_Properties.thy ===== *)
theory Ha_Properties
  imports Ha_Laws
begin

text \<open>
  The properties of replication: promotion, what a follower applies, and a snapshot's way from the writer's warehouse to
  the follower's. They hold over every object store that keeps the contract of \<open>Ha_Laws\<close>.
\<close>

text \<open>
  A writer that starts reads the current lease and ships under its epoch, whoever holds it: it is not fenced, even when
  the lease was granted to another node. A writer that keeps running is fenced by a newer lease.
\<close>

lemma restarted_writer_is_not_fenced:
  "ship_round (writer_epoch (lease dec answer)) n (lease dec answer) = Some (n + 1)"
  by (simp add: ship_round_def writer_epoch_def fence_verdict_def split: sum.split option.split)

lemma running_writer_is_fenced: "mine < le_epoch l \<Longrightarrow> ship_round mine n (Ok (Some l)) = None"
  by (simp add: ship_round_def fence_verdict_def)

lemma descending_distinct:
  fixes xs :: "'a::order list"
  shows "sorted_wrt (\<lambda>a b. b < a) xs \<Longrightarrow> distinct xs"
  by (induction xs) auto

text \<open>
  C21. One winner per epoch. However the reads and conditional writes of any number of promoting nodes interleave, over
  any store that keeps the contract, including puts that fail after landing, the epochs granted strictly increase, so no
  two promotions ever hold the same one, and the lease in the store is never older than one granted. The run is
  bounded by \<open>2 ^ 64\<close> writes, past which the epoch counter would wrap.
\<close>

theorem promotions_get_distinct_epochs:
  assumes "object_store get head put" "\<And>l b. enc l = Some b \<Longrightarrow> dec b = Some l"
    "lease_run get put enc dec k n s p granted" "n < 2 ^ 64"
  shows "sorted_wrt (\<lambda>x y. le_epoch (snd y) < le_epoch (snd x)) granted \<and>
    distinct (map (le_epoch \<circ> snd) granted) \<and>
    (\<forall>x \<in> set granted. \<exists>l. lease dec (get s k) = Ok (Some l) \<and> le_epoch (snd x) \<le> le_epoch l)"
proof -
  note inv = object_store.lease_run_invariant [OF assms]
  then have sorted: "sorted_wrt (\<lambda>x y. le_epoch (snd y) < le_epoch (snd x)) granted" by (simp add: newest_first_def)
  then have "sorted_wrt (\<lambda>a b. b < a) (map (le_epoch \<circ> snd) granted)" by (simp add: sorted_wrt_map)
  then have "distinct (map (le_epoch \<circ> snd) granted)" by (rule descending_distinct)
  moreover have "\<exists>l. lease dec (get s k) = Ok (Some l) \<and> le_epoch (snd x) \<le> le_epoch l" if "x \<in> set granted" for x
    using inv that by (auto simp: lease_covers_def lease_def split: get_result.splits)
  ultimately show ?thesis using sorted by blast
qed


text \<open>
  C23. A shipped snapshot arrives. When a ship succeeds, a follower behind it whose file system works and whose lease is
  not above the writer's epoch applies it and then holds exactly the writer's files, each with the digest of what was
  sent. The premises: JSON reads back what it wrote, object keys do not collide, file names are distinct and none is the
  manifest's or the lease's, and a data file already in the store at its length is unchanged (\<open>immutable_ok\<close>).
\<close>

theorem shipped_snapshot_is_pulled:
  assumes "object_store get head put" "\<And>m b. enc m = Some b \<Longrightarrow> dec b = Some m"
    and "\<forall>f \<in> set listing. \<forall>m. get_manifest dec (get s (k MANIFEST_KEY)) = Ok m \<longrightarrow> immutable_ok get blake k (entries_by_path m) s f"
    and "inj_on k (insert MANIFEST_KEY (sf_rel ` set listing))" "distinct (map sf_rel listing)" "MANIFEST_KEY \<notin> sf_rel ` set listing"
    and "ship get head put enc dec blake k s listing n epoch writer now_us = (Ok u, s')"
    and "lease dec_l (get s' (k EPOCH_KEY)) = Ok l" "\<forall>l'. l = Some l' \<longrightarrow> le_epoch l' \<le> epoch"
    and "have_id < n" "io_fine io"
  shows "\<exists>fs' files. pull dec dec_l blake io (get s' (k MANIFEST_KEY)) (get s' (k EPOCH_KEY))
      (\<lambda>i. get s' (k (sf_rel (collect_files listing ! i)))) fs have_id = (Ok (Some n), fs') \<and>
    rf_live fs' = Some files \<and> dom files = sf_rel ` set listing \<and>
    (\<forall>f \<in> set listing. \<exists>sent b. sent_content f = Ok (Some sent) \<and> files (sf_rel f) = Some b \<and> blake b = blake sent)"
proof -
  let ?got = "\<lambda>i. get s' (k (sf_rel (collect_files listing ! i)))"
  obtain es where m: "get_manifest dec (get s' (k MANIFEST_KEY)) =
      Ok (Some \<lparr>mf_id = n, mf_files = es, mf_epoch = epoch, mf_created_at_us = now_us, mf_writer = writer\<rparr>)"
    and es: "list_all2 (shipped get blake k s') (collect_files listing) es"
    by (rule object_store.ship_shipped [OF assms(1,7,2-6)])
  have nth: "shipped get blake k s' (collect_files listing ! j) (es ! j)" if "j < length es" for j
    using es that by (simp add: list_all2_conv_all_nth)
  then obtain staged where staged: "pull_files blake io (rf_live fs) ?got 0 es (fresh_staging io fs) = (None, staged)"
    using pull_files_fine [OF assms(11), of es ?got 0 blake "rf_live fs" "fresh_staging io fs"]
    by (fastforce simp: shipped_def)
  have empty: "fresh_staging io fs = Map.empty" using assms(11) by (auto simp: fresh_staging_def io_fine_def)
  have paths: "map en_path es = map sf_rel (collect_files listing)"
    using es by (auto simp: list_all2_conv_all_nth shipped_def intro!: nth_equalityI)
  have set: "set (collect_files listing) = set listing" by (simp add: collect_files_def)
  have "mset (map sf_rel (collect_files listing)) = mset (map sf_rel listing)" by (simp add: collect_files_def)
  then have dist: "distinct (map en_path es)" unfolding paths using assms(5) by (metis mset_eq_imp_distinct_iff)
  have dom: "dom staged = sf_rel ` set listing"
    using pull_files_accepted(1) [OF staged] empty arg_cong [OF paths, of set] set by simp
  obtain fs' where sw: "swap_in io (fs\<lparr>rf_staging := Some staged\<rparr>) = (True, fs')" "rf_live fs' = Some staged"
    using swap_in_fine [OF assms(11), of "fs\<lparr>rf_staging := Some staged\<rparr>"] by auto
  have "pull dec dec_l blake io (get s' (k MANIFEST_KEY)) (get s' (k EPOCH_KEY)) ?got fs have_id = (Ok (Some n), fs')"
    using m assms(8-11) staged sw by (auto simp: pull_def io_fine_def split: option.split)
  moreover have "\<exists>sent b. sent_content f = Ok (Some sent) \<and> staged (sf_rel f) = Some b \<and> blake b = blake sent"
    if f: "f \<in> set listing" for f
  proof -
    obtain j where j: "j < length es" "collect_files listing ! j = f"
      using f es set by (metis in_set_conv_nth list_all2_lengthD)
    obtain b where b: "staged (sf_rel f) = Some b" using dom f by (metis domD image_eqI)
    then obtain e where e: "e \<in> set es" "en_path e = sf_rel f" "digest_accepts blake e b"
      using pull_files_accepted(2) [OF staged b] empty by auto
    have "e = es ! j"
      using dist e(1,2) j nth [OF j(1)] by (metis distinct_map inj_onD nth_mem shipped_def)
    with nth [OF j(1)] j(2) e(3) b show ?thesis by (auto simp: shipped_def digest_accepts_def)
  qed
  ultimately show ?thesis using sw(2) dom by blast
qed

section \<open>Witnesses\<close>

text \<open>A form of leases by length, for an empty holder and time zero.\<close>

definition unary_enc :: "Lease \<Rightarrow> bytes option" where
  "unary_enc l = (if le_holder l = [] \<and> le_acquired_at_us l = 0 then Some (replicate (unat (le_epoch l)) 0) else None)"

definition unary_dec :: "bytes \<Rightarrow> Lease option" where
  "unary_dec b = Some \<lparr>le_epoch = of_nat (length b), le_holder = [], le_acquired_at_us = 0\<rparr>"

lemma unary_round_trip: "unary_enc l = Some b \<Longrightarrow> unary_dec b = Some l"
  by (cases l) (auto simp: unary_enc_def unary_dec_def split: if_splits)

text \<open>Two nodes read an absent lease; the first to write wins epoch 1, the second is refused, reads again and wins epoch 2.\<close>

definition race_lease :: "u64 \<Rightarrow> Lease" where
  "race_lease e = \<lparr>le_epoch = e, le_holder = [], le_acquired_at_us = 0\<rparr>"

lemma race_run:
  "lease_run mem_get mem_put unary_enc unary_dec EPOCH_KEY 3 [EPOCH_KEY \<mapsto> [0, 0]] (Map.empty(0 := None, 1 := None))
     [(1, race_lease 2), (0, race_lease 1)]"
proof -
  note store = mem_get_def mem_put_def unary_enc_def unary_dec_def race_lease_def
  have two: "replicate 2 x = [x, x]" for x :: u8 by (simp add: numeral_2_eq_2)
  have "lease_run mem_get mem_put unary_enc unary_dec EPOCH_KEY 0 Map.empty Map.empty []"
    by (rule unleased) (simp add: store)
  from decide [OF this, of "(1, Create)" 0]
  have "lease_run mem_get mem_put unary_enc unary_dec EPOCH_KEY 0 Map.empty [0 \<mapsto> (1, Create)] []"
    by (simp add: store lease_decision_def)
  from decide [OF this, of "(1, Create)" 1]
  have "lease_run mem_get mem_put unary_enc unary_dec EPOCH_KEY 0 Map.empty [0 \<mapsto> (1, Create), 1 \<mapsto> (1, Create)] []"
    by (simp add: store lease_decision_def)
  from commit [OF this, of 0 "(1, Create)" "[]" 0 "Ok (race_lease 1)" "[EPOCH_KEY \<mapsto> [0]]"]
  have "lease_run mem_get mem_put unary_enc unary_dec EPOCH_KEY 1 [EPOCH_KEY \<mapsto> [0]]
      (Map.empty(0 := None, 1 \<mapsto> (1, Create))) [(0, race_lease 1)]"
    by (simp add: store lease_write_def fun_upd_twist)
  from commit [OF this, of 1 "(1, Create)" "[]" 0 "Err (LostRace 1)" "[EPOCH_KEY \<mapsto> [0]]"]
  have "lease_run mem_get mem_put unary_enc unary_dec EPOCH_KEY 2 [EPOCH_KEY \<mapsto> [0]]
      (Map.empty(0 := None, 1 := None)) [(0, race_lease 1)]"
    by (simp add: store lease_write_def numeral_2_eq_2)
  from decide [OF this, of "(2, Update [0])" 1]
  have "lease_run mem_get mem_put unary_enc unary_dec EPOCH_KEY 2 [EPOCH_KEY \<mapsto> [0]]
      (Map.empty(0 := None, 1 \<mapsto> (2, Update [0]))) [(0, race_lease 1)]"
    by (simp add: store lease_decision_def)
  from commit [OF this, of 1 "(2, Update [0])" "[]" 0 "Ok (race_lease 2)" "[EPOCH_KEY \<mapsto> [0, 0]]"]
  have "lease_run mem_get mem_put unary_enc unary_dec EPOCH_KEY (Suc 2) [EPOCH_KEY \<mapsto> [0, 0]]
      (Map.empty(0 := None, 1 := None)) [(1, race_lease 2), (0, race_lease 1)]"
    by (simp add: store lease_write_def two)
  then show ?thesis by simp
qed

theorem promotions_get_distinct_epochs_witness:
  "distinct (map (le_epoch \<circ> snd) [(1 :: nat, race_lease 2), (0, race_lease 1)])"
  using promotions_get_distinct_epochs [OF mem.object_store_axioms unary_round_trip race_run] by simp

text \<open>A manifest of one data file, its one-byte form, a digest by length and a file system without faults.\<close>

definition one_manifest :: Manifest where
  "one_manifest = \<lparr>mf_id = 4, mf_files = [\<lparr>en_path = ''d/a.parquet'', en_len = 2, en_digest = Some ''xx''\<rparr>],
     mf_epoch = 3, mf_created_at_us = 9, mf_writer = ''w''\<rparr>"

definition one_enc :: "Manifest \<Rightarrow> bytes option" where
  "one_enc m = (if m = one_manifest then Some [7] else None)"

definition one_dec :: "bytes \<Rightarrow> Manifest option" where
  "one_dec b = (if b = [7] then Some one_manifest else None)"

definition len_digest :: "bytes \<Rightarrow> string" where
  "len_digest b = replicate (length b) CHR ''x''"

definition good_io :: replica_io where
  "good_io = \<lparr>rio_leftover = \<lambda>_. False, rio_clear_backup = True, rio_drop_backup = True, rio_staging = True,
     rio_parent = \<lambda>_. True, rio_copy = \<lambda>_. True, rio_write = \<lambda>_. True, rio_residue = \<lambda>_. None, rio_rename_old = True,
     rio_rename_new = True\<rparr>"

definition no_files :: replica_fs where
  "no_files = \<lparr>rf_live = None, rf_staging = None, rf_backup = None\<rparr>"

lemmas replica_example =
  one_manifest_def one_enc_def one_dec_def len_digest_def good_io_def no_files_def pull_def get_manifest_def lease_def
  pull_file_def download_def local_candidate_def swap_in_def fresh_staging_def ends_with_def


definition one_file :: ship_file where
  "one_file = \<lparr>sf_rel = ''d/a.parquet'', sf_len = 2, sf_read = Some [1, 2], sf_attempts = [], sf_raw_copy = None\<rparr>"

theorem shipped_snapshot_is_pulled_witness:
  "\<exists>fs' files. pull one_dec (\<lambda>_. None) len_digest good_io (Found [7] [7]) NotFound (\<lambda>_. Found [1, 2] [1, 2]) no_files 0 =
       (Ok (Some 4), fs') \<and> rf_live fs' = Some files \<and> dom files = {''d/a.parquet''}"
proof -
  let ?s = "[''d/a.parquet'' \<mapsto> [1, 2], MANIFEST_KEY \<mapsto> [7]] :: string \<Rightarrow> bytes option"
  have round: "one_enc m = Some b \<Longrightarrow> one_dec b = Some m" for m b
    by (auto simp: one_enc_def one_dec_def split: if_splits)
  have ship: "ship mem_get mem_head mem_put one_enc one_dec len_digest (\<lambda>p. p) Map.empty [one_file] 4 3 ''w'' 9 = (Ok 1, ?s)"
    by (simp add: ship_def ship_one_def upload_streamed_def sent_content_def one_file_def replica_example mem_get_def mem_put_def
        mem_head_def collect_files_def fun_upd_twist MANIFEST_KEY_def)
  have lease: "lease (\<lambda>_. None) (mem_get ?s ((\<lambda>p. p) EPOCH_KEY)) = Ok None"
    by (simp add: lease_def mem_get_def EPOCH_KEY_def MANIFEST_KEY_def)
  have im: "\<forall>f \<in> set [one_file]. \<forall>m. get_manifest one_dec (mem_get Map.empty ((\<lambda>p. p) MANIFEST_KEY)) = Ok m \<longrightarrow>
      immutable_ok mem_get len_digest (\<lambda>p. p) (entries_by_path m) Map.empty f"
    by (simp add: immutable_ok_def mem_get_def)
  have io: "io_fine good_io" by (simp add: io_fine_def good_io_def)
  have got: "mem_get ?s MANIFEST_KEY = Found [7] [7]" "mem_get ?s EPOCH_KEY = NotFound"
    "(\<lambda>i. mem_get ?s (sf_rel (collect_files [one_file] ! i))) 0 = Found [1, 2] [1, 2]"
    by (simp_all add: mem_get_def EPOCH_KEY_def MANIFEST_KEY_def collect_files_def one_file_def)
  obtain fs' files where p: "pull one_dec (\<lambda>_. None) len_digest good_io (Found [7] [7]) NotFound
      (\<lambda>i. mem_get ?s (sf_rel (collect_files [one_file] ! i))) no_files 0 = (Ok (Some 4), fs')"
      "rf_live fs' = Some files" "dom files = {''d/a.parquet''}"
    using shipped_snapshot_is_pulled [where get = mem_get and head = mem_head and put = mem_put and enc = one_enc and
        dec = one_dec and k = "\<lambda>p. p" and blake = len_digest and s = Map.empty and listing = "[one_file]" and n = 4 and
        epoch = 3 and writer = "''w''" and now_us = 9 and u = 1 and s' = ?s and dec_l = "\<lambda>_. None" and l = None and
        have_id = 0 and io = good_io and fs = no_files, OF mem.object_store_axioms round im _ _ _ ship lease _ _ io] got
    by (auto simp: one_file_def MANIFEST_KEY_def)
  moreover have "pull one_dec (\<lambda>_. None) len_digest good_io (Found [7] [7]) NotFound (\<lambda>_. Found [1, 2] [1, 2]) no_files 0 =
      pull one_dec (\<lambda>_. None) len_digest good_io (Found [7] [7]) NotFound
      (\<lambda>i. mem_get ?s (sf_rel (collect_files [one_file] ! i))) no_files 0"
    using got(3) by (simp add: replica_example)
  ultimately show ?thesis by metis
qed

end
