(* ===== verification/Sql_Guard.thy ===== *)
theory Sql_Guard
  imports Garmr_Strings
begin

text \<open>
  The guard of the SQL lanes, \<open>garmr-store/src/sql_guard.rs\<close>: the read-only check and the rewriting that confines a
  source-scoped credential to its sources. The parser and the printer of the SQL library are arguments. Of its syntax tree
  the model has the parts the code matches on; every other field of a node is one opaque value, of type \<open>'x\<close>, and so
  are the expressions of a \<open>SELECT\<close>, which the code does not visit. A name is the list of its printed parts.
\<close>

section \<open>Syntax\<close>

datatype 'x query = Query "'x cte list" "'x set_expr" 'x
and 'x cte = Cte string "'x query" 'x
and 'x set_expr =
    SeSelect "'x table_with_joins list" 'x
  | SeQuery "'x query"
  | SeSetOperation "'x set_expr" "'x set_expr" 'x
  | SeOther 'x
and 'x table_with_joins = Twj "'x table_factor" "'x join list"
and 'x join = Join "'x table_factor" 'x
and 'x table_factor =
    TfTable "string list" "string option" 'x
  | TfDerived "'x query" 'x
  | TfNestedJoin "'x table_with_joins" 'x
  | TfOther 'x

datatype 'x stmt = StQuery "'x query" | StExplain "'x stmt" 'x | StOther 'x

datatype guard_err = ParseError | NotOneStatement | NotAQuery | UnreadableTable "string list" | FromConstruct | TemplateError

type_synonym 'x parser = "string \<Rightarrow> 'x stmt list option"

section \<open>Read-only\<close>

fun is_read_only :: "'x stmt \<Rightarrow> bool" where
  "is_read_only (StQuery _) = True"
| "is_read_only (StExplain s _) = is_read_only s"
| "is_read_only (StOther _) = False"

definition reject_non_readonly :: "'x parser \<Rightarrow> string \<Rightarrow> guard_err + unit" where
  "reject_non_readonly parse_sql sql =
     (case parse_sql sql of
        None \<Rightarrow> Err ParseError
      | Some statements \<Rightarrow>
          (case statements of
             [s] \<Rightarrow> if is_read_only s then Ok () else Err NotAQuery
           | _ \<Rightarrow> Err NotOneStatement))"

section \<open>The scoped reference\<close>

definition EVENTS_TABLE :: string where
  "EVENTS_TABLE = ''events''"



definition dquote_char :: char where
  "dquote_char = char_of (34 :: nat)"






section \<open>Rewriting\<close>

definition trim_matches :: "char \<Rightarrow> string \<Rightarrow> string" where
  "trim_matches q s = rev (dropWhile (\<lambda>c. c = q) (rev (dropWhile (\<lambda>c. c = q) s)))"

definition name_parts :: "string list \<Rightarrow> string list" where
  "name_parts name = map (\<lambda>p. to_ascii_lowercase (trim_matches dquote_char p)) name"

text \<open>
  A reference by name: a single name that is in scope, or one whose last part is the events table, which the derived
  table \<open>D alias\<close> replaces.
\<close>

definition rewrite_table ::
  "(string \<Rightarrow> guard_err + 'x table_factor) \<Rightarrow> string list \<Rightarrow> string list \<Rightarrow> string option \<Rightarrow> 'x \<Rightarrow>
   guard_err + 'x table_factor" where
  "rewrite_table D cte_scope name alias x =
     (let parts = name_parts name;
          final = (if parts = [] then [] else last parts)
      in if length parts = 1 \<and> final \<in> set cte_scope then Ok (TfTable name alias x)
         else if final \<noteq> EVENTS_TABLE then Err (UnreadableTable name)
         else D (case alias of Some a \<Rightarrow> a | None \<Rightarrow> EVENTS_TABLE))"

text \<open>
  The names in scope are passed down; a common table expression extends them for the later ones and for the body. Leaving
  a query drops what it added.
\<close>

fun rewrite_query :: "(string \<Rightarrow> guard_err + 'x table_factor) \<Rightarrow> string list \<Rightarrow> 'x query \<Rightarrow> guard_err + 'x query"
and rewrite_ctes :: "(string \<Rightarrow> guard_err + 'x table_factor) \<Rightarrow> string list \<Rightarrow> 'x cte list \<Rightarrow> guard_err + 'x cte list \<times> string list"
and rewrite_set_expr :: "(string \<Rightarrow> guard_err + 'x table_factor) \<Rightarrow> string list \<Rightarrow> 'x set_expr \<Rightarrow> guard_err + 'x set_expr"
and rewrite_from :: "(string \<Rightarrow> guard_err + 'x table_factor) \<Rightarrow> string list \<Rightarrow> 'x table_with_joins list \<Rightarrow> guard_err + 'x table_with_joins list"
and rewrite_twj :: "(string \<Rightarrow> guard_err + 'x table_factor) \<Rightarrow> string list \<Rightarrow> 'x table_with_joins \<Rightarrow> guard_err + 'x table_with_joins"
and rewrite_joins :: "(string \<Rightarrow> guard_err + 'x table_factor) \<Rightarrow> string list \<Rightarrow> 'x join list \<Rightarrow> guard_err + 'x join list"
and rewrite_factor :: "(string \<Rightarrow> guard_err + 'x table_factor) \<Rightarrow> string list \<Rightarrow> 'x table_factor \<Rightarrow> guard_err + 'x table_factor" where
  "rewrite_query D sc (Query ctes body x) =
     (case rewrite_ctes D sc ctes of
        Inl e \<Rightarrow> Err e
      | Inr (ctes', sc') \<Rightarrow>
          (case rewrite_set_expr D sc' body of Inl e \<Rightarrow> Err e | Inr body' \<Rightarrow> Ok (Query ctes' body' x)))"
| "rewrite_ctes D sc [] = Ok ([], sc)"
| "rewrite_ctes D sc (Cte n q x # ctes) =
     (case rewrite_query D sc q of
        Inl e \<Rightarrow> Err e
      | Inr q' \<Rightarrow>
          (case rewrite_ctes D (sc @ [to_ascii_lowercase n]) ctes of
             Inl e \<Rightarrow> Err e
           | Inr (ctes', sc') \<Rightarrow> Ok (Cte n q' x # ctes', sc')))"
| "rewrite_set_expr D sc (SeSelect from x) =
     (case rewrite_from D sc from of Inl e \<Rightarrow> Err e | Inr from' \<Rightarrow> Ok (SeSelect from' x))"
| "rewrite_set_expr D sc (SeQuery q) = (case rewrite_query D sc q of Inl e \<Rightarrow> Err e | Inr q' \<Rightarrow> Ok (SeQuery q'))"
| "rewrite_set_expr D sc (SeSetOperation l r x) =
     (case rewrite_set_expr D sc l of
        Inl e \<Rightarrow> Err e
      | Inr l' \<Rightarrow>
          (case rewrite_set_expr D sc r of Inl e \<Rightarrow> Err e | Inr r' \<Rightarrow> Ok (SeSetOperation l' r' x)))"
| "rewrite_set_expr D sc (SeOther x) = Ok (SeOther x)"
| "rewrite_from D sc [] = Ok []"
| "rewrite_from D sc (t # ts) =
     (case rewrite_twj D sc t of
        Inl e \<Rightarrow> Err e
      | Inr t' \<Rightarrow> (case rewrite_from D sc ts of Inl e \<Rightarrow> Err e | Inr ts' \<Rightarrow> Ok (t' # ts')))"
| "rewrite_twj D sc (Twj rel joins) =
     (case rewrite_factor D sc rel of
        Inl e \<Rightarrow> Err e
      | Inr rel' \<Rightarrow> (case rewrite_joins D sc joins of Inl e \<Rightarrow> Err e | Inr joins' \<Rightarrow> Ok (Twj rel' joins')))"
| "rewrite_joins D sc [] = Ok []"
| "rewrite_joins D sc (Join rel x # js) =
     (case rewrite_factor D sc rel of
        Inl e \<Rightarrow> Err e
      | Inr rel' \<Rightarrow> (case rewrite_joins D sc js of Inl e \<Rightarrow> Err e | Inr js' \<Rightarrow> Ok (Join rel' x # js')))"
| "rewrite_factor D sc (TfTable name alias x) = rewrite_table D sc name alias x"
| "rewrite_factor D sc (TfDerived q x) = (case rewrite_query D sc q of Inl e \<Rightarrow> Err e | Inr q' \<Rightarrow> Ok (TfDerived q' x))"
| "rewrite_factor D sc (TfNestedJoin t x) = (case rewrite_twj D sc t of Inl e \<Rightarrow> Err e | Inr t' \<Rightarrow> Ok (TfNestedJoin t' x))"
| "rewrite_factor D sc (TfOther x) = Err FromConstruct"


section \<open>What a confined query may read\<close>



lemma name_parts_length [simp]: "length (name_parts name) = length name" "name_parts name = [] \<longleftrightarrow> name = []"
  by (simp_all add: name_parts_def)





text \<open>What is not in a \<open>FROM\<close> position, a subquery of an expression included, goes through as it came.\<close>

lemma select_expressions_untouched:
  "rewrite_set_expr D sc (SeSelect ts x) = Ok b \<Longrightarrow> \<exists>ts'. b = SeSelect ts' x"
  "rewrite_set_expr D sc (SeOther x) = Ok (SeOther x)"
  by (auto split: sum.splits)



section \<open>Properties\<close>






end
