(* ===== verification/Env_Facts.thy ===== *)
theory Env_Facts
  imports Registry App_Audit
begin

text \<open>
  The environment model of \<open>garmr-core/src/environment.rs\<close>, first half: entities, facts with their append-only streams of
  observations and of governance transitions, the folds that derive the current view and the view as of a moment, and the
  integrity check. Instants and durations are integers (nanoseconds); floating-point arithmetic is an argument, a record
  of the operations the code uses on \<open>f32\<close> (type \<open>'f\<close>) and \<open>f64\<close> (type \<open>'d\<close>).
\<close>

section \<open>Entities and relations\<close>

datatype EntityKind =
    EK_Asset | EK_Host | EK_Device | EK_NetworkInterface | EK_Ip | EK_Mac | EK_Identity | EK_ServiceAccount | EK_Group
  | EK_Role | EK_Process | EK_Binary | EK_Software | EK_Service | EK_Application | EK_Database | EK_Container | EK_Cluster
  | EK_Certificate | EK_NetworkZone | EK_DataSource | EK_ChangeRecord | EK_Owner | EK_Unknown

fun entity_tag :: "EntityKind \<Rightarrow> string" where
  "entity_tag EK_Asset = ''asset''"
| "entity_tag EK_Host = ''host''"
| "entity_tag EK_Device = ''device''"
| "entity_tag EK_NetworkInterface = ''network_interface''"
| "entity_tag EK_Ip = ''ip''"
| "entity_tag EK_Mac = ''mac''"
| "entity_tag EK_Identity = ''identity''"
| "entity_tag EK_ServiceAccount = ''service_account''"
| "entity_tag EK_Group = ''group''"
| "entity_tag EK_Role = ''role''"
| "entity_tag EK_Process = ''process''"
| "entity_tag EK_Binary = ''binary''"
| "entity_tag EK_Software = ''software''"
| "entity_tag EK_Service = ''service''"
| "entity_tag EK_Application = ''application''"
| "entity_tag EK_Database = ''database''"
| "entity_tag EK_Container = ''container''"
| "entity_tag EK_Cluster = ''cluster''"
| "entity_tag EK_Certificate = ''certificate''"
| "entity_tag EK_NetworkZone = ''network_zone''"
| "entity_tag EK_DataSource = ''data_source''"
| "entity_tag EK_ChangeRecord = ''change_record''"
| "entity_tag EK_Owner = ''owner''"
| "entity_tag EK_Unknown = ''unknown''"

text \<open>The arms of \<open>from_tag\<close>, which has none for the unknown kind.\<close>

definition entity_arms :: "(string \<times> EntityKind) list" where
  "entity_arms =
     [(''asset'', EK_Asset), (''host'', EK_Host), (''device'', EK_Device), (''network_interface'', EK_NetworkInterface),
      (''ip'', EK_Ip), (''mac'', EK_Mac), (''identity'', EK_Identity), (''service_account'', EK_ServiceAccount),
      (''group'', EK_Group), (''role'', EK_Role), (''process'', EK_Process), (''binary'', EK_Binary),
      (''software'', EK_Software), (''service'', EK_Service), (''application'', EK_Application),
      (''database'', EK_Database), (''container'', EK_Container), (''cluster'', EK_Cluster),
      (''certificate'', EK_Certificate), (''network_zone'', EK_NetworkZone), (''data_source'', EK_DataSource),
      (''change_record'', EK_ChangeRecord), (''owner'', EK_Owner)]"

definition entity_from_tag :: "string \<Rightarrow> EntityKind option" where
  "entity_from_tag s = map_of entity_arms (to_ascii_lowercase (trim s))"

datatype RelationKind =
    REL_RunsOn | REL_ConnectsTo | REL_AuthenticatesTo | REL_Administers | REL_MemberOf | REL_BelongsToZone | REL_DependsOn
  | REL_UsesCertificate | REL_OwnedBy | REL_ObservedBy | REL_ChangedBy | REL_CommunicatesWith | REL_Unknown

fun relation_tag :: "RelationKind \<Rightarrow> string" where
  "relation_tag REL_RunsOn = ''runs_on''"
| "relation_tag REL_ConnectsTo = ''connects_to''"
| "relation_tag REL_AuthenticatesTo = ''authenticates_to''"
| "relation_tag REL_Administers = ''administers''"
| "relation_tag REL_MemberOf = ''member_of''"
| "relation_tag REL_BelongsToZone = ''belongs_to_zone''"
| "relation_tag REL_DependsOn = ''depends_on''"
| "relation_tag REL_UsesCertificate = ''uses_certificate''"
| "relation_tag REL_OwnedBy = ''owned_by''"
| "relation_tag REL_ObservedBy = ''observed_by''"
| "relation_tag REL_ChangedBy = ''changed_by''"
| "relation_tag REL_CommunicatesWith = ''communicates_with''"
| "relation_tag REL_Unknown = ''unknown''"

definition relation_arms :: "(string \<times> RelationKind) list" where
  "relation_arms =
     [(''runs_on'', REL_RunsOn), (''connects_to'', REL_ConnectsTo), (''authenticates_to'', REL_AuthenticatesTo),
      (''administers'', REL_Administers), (''member_of'', REL_MemberOf), (''belongs_to_zone'', REL_BelongsToZone),
      (''depends_on'', REL_DependsOn), (''uses_certificate'', REL_UsesCertificate), (''owned_by'', REL_OwnedBy),
      (''observed_by'', REL_ObservedBy), (''changed_by'', REL_ChangedBy), (''communicates_with'', REL_CommunicatesWith)]"

definition relation_from_tag :: "string \<Rightarrow> RelationKind option" where
  "relation_from_tag s = map_of relation_arms (to_ascii_lowercase (trim s))"

datatype FactState = FS_Candidate | FS_Trusted | FS_Suspicious | FS_KnownMalicious | FS_Retired | FS_Unknown

definition is_protected :: "FactState \<Rightarrow> bool" where
  "is_protected s \<longleftrightarrow> s \<in> {FS_Trusted, FS_Suspicious, FS_KnownMalicious, FS_Retired}"

definition is_compromised :: "FactState \<Rightarrow> bool" where
  "is_compromised s \<longleftrightarrow> s \<in> {FS_Suspicious, FS_KnownMalicious}"

datatype ObservationMode = OM_Observed | OM_Asserted

datatype SourceKind = SK_EventStream | SK_Inventory | SK_Analyst | SK_Agent | SK_Correlation | SK_Unknown

record EntityRef =
  er_kind :: EntityKind
  er_id :: string

definition EntityRef_default :: EntityRef where
  "EntityRef_default = \<lparr>er_kind = EK_Unknown, er_id = []\<rparr>"

record 'f SourceRef =
  sr_kind :: SourceKind
  sr_source_id :: string
  sr_trust :: 'f

section \<open>Facts\<close>

text \<open>What a fact is about, as the parts its identity is framed from; \<open>b3\<close> is BLAKE3 in hexadecimal.\<close>

definition fact_parts :: "EntityRef \<Rightarrow> string \<Rightarrow> RelationKind option \<Rightarrow> EntityRef option \<Rightarrow> string list" where
  "fact_parts entity attribute relation target =
     [''env-fact'', entity_tag (er_kind entity), er_id entity, attribute,
      (case relation of Some r \<Rightarrow> relation_tag r | None \<Rightarrow> []),
      (case target of Some t \<Rightarrow> entity_tag (er_kind t) | None \<Rightarrow> []),
      (case target of Some t \<Rightarrow> er_id t | None \<Rightarrow> [])]"

definition fact_id :: "(bytes \<Rightarrow> string) \<Rightarrow> EntityRef \<Rightarrow> string \<Rightarrow> RelationKind option \<Rightarrow> EntityRef option \<Rightarrow> string" where
  "fact_id b3 entity attribute relation target = frame b3 (map str_bytes (fact_parts entity attribute relation target))"

definition observation_id :: "(bytes \<Rightarrow> string) \<Rightarrow> string \<Rightarrow> string \<Rightarrow> string \<Rightarrow> string" where
  "observation_id b3 fid source_id v = frame b3 (map str_bytes [''env-obs'', fid, source_id, v])"

record 'f FactObservation =
  ob_observation_id :: string
  ob_fact_id :: string
  ob_entity :: EntityRef
  ob_attribute :: string
  ob_relation :: "RelationKind option"
  ob_target_id :: "string option"
  ob_value :: string
  ob_source :: "'f SourceRef"
  ob_confidence :: 'f
  ob_mode :: ObservationMode
  ob_learned_from :: string
  ob_valid_from :: int
  ob_valid_to :: "int option"
  ob_recorded_at :: int
  ob_audit_id :: "string option"

record FactTransition =
  tr_transition_id :: string
  tr_fact_id :: string
  tr_to_state :: FactState
  tr_from_state :: FactState
  tr_reason :: string
  tr_actor :: string
  tr_target_observation_id :: string
  tr_quarantine_until :: "int option"
  tr_supersedes :: "string option"
  tr_audit_id :: string
  tr_recorded_at :: int

record Sighting =
  si_fact_id :: string
  si_first_seen :: int
  si_last_seen :: int
  si_observation_count :: u64
  si_per_source_counts :: "(string \<times> u64) list"

record 'f EnvFact =
  ef_fact_id :: string
  ef_entity :: EntityRef
  ef_attribute :: string
  ef_relation :: "RelationKind option"
  ef_target_id :: "string option"
  ef_value :: string
  ef_state :: FactState
  ef_first_seen :: int
  ef_last_seen :: int
  ef_observation_count :: u64
  ef_distinct_sources :: "string list"
  ef_confidence :: 'f
  ef_mode :: ObservationMode
  ef_valid_from :: int
  ef_valid_to :: "int option"
  ef_learned_from :: string
  ef_quarantine_until :: "int option"
  ef_current_audit_id :: string
  ef_conflict_needs_human :: bool

text \<open>The floating-point operations: literals are given in hundredths.\<close>

record ('f, 'd) float_ops =
  fl_widen :: "'f \<Rightarrow> 'd"
  fl_count :: "u64 \<Rightarrow> 'd"
  fl_mul :: "'d \<Rightarrow> 'd \<Rightarrow> 'd"
  fl_div :: "'d \<Rightarrow> 'd \<Rightarrow> 'd"
  fl_sub :: "'d \<Rightarrow> 'd \<Rightarrow> 'd"
  fl_abs :: "'d \<Rightarrow> 'd"
  fl_sum :: "'d list \<Rightarrow> 'd"
  fl_lt :: "'d \<Rightarrow> 'd \<Rightarrow> bool"
  fl_le :: "'d \<Rightarrow> 'd \<Rightarrow> bool"
  fl_epsilon :: 'd
  fl_lit32 :: "nat \<Rightarrow> 'f"
  fl_lit64 :: "nat \<Rightarrow> 'd"

section \<open>Folds\<close>

definition inert :: "FactTransition \<Rightarrow> bool" where
  "inert t \<longleftrightarrow> is_protected (tr_to_state t) \<and> tr_audit_id t = []"

definition tr_superseded :: "FactTransition list \<Rightarrow> string list" where
  "tr_superseded ts = List.map_filter tr_supersedes (filter (\<lambda>t. \<not> inert t) ts)"

definition tr_key :: "FactTransition \<Rightarrow> int \<times> string" where
  "tr_key t = (tr_recorded_at t, tr_transition_id t)"

definition newest_transition :: "FactTransition list \<Rightarrow> nat option" where
  "newest_transition ts =
     map_option fst
       (max_by_key (\<lambda>(i, t). tr_key t)
         (filter (\<lambda>(i, t). \<not> inert t \<and> tr_transition_id t \<notin> set (tr_superseded ts)) (List.enumerate 0 ts)))"

definition current_transition :: "FactTransition list \<Rightarrow> FactTransition option" where
  "current_transition ts = map_option ((!) ts) (newest_transition ts)"

definition obs_score :: "('f, 'd) float_ops \<Rightarrow> 'f FactObservation \<Rightarrow> 'd" where
  "obs_score F ob = fl_mul F (fl_widen F (sr_trust (ob_source ob))) (fl_widen F (ob_confidence ob))"

text \<open>The comparison of two observations is greater: by score, which may be unordered, then by time.\<close>

definition obs_greater :: "('f, 'd) float_ops \<Rightarrow> 'f FactObservation \<Rightarrow> 'f FactObservation \<Rightarrow> bool" where
  "obs_greater F a b \<longleftrightarrow>
     (if fl_lt F (obs_score F a) (obs_score F b) then False
      else if fl_lt F (obs_score F b) (obs_score F a) then True
      else ob_recorded_at b < ob_recorded_at a)"

definition resolve_value :: "('f, 'd) float_ops \<Rightarrow> 'f FactObservation list \<Rightarrow> ('f FactObservation \<times> bool) option" where
  "resolve_value F obs =
     (case obs of
        [] \<Rightarrow> None
      | ob # rest \<Rightarrow>
          (let best = foldl (\<lambda>b y. if obs_greater F b y then b else y) ob rest
           in Some (best,
                list_ex (\<lambda>x. ob_value x \<noteq> ob_value best \<and>
                             fl_lt F (fl_abs F (fl_sub F (obs_score F x) (obs_score F best))) (fl_epsilon F) \<and>
                             ob_recorded_at x = ob_recorded_at best) obs)))"

definition newest_observation :: "'f FactObservation list \<Rightarrow> 'f FactObservation option" where
  "newest_observation obs = max_by_key ob_recorded_at obs"

text \<open>The value and provenance a fact carries, with the conflict flag; \<open>None\<close> when there is no observation.\<close>

definition blessed_value ::
  "FactTransition option \<Rightarrow> 'f FactObservation list \<Rightarrow> 'f FactObservation option \<times> bool" where
  "blessed_value transition obs =
     (let blessed_id = (case transition of Some t \<Rightarrow> tr_target_observation_id t | None \<Rightarrow> []);
          blessed = find (\<lambda>x. ob_observation_id x = blessed_id) obs;
          newest_live = newest_observation obs;
          drift = (case (blessed, newest_live) of
                     (Some b, Some n) \<Rightarrow> ob_value n \<noteq> ob_value b
                   | (None, _) \<Rightarrow> blessed_id \<noteq> []
                   | _ \<Rightarrow> False)
      in (case blessed of Some b \<Rightarrow> Some b | None \<Rightarrow> newest_live, drift))"

definition carried_value ::
  "('f, 'd) float_ops \<Rightarrow> FactState \<Rightarrow> FactTransition option \<Rightarrow> 'f FactObservation list \<Rightarrow> 'f FactObservation option \<times> bool" where
  "carried_value F state transition obs =
     (if is_protected state then blessed_value transition obs
      else (case resolve_value F obs of Some (ob, tie) \<Rightarrow> (Some ob, tie) | None \<Rightarrow> (None, False)))"

definition seen_counters :: "Sighting option \<Rightarrow> int \<Rightarrow> 'f FactObservation list \<Rightarrow> int \<times> int \<times> u64" where
  "seen_counters sighting now obs =
     (case sighting of
        Some s \<Rightarrow> (si_first_seen s, si_last_seen s, si_observation_count s)
      | None \<Rightarrow>
          (let times = map ob_recorded_at obs
           in (if times = [] then now else foldr min times (hd times),
               if times = [] then now else foldr max times (hd times),
               of_nat (length obs))))"

definition birth_state :: "FactTransition option \<Rightarrow> 'f FactObservation list \<Rightarrow> FactState" where
  "birth_state transition obs =
     (case transition of Some t \<Rightarrow> tr_to_state t | None \<Rightarrow> if obs \<noteq> [] then FS_Candidate else FS_Unknown)"

text \<open>Expiry by time of a state that is not protected.\<close>

definition expired :: "int option \<Rightarrow> FactState \<Rightarrow> int \<Rightarrow> int \<Rightarrow> bool" where
  "expired ttl state now last_seen =
     (case ttl of None \<Rightarrow> False | Some d \<Rightarrow> \<not> is_protected state \<and> now - last_seen > d)"

definition materialize_fact ::
  "('f, 'd) float_ops \<Rightarrow> string \<Rightarrow> 'f FactObservation list \<Rightarrow> FactTransition list \<Rightarrow> Sighting option \<Rightarrow> int option \<Rightarrow> int \<Rightarrow>
   'f EnvFact option" where
  "materialize_fact F fid obs transitions sighting ttl now =
     (if obs = [] \<and> transitions = [] then None
      else
        (let transition = current_transition transitions;
             state = birth_state transition obs;
             (carried, conflict) = carried_value F state transition obs;
             (first_seen, last_seen, count) = seen_counters sighting now obs;
             old = expired ttl state now last_seen;
             newest = newest_observation obs
         in Some
              \<lparr>ef_fact_id = fid,
               ef_entity = (case newest of Some x \<Rightarrow> ob_entity x | None \<Rightarrow> EntityRef_default),
               ef_attribute = (case newest of Some x \<Rightarrow> ob_attribute x | None \<Rightarrow> []),
               ef_relation = Option.bind newest ob_relation,
               ef_target_id = Option.bind newest ob_target_id,
               ef_value = (case carried of Some x \<Rightarrow> ob_value x | None \<Rightarrow> []),
               ef_state = (if old then FS_Retired else state),
               ef_first_seen = first_seen, ef_last_seen = last_seen, ef_observation_count = count,
               ef_distinct_sources = remdups_adj (sort (map (\<lambda>x. sr_source_id (ob_source x)) obs)),
               ef_confidence = (case carried of Some x \<Rightarrow> ob_confidence x | None \<Rightarrow> fl_lit32 F 0),
               ef_mode = (case carried of Some x \<Rightarrow> ob_mode x | None \<Rightarrow> OM_Observed),
               ef_valid_from = (case carried of Some x \<Rightarrow> ob_valid_from x | None \<Rightarrow> now),
               ef_valid_to = Option.bind carried ob_valid_to,
               ef_learned_from = (case carried of Some x \<Rightarrow> ob_learned_from x | None \<Rightarrow> []),
               ef_quarantine_until = Option.bind transition tr_quarantine_until,
               ef_current_audit_id = (case transition of Some t \<Rightarrow> tr_audit_id t | None \<Rightarrow> []),
               ef_conflict_needs_human = (if old then False else conflict)\<rparr>))"

definition materialize_fact_asof ::
  "('f, 'd) float_ops \<Rightarrow> string \<Rightarrow> int \<Rightarrow> 'f FactObservation list \<Rightarrow> FactTransition list \<Rightarrow> int option \<Rightarrow> 'f EnvFact option" where
  "materialize_fact_asof F fid as_of obs transitions ttl =
     materialize_fact F fid (filter (\<lambda>x. ob_recorded_at x \<le> as_of) obs)
       (filter (\<lambda>t. tr_recorded_at t \<le> as_of) transitions) None ttl as_of"

section \<open>Integrity\<close>

text \<open>The name of a state as its \<open>Debug\<close> form prints it, and the dash of the messages in UTF-8.\<close>

fun state_debug :: "FactState \<Rightarrow> string" where
  "state_debug FS_Candidate = ''Candidate''"
| "state_debug FS_Trusted = ''Trusted''"
| "state_debug FS_Suspicious = ''Suspicious''"
| "state_debug FS_KnownMalicious = ''KnownMalicious''"
| "state_debug FS_Retired = ''Retired''"
| "state_debug FS_Unknown = ''Unknown''"

definition em_dash :: string where
  "em_dash = [CHR 0xE2, CHR 0x80, CHR 0x94]"

record EnvFinding =
  nf_category :: string
  nf_coord :: string
  nf_detail :: string

definition transition_findings :: "'f FactObservation list \<Rightarrow> FactTransition \<Rightarrow> EnvFinding list" where
  "transition_findings obs t =
     (if is_protected (tr_to_state t) \<and> tr_audit_id t = []
      then [\<lparr>nf_category = ''unaudited-transition'', nf_coord = tr_transition_id t,
             nf_detail = state_debug (tr_to_state t) @ '' of '' @ digest_head (tr_fact_id t) @
               '' has an empty audit_id '' @ em_dash @ '' inert on read''\<rparr>] else []) @
     (if \<not> list_ex (\<lambda>x. ob_fact_id x = tr_fact_id t) obs
      then [\<lparr>nf_category = ''dangling-transition'', nf_coord = tr_transition_id t,
             nf_detail = ''transition governs fact '' @ digest_head (tr_fact_id t) @ '' which has no observation''\<rparr>] else [])"

definition drift_findings :: "'f FactObservation list \<Rightarrow> FactTransition list \<Rightarrow> string \<Rightarrow> EnvFinding list" where
  "drift_findings obs transitions fid =
     (case current_transition (filter (\<lambda>t. tr_fact_id t = fid) transitions) of
        None \<Rightarrow> []
      | Some cur \<Rightarrow>
          (if tr_to_state cur \<noteq> FS_Trusted then []
           else
             (let fo = filter (\<lambda>x. ob_fact_id x = fid) obs
              in case find (\<lambda>x. ob_observation_id x = tr_target_observation_id cur) fo of
                   None \<Rightarrow> [\<lparr>nf_category = ''trusted-value-drift'', nf_coord = tr_transition_id cur,
                             nf_detail = ''Trusted fact '' @ digest_head fid @ '' has no observation for its blessed value''\<rparr>]
                 | Some b \<Rightarrow>
                     (case newest_observation fo of
                        None \<Rightarrow> []
                      | Some n \<Rightarrow>
                          if ob_value n \<noteq> ob_value b
                          then [\<lparr>nf_category = ''trusted-value-drift'', nf_coord = tr_transition_id cur,
                                 nf_detail = ''Trusted fact '' @ digest_head fid @ '' blessed '' @ [CHR 0x27] @ ob_value b @ [CHR 0x27] @
                                   '' but the newest observation is '' @ [CHR 0x27] @ ob_value n @ [CHR 0x27] @ '' '' @ em_dash @
                                   '' re-confirm''\<rparr>]
                          else []))))"

definition verify_environment :: "'f FactObservation list \<Rightarrow> FactTransition list \<Rightarrow> EnvFinding list" where
  "verify_environment obs transitions =
     concat (map (transition_findings obs) transitions) @
     concat (map (drift_findings obs transitions) (remdups_adj (sort (map tr_fact_id transitions))))"

section \<open>The governing transition\<close>

definition effective_transition :: "FactTransition \<Rightarrow> bool" where
  "effective_transition t \<longleftrightarrow> \<not> inert t"

definition tr_contenders :: "FactTransition list \<Rightarrow> FactTransition list" where
  "tr_contenders ts = filter (\<lambda>t. effective_transition t \<and> tr_transition_id t \<notin> set (tr_superseded ts)) ts"

lemma current_transition_max: "current_transition ts = max_by_key tr_key (tr_contenders ts)"
proof -
  let ?xs = "filter (\<lambda>(i, t). effective_transition t \<and> tr_transition_id t \<notin> set (tr_superseded ts)) (List.enumerate 0 ts)"
  have nb: "newest_transition ts = map_option fst (max_by_key (tr_key \<circ> snd) ?xs)"
    by (simp add: newest_transition_def effective_transition_def comp_def case_prod_unfold)
  have "ts ! fst x = snd x" if "max_by_key (tr_key \<circ> snd) ?xs = Some x" for x
    using max_by_key_Some(1) [OF that] by (auto simp: in_set_enumerate_eq)
  then have "current_transition ts = map_option snd (max_by_key (tr_key \<circ> snd) ?xs)"
    unfolding current_transition_def nb by (cases "max_by_key (tr_key \<circ> snd) ?xs") simp_all
  also have "\<dots> = max_by_key tr_key (map snd ?xs)" by (simp add: max_by_key_map)
  finally show ?thesis by (simp add: tr_contenders_def filter_enumerate)
qed

lemma tr_superseded_effective: "tr_superseded (filter effective_transition ts) = tr_superseded ts"
  by (simp add: tr_superseded_def effective_transition_def)

text \<open>The governing transition keeps the contract the registry's binding event keeps.\<close>

interpretation governing: binding_choice current_transition effective_transition
proof
  fix es :: "FactTransition list" and e
  show "current_transition es = Some e \<Longrightarrow> e \<in> set es \<and> effective_transition e"
    unfolding current_transition_max using max_by_key_Some(1) by (fastforce simp: tr_contenders_def)
  show "current_transition (filter effective_transition es) = current_transition es"
    by (simp add: current_transition_max tr_contenders_def tr_superseded_effective)
qed

lemma current_audited: "current_transition ts = Some t \<Longrightarrow> is_protected (tr_to_state t) \<Longrightarrow> t \<in> set ts \<and> tr_audit_id t \<noteq> []"
  using governing.winner_mem [of ts t] by (auto simp: effective_transition_def inert_def)

end
