(* ===== verification/Env_Gate.thy ===== *)
theory Env_Gate
  imports Env_Facts
begin

text \<open>
  The environment model, second half: the gate that decides which facts may be promoted, the learner that turns events into
  candidate observations, the import of inventories (\<open>garmr-core/src/environment.rs\<close>), and the asset roles the learner
  guesses (\<open>garmr-core/src/domain.rs\<close>). Sets of entities are lists of which only membership is asked.
\<close>

section \<open>Asset roles\<close>

definition str_contains :: "string \<Rightarrow> string \<Rightarrow> bool" where
  "str_contains s p = list_ex (\<lambda>i. take (length p) (drop i s) = p) [0..<Suc (length s)]"

definition is_ascii_digit :: "char \<Rightarrow> bool" where
  "is_ascii_digit c \<longleftrightarrow> 48 \<le> (of_char c :: nat) \<and> (of_char c :: nat) \<le> 57"

definition prefix_num :: "string \<Rightarrow> string \<Rightarrow> bool" where
  "prefix_num name pre \<longleftrightarrow>
     starts_with name pre \<and> (case drop (length pre) name of [] \<Rightarrow> False | c # _ \<Rightarrow> is_ascii_digit c)"

definition heuristic_role :: "string \<Rightarrow> string \<Rightarrow> string \<Rightarrow> string" where
  "heuristic_role host source log_type =
     (let h = to_ascii_lowercase host; s = to_ascii_lowercase source; lt = to_ascii_lowercase log_type
      in if lt = ''firewall'' \<or> str_contains s ''firewall'' then ''router''
         else if str_contains s ''talos'' \<or> lt = ''cluster'' then ''cluster''
         else if str_contains h ''vault'' \<or> str_contains h ''bao'' then ''vault''
         else if str_contains h ''switch'' \<or> prefix_num h ''sw'' then ''switch''
         else if str_contains h ''router'' \<or> str_contains h ''gateway'' \<or> prefix_num h ''gw'' \<or> prefix_num h ''rtr''
         then ''router''
         else ''server'')"

datatype RoleSource = RS_Trusted | RS_Heuristic

record 'f RoleResolution =
  ro_role :: string
  ro_confidence :: 'f
  ro_source :: RoleSource

definition resolve_asset_role ::
  "('f, 'd) float_ops \<Rightarrow> string option \<Rightarrow> string \<Rightarrow> string \<Rightarrow> string \<Rightarrow> 'f RoleResolution" where
  "resolve_asset_role F trusted_role host source log_type =
     (case trusted_role of
        Some r \<Rightarrow>
          if r \<noteq> [] then \<lparr>ro_role = r, ro_confidence = fl_lit32 F 95, ro_source = RS_Trusted\<rparr>
          else \<lparr>ro_role = heuristic_role host source log_type, ro_confidence = fl_lit32 F 30, ro_source = RS_Heuristic\<rparr>
      | None \<Rightarrow> \<lparr>ro_role = heuristic_role host source log_type, ro_confidence = fl_lit32 F 30, ro_source = RS_Heuristic\<rparr>)"

definition role_criticality :: "('f, 'd) float_ops \<Rightarrow> string \<Rightarrow> 'f" where
  "role_criticality F role =
     (let r = to_ascii_lowercase role
      in if r = ''vault'' \<or> r = ''cluster'' then fl_lit32 F 100
         else if r = ''router'' \<or> r = ''switch'' \<or> r = ''firewall'' then fl_lit32 F 50
         else fl_lit32 F 0)"

section \<open>The gate\<close>

record ('f, 'd) PromotionPolicy =
  pp_quarantine :: int
  pp_asserted_quarantine :: int
  pp_min_observations :: u64
  pp_min_distinct_sources :: nat
  pp_max_single_source_share :: 'd
  pp_fact_ttl :: int
  pp_extra_high_impact :: "string list"
  pp_source_trust :: "string \<Rightarrow> 'f option"
  pp_default_source_trust :: 'f

definition hours :: "int \<Rightarrow> int" where
  "hours n = n * 3600 * 1000000000"

definition PromotionPolicy_default :: "('f, 'd) float_ops \<Rightarrow> ('f, 'd) PromotionPolicy" where
  "PromotionPolicy_default F =
     \<lparr>pp_quarantine = hours 24, pp_asserted_quarantine = hours 1, pp_min_observations = 5, pp_min_distinct_sources = 2,
      pp_max_single_source_share = fl_lit64 F 80, pp_fact_ttl = hours (24 * 90), pp_extra_high_impact = [],
      pp_source_trust = Map.empty, pp_default_source_trust = fl_lit32 F 50\<rparr>"

record ('f, 'd) PromotionContext =
  pc_fact :: "'f EnvFact"
  pc_now :: int
  pc_open_case_entities :: "EntityRef list"
  pc_compromised_entities :: "EntityRef list"
  pc_change_windows :: "'f EnvFact list"
  pc_per_source_counts :: "(string \<times> u64) list"
  pc_policy :: "('f, 'd) PromotionPolicy"

datatype PromotionBlock =
    OpenCaseTouchesEntity | EntityCompromised | QuarantineActive | InsufficientObservations | InsufficientDistinctSources
  | InfluenceCapExceeded | RequiresAnalystApproval | ConflictNeedsHuman

definition is_high_impact :: "'f EnvFact \<Rightarrow> string list \<Rightarrow> bool" where
  "is_high_impact fct extra \<longleftrightarrow>
     er_kind (ef_entity fct) \<in> {EK_Identity, EK_ServiceAccount, EK_Role, EK_Certificate, EK_NetworkZone} \<or>
     ef_relation fct \<in> {Some REL_Administers, Some REL_AuthenticatesTo, Some REL_BelongsToZone} \<or>
     list_ex (\<lambda>h. h = ef_attribute fct \<or> h = entity_tag (er_kind (ef_entity fct))) extra"

definition touches :: "'f EnvFact \<Rightarrow> EntityRef list \<Rightarrow> bool" where
  "touches fct es \<longleftrightarrow>
     ef_entity fct \<in> set es \<or>
     (case ef_target_id fct of None \<Rightarrow> False | Some tid \<Rightarrow> list_ex (\<lambda>e. er_id e = tid) es)"

definition within_change_window :: "EntityRef \<Rightarrow> int \<Rightarrow> 'f EnvFact list \<Rightarrow> bool" where
  "within_change_window entity now windows =
     list_ex (\<lambda>w. er_kind (ef_entity w) = EK_ChangeRecord \<and> ef_target_id w = Some (er_id entity) \<and>
                  ef_valid_from w \<le> now \<and> (case ef_valid_to w of Some e \<Rightarrow> now < e | None \<Rightarrow> True)) windows"

definition source_weight :: "('f, 'd) float_ops \<Rightarrow> ('f, 'd) PromotionPolicy \<Rightarrow> string \<times> u64 \<Rightarrow> 'd" where
  "source_weight F policy sc =
     (let trust = (case pp_source_trust policy (fst sc) of Some t \<Rightarrow> t | None \<Rightarrow> pp_default_source_trust policy)
      in fl_mul F (fl_count F (snd sc)) (fl_widen F trust))"

definition influence_cap_exceeded ::
  "('f, 'd) float_ops \<Rightarrow> (string \<times> u64) list \<Rightarrow> ('f, 'd) PromotionPolicy \<Rightarrow> bool" where
  "influence_cap_exceeded F per_source policy =
     (let total = fl_sum F (map (source_weight F policy) per_source)
      in if fl_le F total (fl_lit64 F 0) then True
         else list_ex (\<lambda>sc. fl_lt F (pp_max_single_source_share policy) (fl_div F (source_weight F policy sc) total)) per_source)"

definition hard_blocks :: "('f, 'd) PromotionContext \<Rightarrow> PromotionBlock list" where
  "hard_blocks ctx =
     (if touches (pc_fact ctx) (pc_open_case_entities ctx) then [OpenCaseTouchesEntity] else []) @
     (if touches (pc_fact ctx) (pc_compromised_entities ctx) then [EntityCompromised] else [])"

definition auto_blocks :: "('f, 'd) float_ops \<Rightarrow> ('f, 'd) PromotionContext \<Rightarrow> PromotionBlock list" where
  "auto_blocks F ctx =
     (let fct = pc_fact ctx; policy = pc_policy ctx;
          window = (if ef_mode fct = OM_Asserted then pp_asserted_quarantine policy else pp_quarantine policy);
          quarantined = (pc_now ctx < ef_first_seen fct + window)
      in (if quarantined \<and> \<not> within_change_window (ef_entity fct) (pc_now ctx) (pc_change_windows ctx)
          then [QuarantineActive] else []) @
         (if ef_observation_count fct < pp_min_observations policy then [InsufficientObservations] else []) @
         (if length (ef_distinct_sources fct) < pp_min_distinct_sources policy then [InsufficientDistinctSources] else []) @
         (if influence_cap_exceeded F (pc_per_source_counts ctx) policy then [InfluenceCapExceeded] else []) @
         (if is_high_impact fct (pp_extra_high_impact policy) then [RequiresAnalystApproval] else []) @
         (if ef_conflict_needs_human fct then [ConflictNeedsHuman] else []))"

definition may_auto_promote :: "('f, 'd) float_ops \<Rightarrow> ('f, 'd) PromotionContext \<Rightarrow> bool" where
  "may_auto_promote F ctx \<longleftrightarrow> hard_blocks ctx = [] \<and> auto_blocks F ctx = []"

definition may_analyst_promote :: "('f, 'd) PromotionContext \<Rightarrow> bool" where
  "may_analyst_promote ctx \<longleftrightarrow> hard_blocks ctx = []"

section \<open>The learner\<close>

definition candidate ::
  "(bytes \<Rightarrow> string) \<Rightarrow> EntityRef \<Rightarrow> string \<Rightarrow> RelationKind option \<Rightarrow> EntityRef option \<Rightarrow> string \<Rightarrow> 'f SourceRef \<Rightarrow> 'f \<Rightarrow>
   int \<Rightarrow> int \<Rightarrow> 'f FactObservation" where
  "candidate b3 entity attribute relation target v src confidence valid_from now =
     (let fid = fact_id b3 entity attribute relation target
      in \<lparr>ob_observation_id = observation_id b3 fid (sr_source_id src) v, ob_fact_id = fid, ob_entity = entity,
          ob_attribute = attribute, ob_relation = relation, ob_target_id = map_option er_id target, ob_value = v,
          ob_source = src, ob_confidence = confidence, ob_mode = OM_Observed, ob_learned_from = ''learner'',
          ob_valid_from = valid_from, ob_valid_to = None, ob_recorded_at = now, ob_audit_id = None\<rparr>)"

definition nonempty_field :: "int Event \<Rightarrow> string \<Rightarrow> string option" where
  "nonempty_field ev k = (case ev_field ev k of Some s \<Rightarrow> if s \<noteq> [] then Some s else None | None \<Rightarrow> None)"

definition push_event_candidates ::
  "(bytes \<Rightarrow> string) \<Rightarrow> ('f, 'd) float_ops \<Rightarrow> int Event \<Rightarrow> 'f SourceRef \<Rightarrow> int \<Rightarrow> 'f FactObservation list" where
  "push_event_candidates b3 F ev src now =
     (let host = \<lparr>er_kind = EK_Host, er_id = ev_host ev\<rparr>
      in [candidate b3 host ''role'' None None (heuristic_role (ev_host ev) (ev_source ev) (ev_log_type ev)) src
            (fl_lit32 F 30) (ev_ts ev) now] @
         (case nonempty_field ev ''src_ip'' of
            None \<Rightarrow> []
          | Some ip \<Rightarrow>
              [candidate b3 host [] (Some REL_CommunicatesWith) (Some \<lparr>er_kind = EK_Ip, er_id = ip\<rparr>) ip src
                 (fl_lit32 F 50) (ev_ts ev) now]) @
         (case nonempty_field ev ''db_user'' of
            Some u \<Rightarrow>
              [candidate b3 \<lparr>er_kind = EK_Identity, er_id = u\<rparr> ''active'' None None ''seen'' src (fl_lit32 F 40) (ev_ts ev) now]
          | None \<Rightarrow>
              (case nonempty_field ev ''user'' of
                 Some u \<Rightarrow>
                   [candidate b3 \<lparr>er_kind = EK_Identity, er_id = u\<rparr> ''active'' None None ''seen'' src (fl_lit32 F 40)
                      (ev_ts ev) now]
               | None \<Rightarrow> [])))"

definition policy_trust :: "('f, 'd) PromotionPolicy \<Rightarrow> string \<Rightarrow> 'f" where
  "policy_trust policy src = (case pp_source_trust policy src of Some t \<Rightarrow> t | None \<Rightarrow> pp_default_source_trust policy)"

definition self_declared_source :: "int Event \<Rightarrow> ('f, 'd) PromotionPolicy \<Rightarrow> 'f SourceRef" where
  "self_declared_source ev policy =
     (let src_id = (if ev_source ev = [] then ''unknown'' else ev_source ev)
      in \<lparr>sr_kind = SK_EventStream, sr_source_id = src_id, sr_trust = policy_trust policy src_id\<rparr>)"

definition derive_candidates ::
  "(bytes \<Rightarrow> string) \<Rightarrow> ('f, 'd) float_ops \<Rightarrow> int Event list \<Rightarrow> ('f, 'd) PromotionPolicy \<Rightarrow> int \<Rightarrow> 'f FactObservation list" where
  "derive_candidates b3 F events policy now =
     concat (map (\<lambda>ev. if ev_host ev = [] then []
                       else push_event_candidates b3 F ev (self_declared_source ev policy) now) events)"

text \<open>The source of one row: the collector when authenticated, nothing when binding and not, else the declared one.\<close>

definition bound_source ::
  "('f, 'd) PromotionPolicy \<Rightarrow> bool \<Rightarrow> int Event \<Rightarrow> string option \<Rightarrow> 'f SourceRef option" where
  "bound_source policy binding ev collector_id =
     (case collector_id of
        Some cid \<Rightarrow>
          if cid \<noteq> [] then Some \<lparr>sr_kind = SK_EventStream, sr_source_id = cid, sr_trust = policy_trust policy cid\<rparr>
          else if binding then None else Some (self_declared_source ev policy)
      | None \<Rightarrow> if binding then None else Some (self_declared_source ev policy))"

definition derive_candidates_bound ::
  "(bytes \<Rightarrow> string) \<Rightarrow> ('f, 'd) float_ops \<Rightarrow> (int Event \<times> string option) list \<Rightarrow> ('f, 'd) PromotionPolicy \<Rightarrow> int \<Rightarrow> bool \<Rightarrow>
   'f FactObservation list" where
  "derive_candidates_bound b3 F rows policy now binding =
     concat (map (\<lambda>(ev, collector_id).
       if ev_host ev = [] then []
       else (case bound_source policy binding ev collector_id of
               None \<Rightarrow> []
             | Some src \<Rightarrow> push_event_candidates b3 F ev src now)) rows)"

section \<open>Inventories\<close>

datatype InventoryFormat = IF_Toml | IF_Json

record 'f InventoryFact =
  iv_entity_kind :: string
  iv_entity_id :: string
  iv_attribute :: string
  iv_value :: string
  iv_relation :: "string option"
  iv_target_id :: "string option"
  iv_target_kind :: "string option"
  iv_confidence :: "'f option"
  iv_valid_from :: "int option"
  iv_valid_to :: "int option"

datatype inventory_error = NotUtf8 | BadToml | BadJson

definition inventory_observation ::
  "(bytes \<Rightarrow> string) \<Rightarrow> ('f, 'd) float_ops \<Rightarrow> string \<Rightarrow> 'f \<Rightarrow> int \<Rightarrow> 'f InventoryFact \<Rightarrow> 'f FactObservation list" where
  "inventory_observation b3 F source_id trust now f =
     (case entity_from_tag (iv_entity_kind f) of
        None \<Rightarrow> []
      | Some ekind \<Rightarrow>
          (let entity = \<lparr>er_kind = ekind, er_id = iv_entity_id f\<rparr>;
               relation = Option.bind (iv_relation f) relation_from_tag;
               target = (case (iv_target_id f, Option.bind (iv_target_kind f) entity_from_tag) of
                           (Some tid, Some tk) \<Rightarrow> Some \<lparr>er_kind = tk, er_id = tid\<rparr>
                         | _ \<Rightarrow> None);
               fid = fact_id b3 entity (iv_attribute f) relation target
           in [\<lparr>ob_observation_id = observation_id b3 fid source_id (iv_value f), ob_fact_id = fid, ob_entity = entity,
                ob_attribute = iv_attribute f, ob_relation = relation, ob_target_id = iv_target_id f,
                ob_value = iv_value f,
                ob_source = \<lparr>sr_kind = SK_Inventory, sr_source_id = source_id, sr_trust = trust\<rparr>,
                ob_confidence = (case iv_confidence f of Some c \<Rightarrow> c | None \<Rightarrow> fl_lit32 F 90),
                ob_mode = OM_Asserted, ob_learned_from = ''inventory:'' @ source_id,
                ob_valid_from = (case iv_valid_from f of Some t \<Rightarrow> t | None \<Rightarrow> now), ob_valid_to = iv_valid_to f,
                ob_recorded_at = now, ob_audit_id = None\<rparr>]))"

definition parse_inventory ::
  "(bytes \<Rightarrow> string option) \<Rightarrow> (string \<Rightarrow> 'f InventoryFact list option) \<Rightarrow> (string \<Rightarrow> 'f InventoryFact list option) \<Rightarrow>
   (bytes \<Rightarrow> string) \<Rightarrow> ('f, 'd) float_ops \<Rightarrow> bytes \<Rightarrow> InventoryFormat \<Rightarrow> string \<Rightarrow> 'f \<Rightarrow> int \<Rightarrow>
   inventory_error + 'f FactObservation list" where
  "parse_inventory from_utf8 from_toml from_json b3 F content format source_id trust now =
     (case from_utf8 content of
        None \<Rightarrow> Err NotUtf8
      | Some txt \<Rightarrow>
          (case (case format of IF_Toml \<Rightarrow> from_toml txt | IF_Json \<Rightarrow> from_json txt) of
             None \<Rightarrow> Err (case format of IF_Toml \<Rightarrow> BadToml | IF_Json \<Rightarrow> BadJson)
           | Some facts \<Rightarrow> Ok (concat (map (inventory_observation b3 F source_id trust now) facts))))"

end
