(* ===== verification/Env_Store.thy ===== *)
theory Env_Store
  imports Env_Gate Garmr_Tables
begin

text \<open>
  The environment model in operation: its tables and the sets the gate reads (\<open>garmr-store/src/state/environment.rs\<close>), the
  governance endpoints (\<open>garmr-cli/src/api/env.rs\<close>) and the loop that promotes on its own
  (\<open>garmr-cli/src/pipeline.rs\<close>). A case, an analyst decision and an incident outcome are the parts these functions read.
  Whether the database answered, what the ledger answered, the clock and the fresh identifier are arguments.
\<close>

section \<open>Cases\<close>

datatype CaseState = CS_New | CS_Investigating | CS_Triaged | CS_Escalated | CS_Closed | CS_NeedsHuman

datatype Disposition = DI_Benign | DI_Suspicious | DI_Malicious | DI_NeedsHuman

record case_view =
  cv_id :: string
  cv_state :: CaseState
  cv_event :: "int Event"
  cv_verdict :: "Disposition option"

datatype ExclusionReason = XR_OpenCase | XR_Compromised | XR_UntrustedLabel | XR_OutOfWindow | XR_Unknown

definition case_entities :: "case_view \<Rightarrow> EntityRef list" where
  "case_entities c =
     (let ev = cv_event c;
          user = (case ev_field ev ''db_user'' of Some u \<Rightarrow> Some u | None \<Rightarrow> ev_field ev ''user'')
      in (if ev_host ev \<noteq> [] then [\<lparr>er_kind = EK_Host, er_id = ev_host ev\<rparr>] else []) @
         (case nonempty_field ev ''src_ip'' of Some ip \<Rightarrow> [\<lparr>er_kind = EK_Ip, er_id = ip\<rparr>] | None \<Rightarrow> []) @
         (case user of Some u \<Rightarrow> if u \<noteq> [] then [\<lparr>er_kind = EK_Identity, er_id = u\<rparr>] else [] | None \<Rightarrow> []))"

section \<open>Tables\<close>

record 'f env_store =
  es_observations :: "(string \<times> 'f FactObservation option) list"
  es_transitions :: "(string \<times> FactTransition option) list"
  es_sightings :: "(string \<times> Sighting option) list"
  es_learn_watermark :: "int option"
  es_detect_watermark :: "int option"
  es_cases :: "case_view list"
  es_decisions :: "(string \<times> Disposition) list"
  es_outcomes :: "(string option \<times> Disposition) list"

definition append_observation :: "'f FactObservation \<Rightarrow> 'f env_store \<Rightarrow> bool \<times> 'f env_store" where
  "append_observation ob s =
     (let k = ob_fact_id ob @ ''|'' @ ob_observation_id ob
      in if map_of (es_observations s) k \<noteq> None then (False, s)
         else (True, s\<lparr>es_observations := tab_put k (Some ob) (es_observations s)\<rparr>))"

definition advance_watermark :: "int option \<Rightarrow> int \<Rightarrow> int option" where
  "advance_watermark cur us = (case cur of None \<Rightarrow> Some us | Some c \<Rightarrow> if us > c then Some us else Some c)"

definition set_env_learn_watermark_us :: "int \<Rightarrow> 'f env_store \<Rightarrow> 'f env_store" where
  "set_env_learn_watermark_us us s = s\<lparr>es_learn_watermark := advance_watermark (es_learn_watermark s) us\<rparr>"

definition set_env_detect_watermark_us :: "int \<Rightarrow> 'f env_store \<Rightarrow> 'f env_store" where
  "set_env_detect_watermark_us us s = s\<lparr>es_detect_watermark := advance_watermark (es_detect_watermark s) us\<rparr>"

definition sat_inc :: "u64 \<Rightarrow> u64" where
  "sat_inc n = (if n = - 1 then n else n + 1)"

definition bumped :: "string \<Rightarrow> int \<Rightarrow> Sighting \<Rightarrow> Sighting" where
  "bumped source_id at s =
     (let counts = si_per_source_counts s;
          n = (case map_of counts source_id of Some n \<Rightarrow> n | None \<Rightarrow> 0)
      in s\<lparr>si_observation_count := sat_inc (si_observation_count s),
          si_last_seen := (if at > si_last_seen s then at else si_last_seen s),
          si_first_seen := (if at < si_first_seen s then at else si_first_seen s),
          si_per_source_counts := tab_put source_id (n + 1) counts\<rparr>)"

text \<open>A row that does not decode makes the update fail.\<close>

definition bump_sighting :: "string \<Rightarrow> string \<Rightarrow> int \<Rightarrow> 'f env_store \<Rightarrow> bool \<times> 'f env_store" where
  "bump_sighting fid source_id at s =
     (case map_of (es_sightings s) fid of
        Some None \<Rightarrow> (False, s)
      | Some (Some si) \<Rightarrow> (True, s\<lparr>es_sightings := tab_put fid (Some (bumped source_id at si)) (es_sightings s)\<rparr>)
      | None \<Rightarrow>
          (True, s\<lparr>es_sightings := tab_put fid
             (Some (bumped source_id at
                \<lparr>si_fact_id = fid, si_first_seen = at, si_last_seen = at, si_observation_count = 0,
                 si_per_source_counts = []\<rparr>)) (es_sightings s)\<rparr>))"

text \<open>\<open>show_nanos\<close> prints the zero-padded nanoseconds of an instant.\<close>

definition append_transition :: "(int \<Rightarrow> string) \<Rightarrow> FactTransition \<Rightarrow> 'f env_store \<Rightarrow> 'f env_store" where
  "append_transition show_nanos t s =
     (let k = tr_fact_id t @ ''|'' @ show_nanos (tr_recorded_at t) @ ''|'' @ tr_transition_id t
      in s\<lparr>es_transitions := tab_put k (Some t) (es_transitions s)\<rparr>)"

definition list_env_observations :: "'f env_store \<Rightarrow> 'f FactObservation list" where
  "list_env_observations s = row_values (es_observations s)"

definition list_env_transitions :: "'f env_store \<Rightarrow> FactTransition list" where
  "list_env_transitions s = row_values (es_transitions s)"

definition observations_for :: "string \<Rightarrow> 'f env_store \<Rightarrow> 'f FactObservation list" where
  "observations_for fid s = filter (\<lambda>x. ob_fact_id x = fid) (list_env_observations s)"

definition transitions_for :: "string \<Rightarrow> 'f env_store \<Rightarrow> FactTransition list" where
  "transitions_for fid s = filter (\<lambda>t. tr_fact_id t = fid) (list_env_transitions s)"

text \<open>The listing tolerates a sighting that does not decode, the single lookup does not.\<close>

definition sighting_for :: "string \<Rightarrow> 'f env_store \<Rightarrow> unit + Sighting option" where
  "sighting_for fid s =
     (case map_of (es_sightings s) fid of
        None \<Rightarrow> Ok None
      | Some None \<Rightarrow> Err ()
      | Some (Some si) \<Rightarrow> Ok (Some si))"

definition sightings_by_id :: "'f env_store \<Rightarrow> string \<Rightarrow> Sighting option" where
  "sightings_by_id s = map_of (rev (map (\<lambda>si. (si_fact_id si, si)) (row_values (es_sightings s))))"

definition list_env_facts :: "('f, 'd) float_ops \<Rightarrow> int option \<Rightarrow> int \<Rightarrow> 'f env_store \<Rightarrow> 'f EnvFact list" where
  "list_env_facts F ttl now s =
     (let fids = remdups_adj (sort (map ob_fact_id (list_env_observations s) @ map tr_fact_id (list_env_transitions s)))
      in List.map_filter
           (\<lambda>fid. materialize_fact F fid (observations_for fid s) (transitions_for fid s) (sightings_by_id s fid) ttl now)
           fids)"

definition get_env_fact ::
  "('f, 'd) float_ops \<Rightarrow> string \<Rightarrow> int option \<Rightarrow> int \<Rightarrow> 'f env_store \<Rightarrow> unit + 'f EnvFact option" where
  "get_env_fact F fid ttl now s =
     (case sighting_for fid s of
        Inl e \<Rightarrow> Err e
      | Inr si \<Rightarrow> Ok (materialize_fact F fid (observations_for fid s) (transitions_for fid s) si ttl now))"

definition env_fact_asof :: "('f, 'd) float_ops \<Rightarrow> string \<Rightarrow> int \<Rightarrow> 'f env_store \<Rightarrow> 'f EnvFact option" where
  "env_fact_asof F fid as_of s =
     materialize_fact_asof F fid as_of (observations_for fid s) (transitions_for fid s) None"

definition change_windows :: "('f, 'd) float_ops \<Rightarrow> int \<Rightarrow> 'f env_store \<Rightarrow> 'f EnvFact list" where
  "change_windows F now s =
     filter (\<lambda>f. er_kind (ef_entity f) = EK_ChangeRecord \<and> ef_valid_from f \<le> now \<and>
                 (case ef_valid_to f of Some e \<Rightarrow> now < e | None \<Rightarrow> True)) (list_env_facts F None now s)"

definition open_case_entity_set :: "'f env_store \<Rightarrow> EntityRef list" where
  "open_case_entity_set s = concat (map case_entities (filter (\<lambda>c. cv_state c \<noteq> CS_Closed) (es_cases s)))"

definition adverse :: "Disposition \<Rightarrow> bool" where
  "adverse d \<longleftrightarrow> d = DI_Malicious \<or> d = DI_Suspicious"

text \<open>The entity of the last observation of a fact, as collecting into a hash map leaves it.\<close>

definition entity_of :: "'f env_store \<Rightarrow> string \<Rightarrow> EntityRef option" where
  "entity_of s = map_of (rev (map (\<lambda>x. (ob_fact_id x, ob_entity x)) (list_env_observations s)))"

definition compromised_by_transition :: "'f env_store \<Rightarrow> EntityRef list" where
  "compromised_by_transition s =
     List.map_filter
       (\<lambda>fid. case current_transition (transitions_for fid s) of
                None \<Rightarrow> None
              | Some cur \<Rightarrow> if is_compromised (tr_to_state cur) then entity_of s fid else None)
       (remdups (map tr_fact_id (list_env_transitions s)))"

definition adverse_cases :: "'f env_store \<Rightarrow> string list" where
  "adverse_cases s =
     map fst (filter (\<lambda>(cid, d). adverse d) (es_decisions s)) @
     List.map_filter fst (filter (\<lambda>(cid, d). adverse d) (es_outcomes s))"

definition compromised_by_case :: "'f env_store \<Rightarrow> EntityRef list" where
  "compromised_by_case s =
     concat (map case_entities
       (filter (\<lambda>c. (case cv_verdict c of Some d \<Rightarrow> adverse d | None \<Rightarrow> False) \<or> cv_id c \<in> set (adverse_cases s))
         (es_cases s)))"

definition compromised_entity_set :: "'f env_store \<Rightarrow> EntityRef list" where
  "compromised_entity_set s = compromised_by_transition s @ compromised_by_case s"

definition poisoned_case_reasons :: "'f env_store \<Rightarrow> string \<Rightarrow> ExclusionReason option" where
  "poisoned_case_reasons s =
     foldl (\<lambda>m c.
        (let ents = case_entities c
         in if list_ex (\<lambda>e. e \<in> set (compromised_entity_set s)) ents then m(cv_id c \<mapsto> XR_Compromised)
            else if list_ex (\<lambda>e. e \<in> set (open_case_entity_set s)) ents then m(cv_id c \<mapsto> XR_OpenCase)
            else m)) Map.empty (es_cases s)"

section \<open>Views\<close>

definition env_facts_view ::
  "('f, 'd) float_ops \<Rightarrow> ('f, 'd) PromotionPolicy \<Rightarrow> string option \<Rightarrow> int \<Rightarrow> 'f env_store \<Rightarrow> 'f EnvFact list" where
  "env_facts_view F policy want now s =
     (let facts = list_env_facts F (Some (pp_fact_ttl policy)) now s
      in case want of
           None \<Rightarrow> facts
         | Some w \<Rightarrow> filter (\<lambda>f. to_ascii_lowercase (state_debug (ef_state f)) = to_ascii_lowercase w) facts)"

definition env_candidates ::
  "('f, 'd) float_ops \<Rightarrow> ('f, 'd) PromotionPolicy \<Rightarrow> int \<Rightarrow> 'f env_store \<Rightarrow> 'f EnvFact list" where
  "env_candidates F policy now s =
     filter (\<lambda>f. ef_state f = FS_Candidate) (list_env_facts F (Some (pp_fact_ttl policy)) now s)"

text \<open>The facts of one entity, now or as of a moment; \<open>None\<close> is an unknown kind.\<close>

definition env_entity ::
  "('f, 'd) float_ops \<Rightarrow> ('f, 'd) PromotionPolicy \<Rightarrow> string \<Rightarrow> string \<Rightarrow> int option \<Rightarrow> int \<Rightarrow> 'f env_store \<Rightarrow> 'f EnvFact list option" where
  "env_entity F policy kind i as_of now s =
     (case entity_from_tag kind of
        None \<Rightarrow> None
      | Some ekind \<Rightarrow>
          (let ours = filter (\<lambda>f. er_kind (ef_entity f) = ekind \<and> er_id (ef_entity f) = i)
                        (list_env_facts F (Some (pp_fact_ttl policy)) now s)
           in Some (case as_of of
                      Some t \<Rightarrow> List.map_filter (\<lambda>f. env_fact_asof F (ef_fact_id f) t s) ours
                    | None \<Rightarrow> ours)))"

definition env_verify :: "'f env_store \<Rightarrow> bool \<times> nat \<times> nat \<times> EnvFinding list" where
  "env_verify s =
     (let obs = list_env_observations s; ts = list_env_transitions s; findings = verify_environment obs ts
      in (findings = [], length obs, length ts, findings))"

section \<open>Governance\<close>

definition env_context ::
  "('f, 'd) float_ops \<Rightarrow> ('f, 'd) PromotionPolicy \<Rightarrow> 'f env_store \<Rightarrow> 'f EnvFact \<Rightarrow> (string \<times> u64) list \<Rightarrow> int \<Rightarrow>
   ('f, 'd) PromotionContext" where
  "env_context F policy s f per_source now =
     \<lparr>pc_fact = f, pc_now = now, pc_open_case_entities = open_case_entity_set s,
      pc_compromised_entities = compromised_entity_set s, pc_change_windows = change_windows F now s,
      pc_per_source_counts = per_source, pc_policy = policy\<rparr>"

text \<open>The observation a transition blesses: the newest that carries the fact's current value.\<close>

definition blessing :: "string \<Rightarrow> 'f FactObservation list \<Rightarrow> string" where
  "blessing v obs =
     (case max_by_key ob_recorded_at (filter (\<lambda>x. ob_value x = v) obs) of
        Some x \<Rightarrow> ob_observation_id x | None \<Rightarrow> [])"

definition transition_record ::
  "'f FactObservation list \<Rightarrow> FactTransition list \<Rightarrow> string \<Rightarrow> 'f EnvFact \<Rightarrow> FactState \<Rightarrow> string \<Rightarrow> string \<Rightarrow> string \<Rightarrow> string \<Rightarrow>
   int \<Rightarrow> FactTransition" where
  "transition_record obs prior fid f to_state reason actor audit_id transition_id now =
     \<lparr>tr_transition_id = transition_id, tr_fact_id = fid, tr_to_state = to_state, tr_from_state = ef_state f,
      tr_reason = reason, tr_actor = actor, tr_target_observation_id = blessing (ef_value f) obs,
      tr_quarantine_until = None, tr_supersedes = map_option tr_transition_id (current_transition prior),
      tr_audit_id = audit_id, tr_recorded_at = now\<rparr>"

datatype env_error =
    EE_Disabled | EE_Store | EE_NoFact | EE_Blocked "PromotionBlock list" | EE_Audit | EE_AuditDisabled
  | EE_State | EE_Format | EE_Inventory inventory_error

text \<open>\<open>audit\<close> is the ledger's answer: an error, nothing when auditing is off, or the id of the record.\<close>

definition do_env_transition ::
  "('f, 'd) float_ops \<Rightarrow> (int \<Rightarrow> string) \<Rightarrow> ('f, 'd) PromotionPolicy \<Rightarrow> bool \<Rightarrow> bool \<Rightarrow> bool \<Rightarrow> unit + string option \<Rightarrow> string \<Rightarrow>
   string \<Rightarrow> int \<Rightarrow> string \<Rightarrow> FactState \<Rightarrow> string \<Rightarrow> bool \<Rightarrow> 'f env_store \<Rightarrow> (env_error + FactTransition) \<times> 'f env_store" where
  "do_env_transition F show_nanos policy enabled reads_ok write_ok audit user transition_id now fid to_state reason
      enforce_hard_gate s =
     (if \<not> enabled then (Err EE_Disabled, s)
      else if \<not> reads_ok then (Err EE_Store, s)
      else
        (case get_env_fact F fid (Some (pp_fact_ttl policy)) now s of
           Inl _ \<Rightarrow> (Err EE_Store, s)
         | Inr None \<Rightarrow> (Err EE_NoFact, s)
         | Inr (Some f) \<Rightarrow>
             (let per_source = (case sighting_for fid s of Inr (Some si) \<Rightarrow> si_per_source_counts si | _ \<Rightarrow> []);
                  blocks = hard_blocks (env_context F policy s f per_source now)
              in if enforce_hard_gate \<and> blocks \<noteq> [] then (Err (EE_Blocked blocks), s)
                 else
                   (case audit of
                      Inl _ \<Rightarrow> (Err EE_Audit, s)
                    | Inr a \<Rightarrow>
                        (let audit_id = (case a of Some i \<Rightarrow> i | None \<Rightarrow> [])
                         in if is_protected to_state \<and> audit_id = [] then (Err EE_AuditDisabled, s)
                            else
                              (let t = transition_record (observations_for fid s) (transitions_for fid s) fid f to_state reason user
                                         audit_id transition_id now
                               in if write_ok then (Ok t, append_transition show_nanos t s) else (Err EE_Store, s)))))))"

definition env_promote where
  "env_promote F show_nanos policy enabled reads_ok write_ok audit user transition_id now fid reason s =
     do_env_transition F show_nanos policy enabled reads_ok write_ok audit user transition_id now fid FS_Trusted reason True s"

definition env_demote ::
  "('f, 'd) float_ops \<Rightarrow> (int \<Rightarrow> string) \<Rightarrow> ('f, 'd) PromotionPolicy \<Rightarrow> bool \<Rightarrow> bool \<Rightarrow> bool \<Rightarrow> unit + string option \<Rightarrow> string \<Rightarrow>
   string \<Rightarrow> int \<Rightarrow> string \<Rightarrow> string \<Rightarrow> string \<Rightarrow> 'f env_store \<Rightarrow> (env_error + FactTransition) \<times> 'f env_store" where
  "env_demote F show_nanos policy enabled reads_ok write_ok audit user transition_id now fid state reason s =
     (let st = to_ascii_lowercase (trim state)
      in if st = ''suspicious'' then
           do_env_transition F show_nanos policy enabled reads_ok write_ok audit user transition_id now fid
             FS_Suspicious reason False s
         else if st = ''known_malicious'' then
           do_env_transition F show_nanos policy enabled reads_ok write_ok audit user transition_id now fid
             FS_KnownMalicious reason False s
         else (Err EE_State, s))"

definition env_retire where
  "env_retire F show_nanos policy enabled reads_ok write_ok audit user transition_id now fid reason s =
     do_env_transition F show_nanos policy enabled reads_ok write_ok audit user transition_id now fid FS_Retired reason False s"

text \<open>
  Storing observations one by one, stopping at the first failure. \<open>oks\<close> answers, per observation, whether the append and
  whether the bump reached the database; the count is that of the rows that were new.
\<close>

fun store_observations ::
  "int \<Rightarrow> (bool \<times> bool) list \<Rightarrow> 'f FactObservation list \<Rightarrow> nat \<Rightarrow> 'f env_store \<Rightarrow> (env_error + nat) \<times> 'f env_store" where
  "store_observations now oks [] written s = (Ok written, s)"
| "store_observations now [] (ob # obs) written s = (Err EE_Store, s)"
| "store_observations now ((a, b) # oks) (ob # obs) written s =
     (if \<not> a then (Err EE_Store, s)
      else
        (let (new, s1) = append_observation ob s
         in if \<not> b then (Err EE_Store, s1)
            else
              (let (ok, s2) = bump_sighting (ob_fact_id ob) (sr_source_id (ob_source ob)) now s1
               in if \<not> ok then (Err EE_Store, s2)
                  else store_observations now oks obs (if new then Suc written else written) s2)))"

definition env_import ::
  "(bytes \<Rightarrow> string option) \<Rightarrow> (string \<Rightarrow> 'f InventoryFact list option) \<Rightarrow> (string \<Rightarrow> 'f InventoryFact list option) \<Rightarrow>
   (bytes \<Rightarrow> string) \<Rightarrow> ('f, 'd) float_ops \<Rightarrow> ('f, 'd) PromotionPolicy \<Rightarrow> bool \<Rightarrow> unit + string option \<Rightarrow> (bool \<times> bool) list \<Rightarrow>
   string \<Rightarrow> string \<Rightarrow> bytes \<Rightarrow> 'f option \<Rightarrow> int \<Rightarrow> 'f env_store \<Rightarrow> (env_error + nat) \<times> 'f env_store" where
  "env_import from_utf8 from_toml from_json b3 F policy enabled audit oks source_id format content trust now s =
     (if \<not> enabled then (Err EE_Disabled, s)
      else
        (let fm = to_ascii_lowercase (trim format);
             tr = (case trust of Some t \<Rightarrow> t | None \<Rightarrow> policy_trust policy source_id)
         in if fm \<noteq> ''toml'' \<and> fm \<noteq> ''json'' then (Err EE_Format, s)
            else
              (case parse_inventory from_utf8 from_toml from_json b3 F content (if fm = ''toml'' then IF_Toml else IF_Json)
                      source_id tr now of
                 Inl e \<Rightarrow> (Err (EE_Inventory e), s)
               | Inr obs \<Rightarrow>
                   (case audit of
                      Inl _ \<Rightarrow> (Err EE_Audit, s)
                    | Inr _ \<Rightarrow> store_observations now oks obs 0 s))))"

definition change_window_observation ::
  "(bytes \<Rightarrow> string) \<Rightarrow> ('f, 'd) float_ops \<Rightarrow> string \<Rightarrow> string \<Rightarrow> string \<Rightarrow> int \<Rightarrow> int \<Rightarrow> string option \<Rightarrow> int \<Rightarrow> 'f FactObservation" where
  "change_window_observation b3 F uuid user entity_id from until audit_id now =
     (let entity = \<lparr>er_kind = EK_ChangeRecord, er_id = ''cw-'' @ uuid\<rparr>;
          fid = fact_id b3 entity ''window'' None None
      in \<lparr>ob_observation_id = observation_id b3 fid ''change-window'' entity_id, ob_fact_id = fid, ob_entity = entity,
          ob_attribute = ''window'', ob_relation = None, ob_target_id = Some entity_id, ob_value = entity_id,
          ob_source = \<lparr>sr_kind = SK_Analyst, sr_source_id = ''change-window'', sr_trust = fl_lit32 F 100\<rparr>,
          ob_confidence = fl_lit32 F 100, ob_mode = OM_Asserted, ob_learned_from = ''change-window:'' @ user,
          ob_valid_from = from, ob_valid_to = Some until, ob_recorded_at = now, ob_audit_id = audit_id\<rparr>)"

definition env_change_window ::
  "(bytes \<Rightarrow> string) \<Rightarrow> ('f, 'd) float_ops \<Rightarrow> bool \<Rightarrow> unit + string option \<Rightarrow> bool \<times> bool \<Rightarrow> string \<Rightarrow> string \<Rightarrow> string \<Rightarrow> int \<Rightarrow> int \<Rightarrow>
   int \<Rightarrow> 'f env_store \<Rightarrow> (env_error + nat) \<times> 'f env_store" where
  "env_change_window b3 F enabled audit oks uuid user entity_id from until now s =
     (if \<not> enabled then (Err EE_Disabled, s)
      else
        (case audit of
           Inl _ \<Rightarrow> (Err EE_Audit, s)
         | Inr a \<Rightarrow>
             store_observations now [oks] [change_window_observation b3 F uuid user entity_id from until a now] 0 s))"

section \<open>The loops\<close>

text \<open>Storing what the learner derived: a failed append skips the bump, a failure stops nothing.\<close>

definition learn_observation :: "int \<Rightarrow> 'f env_store \<Rightarrow> (bool \<times> bool) \<times> 'f FactObservation \<Rightarrow> 'f env_store" where
  "learn_observation now s r =
     (case r of ((a, b), ob) \<Rightarrow>
        if \<not> a then s
        else
          (let s' = snd (append_observation ob s)
           in if \<not> b then s' else snd (bump_sighting (ob_fact_id ob) (sr_source_id (ob_source ob)) now s')))"

definition SCAN :: nat where
  "SCAN = 5000"

text \<open>
  The watermark a scan leaves: \<open>stamps\<close> are the event times of the rows read, one per row, missing when null. The
  subtraction saturates at the smallest \<open>i64\<close>.
\<close>

definition scan_watermark :: "int \<Rightarrow> int option list \<Rightarrow> int option" where
  "scan_watermark wm stamps =
     (let max_ts = foldl (\<lambda>m t. case t of Some us \<Rightarrow> max m us | None \<Rightarrow> m) wm stamps
      in if stamps = [] then None
         else Some (if SCAN \<le> length stamps then max (max_ts - 1) (- (2 ^ 63)) else max_ts))"

text \<open>
  One tick of the learner with the rows the query returned. \<open>query\<close> answers the query for events after a watermark:
  nothing when it fails, else the rows with their event times; \<open>newest\<close> is the newest event time there is.
\<close>

definition learn_tick ::
  "(bytes \<Rightarrow> string) \<Rightarrow> ('f, 'd) float_ops \<Rightarrow> ('f, 'd) PromotionPolicy \<Rightarrow> bool \<Rightarrow> int option \<Rightarrow>
   (int \<Rightarrow> (int option \<times> int Event \<times> string option) list option) \<Rightarrow> bool \<Rightarrow> (bool \<times> bool) list \<Rightarrow> int \<Rightarrow> 'f env_store \<Rightarrow>
   'f env_store" where
  "learn_tick b3 F policy binding newest query mark_ok oks now s =
     (case es_learn_watermark s of
        None \<Rightarrow> (case newest of Some m \<Rightarrow> if mark_ok then set_env_learn_watermark_us m s else s | None \<Rightarrow> s)
      | Some wm \<Rightarrow>
          (case query wm of
             None \<Rightarrow> s
           | Some rows \<Rightarrow>
               (let s1 = (case scan_watermark wm (map fst rows) of
                            Some next \<Rightarrow> if mark_ok then set_env_learn_watermark_us next s else s
                          | None \<Rightarrow> s);
                    obs = derive_candidates_bound b3 F (map snd rows) policy now binding
                in foldl (learn_observation now) s1 (zip oks obs))))"

text \<open>
  The answers during the auto-promotion of one fact: whether the sighting, the observations and the transitions could be
  read and the transition written, what the ledger said, and the fresh identifier.
\<close>

record promo_answers =
  pa_sighting_ok :: bool
  pa_observations_ok :: bool
  pa_prior_ok :: bool
  pa_write_ok :: bool
  pa_audit :: "unit + string option"
  pa_id :: string

text \<open>
  The sets of entities, the windows and the facts are those read when the round began, from \<open>s0\<close>; the streams are read
  again. A failed read counts as empty.
\<close>

definition auto_promote ::
  "('f, 'd) float_ops \<Rightarrow> (int \<Rightarrow> string) \<Rightarrow> ('f, 'd) PromotionPolicy \<Rightarrow> 'f env_store \<Rightarrow> 'f EnvFact list \<Rightarrow> int \<Rightarrow> 'f env_store \<Rightarrow>
   promo_answers \<times> 'f EnvFact \<Rightarrow>
   'f env_store" where
  "auto_promote F show_nanos policy s0 windows now s r =
     (case r of (a, f) \<Rightarrow>
        if ef_state f \<noteq> FS_Candidate then s
        else
          (let fid = ef_fact_id f;
               per_source = (case sighting_for fid s of
                               Inr (Some si) \<Rightarrow> if pa_sighting_ok a then si_per_source_counts si else [] | _ \<Rightarrow> [])
           in if \<not> may_auto_promote F ((env_context F policy s0 f per_source now)\<lparr>pc_change_windows := windows\<rparr>) then s
              else
                (case pa_audit a of
                   Inr (Some i) \<Rightarrow>
                     (let obs = (if pa_observations_ok a then observations_for fid s else []);
                          prior = (if pa_prior_ok a then transitions_for fid s else []);
                          t = transition_record obs prior fid f FS_Trusted ''auto-promote'' ''serve'' i (pa_id a) now
                      in if pa_write_ok a then append_transition show_nanos t s else s)
                 | _ \<Rightarrow> s)))"

definition promote_round ::
  "('f, 'd) float_ops \<Rightarrow> (int \<Rightarrow> string) \<Rightarrow> ('f, 'd) PromotionPolicy \<Rightarrow> bool \<Rightarrow> bool \<Rightarrow> promo_answers list \<Rightarrow> int \<Rightarrow> 'f env_store \<Rightarrow>
   'f env_store" where
  "promote_round F show_nanos policy reads_ok windows_ok answers now s =
     (if \<not> reads_ok then s
      else foldl (auto_promote F show_nanos policy s (if windows_ok then change_windows F now s else []) now) s
             (zip answers (list_env_facts F (Some (pp_fact_ttl policy)) now s)))"

end
