(* ===== verification/Env_Laws.thy ===== *)
theory Env_Laws
  imports Env_Store "HOL-Library.Sublist"
begin

text \<open>
  Laws of the environment model: what the folds read, what each operation appends, and the run of a deployment as a step
  relation over the learner, the import, the change windows, the promotion rounds, the analyst's decisions and the changes
  other components make to the cases.
\<close>

section \<open>The folds\<close>

lemma materialize_effective:
  "obs \<noteq> [] \<Longrightarrow>
   materialize_fact F fid obs (filter effective_transition ts) si ttl now = materialize_fact F fid obs ts si ttl now"
  by (simp add: materialize_fact_def governing.winner_inert)

lemma materialize_Some:
  assumes "materialize_fact F fid obs ts si ttl now = Some f"
  defines "t \<equiv> current_transition ts"
  defines "st \<equiv> birth_state t obs"
  shows "ef_fact_id f = fid"
    and "ef_state f = (if expired ttl st now (fst (snd (seen_counters si now obs))) then FS_Retired else st)"
    and "ef_value f = (case fst (carried_value F st t obs) of Some x \<Rightarrow> ob_value x | None \<Rightarrow> [])"
    and "ef_current_audit_id f = (case t of Some t \<Rightarrow> tr_audit_id t | None \<Rightarrow> [])"
    and "ef_conflict_needs_human f =
           (\<not> expired ttl st now (fst (snd (seen_counters si now obs))) \<and> snd (carried_value F st t obs))"
    and "ef_distinct_sources f = remdups_adj (sort (map (\<lambda>x. sr_source_id (ob_source x)) obs))"
  using assms by (auto simp: materialize_fact_def Let_def split: if_splits prod.splits)

lemma materialize_exists: "obs \<noteq> [] \<Longrightarrow> \<exists>f. materialize_fact F fid obs ts si ttl now = Some f"
  by (cases "carried_value F (birth_state (current_transition ts) obs) (current_transition ts) obs";
      cases "seen_counters si now obs") (simp add: materialize_fact_def Let_def)

lemma newest_observation_in: "newest_observation obs = Some x \<Longrightarrow> x \<in> set obs"
  unfolding newest_observation_def by (rule max_by_key_Some(1))

lemma newest_observation_None [simp]: "newest_observation obs = None \<longleftrightarrow> obs = []"
  by (simp add: newest_observation_def)

lemma birth_unprotected [simp]: "birth_state None obs = st \<Longrightarrow> \<not> is_protected st"
  by (auto simp: birth_state_def is_protected_def split: if_splits)

lemma not_expired: "is_protected st \<Longrightarrow> \<not> expired ttl st now last_seen"
  by (simp add: expired_def split: option.splits)

lemma contender_not_superseded:
  "current_transition ts = Some t \<Longrightarrow> t \<in> set ts \<and> \<not> inert t \<and> tr_transition_id t \<notin> set (tr_superseded ts)"
  unfolding current_transition_max using max_by_key_Some(1) [of tr_key "tr_contenders ts" t]
  by (auto simp: tr_contenders_def effective_transition_def)

text \<open>A protected state has an audited transition behind it, or is the retirement of an old fact.\<close>

lemma protected_has_transition:
  assumes m: "materialize_fact F fid obs ts si ttl now = Some f" and p: "is_protected (ef_state f)"
  shows "(ef_state f = FS_Retired \<and> ttl \<noteq> None) \<or>
         (\<exists>t. current_transition ts = Some t \<and> tr_to_state t = ef_state f \<and> ef_current_audit_id f = tr_audit_id t)"
proof (cases "current_transition ts")
  case None
  with materialize_Some [OF m] p show ?thesis
    by (auto simp: expired_def split: if_splits option.splits)
next
  case (Some t)
  with materialize_Some [OF m] show ?thesis
    by (auto simp: birth_state_def expired_def split: if_splits option.splits)
qed

lemma carried_protected:
  "is_protected st \<Longrightarrow> find (\<lambda>x. ob_observation_id x = tr_target_observation_id t) obs = Some b \<Longrightarrow>
   fst (carried_value F st (Some t) obs) = Some b"
  by (simp add: carried_value_def blessed_value_def Let_def)

text \<open>The fact a newest transition to a protected state governs.\<close>

lemma materialize_governed:
  assumes "current_transition ts = Some t" "is_protected (tr_to_state t)"
    and "find (\<lambda>x. ob_observation_id x = tr_target_observation_id t) obs = Some b"
  shows "\<exists>f. materialize_fact F fid obs ts si ttl now = Some f \<and> ef_state f = tr_to_state t \<and> ef_value f = ob_value b \<and>
             ef_current_audit_id f = tr_audit_id t"
proof -
  have "obs \<noteq> []" using assms(3) by auto
  then obtain f where f: "materialize_fact F fid obs ts si ttl now = Some f"
    using materialize_exists by blast
  show ?thesis
    using materialize_Some [OF f] assms carried_protected [OF assms(2,3), of F]
    by (intro exI [of _ f] conjI f) (simp_all add: birth_state_def not_expired)
qed

lemma resolve_in: "obs \<noteq> [] \<Longrightarrow> \<exists>x \<in> set obs. \<exists>tie. resolve_value F obs = Some (x, tie)"
proof -
  have "foldl (\<lambda>b y. if obs_greater F b y then b else y) x xs \<in> set (x # xs)" for x xs
  proof (induction xs arbitrary: x)
    case (Cons y ys)
    show ?case using Cons.IH [of x] Cons.IH [of y] by auto
  qed simp
  then show "obs \<noteq> [] \<Longrightarrow> ?thesis"
    by (cases obs) (simp_all add: resolve_value_def Let_def)
qed

lemma find_in: "find P xs = Some x \<Longrightarrow> x \<in> set xs \<and> P x"
  by (metis find_Some_iff nth_mem)

lemma blessed_in: "obs \<noteq> [] \<Longrightarrow> \<exists>x \<in> set obs. fst (blessed_value t obs) = Some x"
proof -
  assume "obs \<noteq> []"
  then obtain n where n: "newest_observation obs = Some n" "n \<in> set obs"
    using newest_observation_in by (cases "newest_observation obs") auto
  let ?b = "find (\<lambda>x. ob_observation_id x = (case t of Some t \<Rightarrow> tr_target_observation_id t | None \<Rightarrow> [])) obs"
  show ?thesis
    using n by (cases ?b) (auto simp: blessed_value_def Let_def dest: find_in)
qed

lemma carried_in: "obs \<noteq> [] \<Longrightarrow> \<exists>x \<in> set obs. fst (carried_value F st t obs) = Some x"
  using resolve_in [of obs F] blessed_in [of obs t] by (cases "is_protected st") (auto simp: carried_value_def)

section \<open>Tables\<close>

definition tr_row_key :: "(int \<Rightarrow> string) \<Rightarrow> FactTransition \<Rightarrow> string" where
  "tr_row_key show_nanos t = tr_fact_id t @ ''|'' @ show_nanos (tr_recorded_at t) @ ''|'' @ tr_transition_id t"

definition ob_row_key :: "'f FactObservation \<Rightarrow> string" where
  "ob_row_key ob = ob_fact_id ob @ ''|'' @ ob_observation_id ob"

lemma append_transition_row:
  "append_transition show_nanos t s = s\<lparr>es_transitions := tab_put (tr_row_key show_nanos t) (Some t) (es_transitions s)\<rparr>"
  by (simp add: append_transition_def tr_row_key_def)

lemma append_observation_row:
  "append_observation ob s =
     (if ob_row_key ob \<in> fst ` set (es_observations s) then (False, s)
      else (True, s\<lparr>es_observations := tab_put (ob_row_key ob) (Some ob) (es_observations s)\<rparr>))"
  by (simp add: append_observation_def ob_row_key_def map_of_eq_None_iff)

text \<open>A row that a filter drops leaves no trace in what the filter returns.\<close>

lemma filter_put_fresh:
  assumes "k \<notin> fst ` set rows"
  shows "\<not> P v \<Longrightarrow> filter P (row_values (tab_put k (Some v) rows)) = filter P (row_values rows)"
  using assms by (induction k "Some v" rows rule: tab_put.induct) (auto simp: row_values_def map_filter_simps split: option.splits)


section \<open>Primitive changes\<close>

text \<open>Every operation is a sequence of these: one new observation, one new transition, or neither stream touched.\<close>

inductive prim :: "(int \<Rightarrow> string) \<Rightarrow> int \<Rightarrow> 'f env_store \<Rightarrow> 'f env_store \<Rightarrow> bool" for show_nanos now where
  prim_ob: "ob_recorded_at ob = now \<Longrightarrow> prim show_nanos now s (snd (append_observation ob s))"
| prim_tr: "tr_recorded_at t = now \<Longrightarrow> tr_row_key show_nanos t \<notin> fst ` set (es_transitions s) \<Longrightarrow>
    set_option (tr_supersedes t) \<subseteq> tr_transition_id ` set (list_env_transitions s) \<Longrightarrow>
    prim show_nanos now s (append_transition show_nanos t s)"
| prim_frame: "es_observations s' = es_observations s \<Longrightarrow> es_transitions s' = es_transitions s \<Longrightarrow> prim show_nanos now s s'"

lemma bump_frame:
  "es_observations (snd (bump_sighting fid src at s)) = es_observations s"
  "es_transitions (snd (bump_sighting fid src at s)) = es_transitions s"
  by (simp_all add: bump_sighting_def split: option.splits)

lemma watermark_frame:
  "es_observations (set_env_learn_watermark_us us s) = es_observations s"
  "es_transitions (set_env_learn_watermark_us us s) = es_transitions s"
  by (simp_all add: set_env_learn_watermark_us_def)

lemma learn_prim:
  assumes "ob_recorded_at (snd r) = now"
  shows "(prim show_nanos now)\<^sup>*\<^sup>* s (learn_observation now s r)"
proof -
  obtain a b ob where r: "r = ((a, b), ob)" by (cases r) auto
  let ?s = "snd (append_observation ob s)"
  have 1: "prim show_nanos now s ?s" using assms by (intro prim_ob) (simp add: r)
  have 2: "prim show_nanos now ?s (snd (bump_sighting (ob_fact_id ob) (sr_source_id (ob_source ob)) now ?s))"
    by (rule prim_frame) (simp_all add: bump_frame)
  show ?thesis
    using 1 2 by (auto simp: r learn_observation_def Let_def intro: rtranclp.intros)
qed

lemma foldl_prim:
  assumes "\<And>s x. x \<in> set xs \<Longrightarrow> R\<^sup>*\<^sup>* s (f s x)"
  shows "R\<^sup>*\<^sup>* s (foldl f s xs)"
  using assms
proof (induction xs arbitrary: s)
  case (Cons x xs)
  have "R\<^sup>*\<^sup>* s (f s x)" "R\<^sup>*\<^sup>* (f s x) (foldl f (f s x) xs)"
    by (rule Cons.prems Cons.IH; simp add: Cons.prems)+
  then show ?case by simp
qed simp

lemma candidate_recorded [simp]: "ob_recorded_at (candidate b3 e a r t v src c vf now) = now"
  by (simp add: candidate_def Let_def)

lemma candidate_source [simp]: "ob_source (candidate b3 e a r t v src c vf now) = src"
  by (simp add: candidate_def Let_def)

lemma push_event_candidates_ob:
  "ob \<in> set (push_event_candidates b3 F ev src now) \<Longrightarrow> ob_recorded_at ob = now \<and> ob_source ob = src"
  by (auto simp: push_event_candidates_def Let_def split: option.splits if_splits)

lemma derived_bound_ob:
  assumes "ob \<in> set (derive_candidates_bound b3 F rows policy now binding)"
  obtains ev cid where "(ev, cid) \<in> set rows" "bound_source policy binding ev cid = Some (ob_source ob)"
    "ob_recorded_at ob = now"
proof -
  from assms obtain ev cid src where
    "(ev, cid) \<in> set rows" "bound_source policy binding ev cid = Some src" "ob \<in> set (push_event_candidates b3 F ev src now)"
    by (fastforce simp: derive_candidates_bound_def split: if_splits option.splits dest: sym)
  with that show thesis using push_event_candidates_ob by metis
qed

lemma learn_tick_prim: "(prim show_nanos now)\<^sup>*\<^sup>* s (learn_tick b3 F policy binding newest query mark_ok oks now s)"
proof (cases "es_learn_watermark s")
  case None
  have "prim show_nanos now s (set_env_learn_watermark_us m s)" for m
    by (rule prim_frame) (simp_all add: watermark_frame)
  with None show ?thesis by (auto simp: learn_tick_def split: option.splits)
next
  case (Some wm)
  show ?thesis
  proof (cases "query wm")
    case None
    with Some show ?thesis by (simp add: learn_tick_def)
  next
    case rows: (Some rows)
    define s1 where "s1 = (case scan_watermark wm (map fst rows) of
        Some next \<Rightarrow> if mark_ok then set_env_learn_watermark_us next s else s | None \<Rightarrow> s)"
    let ?obs = "derive_candidates_bound b3 F (map snd rows) policy now binding"
    have 1: "prim show_nanos now s s1"
      by (rule prim_frame) (simp_all add: s1_def watermark_frame split: option.splits)
    have 2: "(prim show_nanos now)\<^sup>*\<^sup>* s1 (foldl (learn_observation now) s1 (zip oks ?obs))"
      by (rule foldl_prim, rule learn_prim) (auto elim!: derived_bound_ob dest!: set_zip_rightD)
    have eq: "learn_tick b3 F policy binding newest query mark_ok oks now s = foldl (learn_observation now) s1 (zip oks ?obs)"
      by (simp add: learn_tick_def Some rows s1_def Let_def)
    show ?thesis unfolding eq using 1 2 by (rule converse_rtranclp_into_rtranclp)
  qed
qed


lemma store_observations_prim:
  "\<forall>ob \<in> set obs. ob_recorded_at ob = now \<Longrightarrow>
   (prim show_nanos now)\<^sup>*\<^sup>* s (snd (store_observations now oks obs written s))"
proof (induction now oks obs written s rule: store_observations.induct)
  case (3 now a b oks ob obs written s)
  let ?s1 = "snd (append_observation ob s)"
  let ?s2 = "snd (bump_sighting (ob_fact_id ob) (sr_source_id (ob_source ob)) now ?s1)"
  have 1: "prim show_nanos now s ?s1" using 3(2) by (intro prim_ob) simp
  have 2: "prim show_nanos now ?s1 ?s2" by (rule prim_frame) (simp_all add: bump_frame)
  note 12 = converse_rtranclp_into_rtranclp [OF 1 r_into_rtranclp [of "prim show_nanos now", OF 2]]
  show ?case
    using 1 12 rtranclp_trans [OF 12] 3
    by (auto simp: Let_def split: prod.splits)
qed simp_all

lemma inventory_recorded:
  "ob \<in> set (inventory_observation b3 F src trust now f) \<Longrightarrow> ob_recorded_at ob = now"
  by (auto simp: inventory_observation_def Let_def split: option.splits)

lemma parse_inventory_recorded:
  "parse_inventory u tm js b3 F content format src trust now = Inr obs \<Longrightarrow> \<forall>ob \<in> set obs. ob_recorded_at ob = now"
  by (auto simp: parse_inventory_def split: option.splits InventoryFormat.splits dest!: inventory_recorded)

lemma env_import_prim:
  "env_import u tm js b3 F policy enabled audit oks src format content trust now s = (res, s') \<Longrightarrow> (prim show_nanos now)\<^sup>*\<^sup>* s s'"
  using store_observations_prim [of _ now show_nanos s oks 0]
  by (auto simp: env_import_def Let_def split: if_splits sum.splits dest!: parse_inventory_recorded; (metis snd_conv)?)

lemma env_change_window_prim:
  "env_change_window b3 F enabled audit oks uuid user eid from until now s = (res, s') \<Longrightarrow> (prim show_nanos now)\<^sup>*\<^sup>* s s'"
  using store_observations_prim [of "[change_window_observation b3 F uuid user eid from until a now]" now show_nanos s "[oks]" 0 for a]
  by (auto simp: env_change_window_def change_window_observation_def Let_def split: if_splits sum.splits; (metis snd_conv)?)

section \<open>Fresh identifiers\<close>

definition bar_free :: "string \<Rightarrow> bool" where
  "bar_free i \<longleftrightarrow> CHR ''|'' \<notin> set i"

definition fresh_id :: "string \<Rightarrow> 'f env_store \<Rightarrow> bool" where
  "fresh_id i s \<longleftrightarrow> bar_free i \<and> (\<forall>k \<in> fst ` set (es_transitions s). \<not> suffix (''|'' @ i) k)"

lemma bar_suffix_unique:
  assumes "suffix (''|'' @ i) k" "suffix (''|'' @ j) k" "bar_free i" "bar_free j"
  shows "i = j"
proof -
  have *: "suffix (''|'' @ a) (''|'' @ b) \<Longrightarrow> bar_free b \<Longrightarrow> a = b" for a b
    by (auto simp: suffix_def bar_free_def Cons_eq_append_conv)
  show ?thesis using suffix_same_cases [OF assms(1,2)] * assms by metis
qed

lemma row_key_suffix: "suffix (''|'' @ tr_transition_id t) (tr_row_key show_nanos t)"
  unfolding tr_row_key_def by (metis append.assoc suffixI)

lemma fresh_key: "fresh_id (tr_transition_id t) s \<Longrightarrow> tr_row_key show_nanos t \<notin> fst ` set (es_transitions s)"
  using row_key_suffix [of t show_nanos] by (fastforce simp: fresh_id_def)

lemma tab_put_dom: "fst ` set (tab_put k v rows) = insert k (fst ` set rows)"
  by (induction k v rows rule: tab_put.induct) auto

lemma fresh_append:
  assumes "fresh_id j s" "j \<noteq> tr_transition_id t" "bar_free (tr_transition_id t)"
  shows "fresh_id j (append_transition show_nanos t s)"
  using assms bar_suffix_unique [OF row_key_suffix [of t show_nanos], of j]
  by (auto simp: fresh_id_def append_transition_row tab_put_dom)


section \<open>Promotions\<close>

lemma superseded_present:
  "set prior \<subseteq> set ts \<Longrightarrow> set_option (map_option tr_transition_id (current_transition prior)) \<subseteq> tr_transition_id ` set ts"
  using contender_not_superseded [of prior] by (cases "current_transition prior") auto

text \<open>What a promotion of the loop appends, when it appends anything.\<close>

lemma auto_promote_appends:
  assumes ne: "auto_promote F show_nanos policy s0 windows now s (a, f) \<noteq> s"
  obtains per obs prior i where "ef_state f = FS_Candidate" "pa_audit a = Inr (Some i)"
    "set prior \<subseteq> set (list_env_transitions s)"
    "may_auto_promote F ((env_context F policy s0 f per now)\<lparr>pc_change_windows := windows\<rparr>)"
    "auto_promote F show_nanos policy s0 windows now s (a, f) =
       append_transition show_nanos
         (transition_record obs prior (ef_fact_id f) f FS_Trusted ''auto-promote'' ''serve'' i (pa_id a) now) s"
proof -
  define per where "per = (case sighting_for (ef_fact_id f) s of
      Inr (Some si) \<Rightarrow> if pa_sighting_ok a then si_per_source_counts si else [] | _ \<Rightarrow> [])"
  let ?ctx = "(env_context F policy s0 f per now)\<lparr>pc_change_windows := windows\<rparr>"
  have c: "ef_state f = FS_Candidate"
  proof (rule ccontr)
    assume "ef_state f \<noteq> FS_Candidate"
    with ne show False by (simp add: auto_promote_def)
  qed
  have m: "may_auto_promote F ?ctx"
  proof (rule ccontr)
    assume "\<not> may_auto_promote F ?ctx"
    with ne c show False by (simp add: auto_promote_def Let_def per_def)
  qed
  note eq = auto_promote_def Let_def c m [unfolded per_def]
  obtain i where i: "pa_audit a = Inr (Some i)"
    using ne by (cases "pa_audit a"; cases "projr (pa_audit a)") (simp_all add: eq)
  have "pa_write_ok a"
  proof (rule ccontr)
    assume "\<not> pa_write_ok a"
    with ne show False by (simp add: eq i)
  qed
  then have "auto_promote F show_nanos policy s0 windows now s (a, f) =
      append_transition show_nanos
        (transition_record (if pa_observations_ok a then observations_for (ef_fact_id f) s else [])
          (if pa_prior_ok a then transitions_for (ef_fact_id f) s else []) (ef_fact_id f) f FS_Trusted ''auto-promote''
          ''serve'' i (pa_id a) now) s"
    by (simp add: eq i)
  then show thesis
    by (rule that [OF c i _ m, rotated]) (auto simp: transitions_for_def)
qed

lemma may_auto_promote_clear:
  assumes "may_auto_promote F ((env_context F policy s0 f per now)\<lparr>pc_change_windows := windows\<rparr>)"
  shows "\<not> touches f (open_case_entity_set s0)" "\<not> touches f (compromised_entity_set s0)"
    "\<not> is_high_impact f (pp_extra_high_impact policy)" "\<not> ef_conflict_needs_human f"
    "\<not> ef_observation_count f < pp_min_observations policy"
    "\<not> length (ef_distinct_sources f) < pp_min_distinct_sources policy"
    "\<not> influence_cap_exceeded F per policy"
  using assms by (auto simp: may_auto_promote_def hard_blocks_def auto_blocks_def env_context_def Let_def split: if_splits)

definition ids_ok :: "string list \<Rightarrow> 'f env_store \<Rightarrow> bool" where
  "ids_ok is s \<longleftrightarrow> distinct is \<and> list_all (\<lambda>i. fresh_id i s) is"

lemma round_prim:
  "ids_ok (map (pa_id \<circ> fst) rs) s \<Longrightarrow>
   (prim show_nanos now)\<^sup>*\<^sup>* s (foldl (auto_promote F show_nanos policy s0 windows now) s rs)"
proof (induction rs arbitrary: s)
  case (Cons r rs)
  obtain a f where r: "r = (a, f)" by (cases r)
  let ?s = "auto_promote F show_nanos policy s0 windows now s r"
  have "(prim show_nanos now)\<^sup>*\<^sup>* s ?s \<and> ids_ok (map (pa_id \<circ> fst) rs) ?s"
  proof (cases "?s = s")
    case False
    then obtain t where t: "?s = append_transition show_nanos t s" "tr_transition_id t = pa_id a" "tr_recorded_at t = now"
      "set_option (tr_supersedes t) \<subseteq> tr_transition_id ` set (list_env_transitions s)"
      unfolding r by (rule auto_promote_appends) (simp add: transition_record_def superseded_present)
    have fr: "fresh_id (tr_transition_id t) s" using Cons.prems by (simp add: ids_ok_def r t)
    have "prim show_nanos now s ?s"
      unfolding t(1) using t(3) fresh_key [OF fr] t(4) by (rule prim_tr)
    moreover have "fresh_id j ?s" if "j \<in> set (map (pa_id \<circ> fst) rs)" for j
    proof -
      have "pa_id a \<notin> set (map (pa_id \<circ> fst) rs)" "fresh_id j s"
        using that Cons.prems by (auto simp: ids_ok_def r list_all_iff comp_def)
      then have "j \<noteq> tr_transition_id t" "fresh_id j s" using that t(2) by metis+
      with fr show ?thesis unfolding t(1) by (intro fresh_append) (simp_all add: fresh_id_def)
    qed
    ultimately show ?thesis using Cons.prems by (auto simp: ids_ok_def list_all_iff comp_def)
  qed (use Cons.prems in \<open>simp add: ids_ok_def comp_def\<close>)
  then show ?case using Cons.IH [of ?s] by (auto simp: comp_def intro: rtranclp_trans)
qed simp

lemma promote_round_prim:
  assumes "ids_ok (map pa_id answers) s"
  shows "(prim show_nanos now)\<^sup>*\<^sup>* s (promote_round F show_nanos policy reads_ok windows_ok answers now s)"
proof -
  let ?fs = "list_env_facts F (Some (pp_fact_ttl policy)) now s"
  have "map (pa_id \<circ> fst) (zip answers ?fs) = take (length ?fs) (map pa_id answers)"
    by (simp add: map_fst_zip_take take_map min_def flip: map_map)
  then have "ids_ok (map (pa_id \<circ> fst) (zip answers ?fs)) s"
    using assms set_take_subset [of "length ?fs" "map pa_id answers"] by (fastforce simp: ids_ok_def list_all_iff)
  then show ?thesis by (simp add: promote_round_def round_prim)
qed

text \<open>What a decision of an analyst appends, when it succeeds; otherwise nothing changes.\<close>

lemma do_env_transition_cases:
  assumes d: "do_env_transition F show_nanos policy enabled reads_ok write_ok audit user tid now fid to_state reason gate s = (res, s')"
  obtains (unchanged) e where "res = Inl e" "s' = s"
  | (appended) f t i where "res = Inr t" "s' = append_transition show_nanos t s"
      "get_env_fact F fid (Some (pp_fact_ttl policy)) now s = Inr (Some f)"
      "t = transition_record (observations_for fid s) (transitions_for fid s) fid f to_state reason user i tid now"
      "is_protected to_state \<longrightarrow> i \<noteq> []"
      "gate \<longrightarrow> \<not> touches f (open_case_entity_set s) \<and> \<not> touches f (compromised_entity_set s)"
proof (cases "\<exists>f. enabled \<and> reads_ok \<and> get_env_fact F fid (Some (pp_fact_ttl policy)) now s = Inr (Some f)")
  case False
  with d that(1) show thesis
    by (cases enabled; cases reads_ok; cases "get_env_fact F fid (Some (pp_fact_ttl policy)) now s")
       (auto simp: do_env_transition_def split: option.splits)
next
  case True
  then obtain f where f: enabled reads_ok "get_env_fact F fid (Some (pp_fact_ttl policy)) now s = Inr (Some f)" by blast
  let ?hard = "touches f (open_case_entity_set s) \<or> touches f (compromised_entity_set s)"
  have hb: "hard_blocks (env_context F policy s f per now) = [] \<longleftrightarrow> \<not> ?hard" for per
    by (simp add: hard_blocks_def env_context_def)
  show thesis
  proof (cases "gate \<and> ?hard")
    case True
    with d that(1) show thesis by (auto simp: do_env_transition_def Let_def f hb)
  next
    case clear: False
    show thesis
    proof (cases audit)
      case (Inl e)
      with d clear that(1) show thesis by (auto simp: do_env_transition_def Let_def f hb)
    next
      case (Inr a)
      define i where "i = (case a of Some i \<Rightarrow> i | None \<Rightarrow> [])"
      let ?t = "transition_record (observations_for fid s) (transitions_for fid s) fid f to_state reason user i tid now"
      have "(res, s') = (if is_protected to_state \<and> i = [] then (Err EE_AuditDisabled, s)
          else if write_ok then (Ok ?t, append_transition show_nanos ?t s) else (Err EE_Store, s))"
        using d clear by (auto simp: do_env_transition_def Let_def f hb Inr i_def)
      with clear show thesis
        by (cases "is_protected to_state \<and> i = []"; cases write_ok) (auto intro: that(1) that(2) [OF _ _ f(3) refl])
    qed
  qed
qed

lemma do_env_transition_prim:
  assumes "do_env_transition F show_nanos policy enabled reads_ok write_ok audit user tid now fid to_state reason gate s = (res, s')"
    and "fresh_id tid s"
  shows "(prim show_nanos now)\<^sup>*\<^sup>* s s'"
  using assms(1)
proof (cases rule: do_env_transition_cases)
  case (appended f t i)
  have "prim show_nanos now s (append_transition show_nanos t s)"
    by (rule prim_tr) (use assms(2) appended fresh_key [of t s show_nanos] in
      \<open>simp_all add: transition_record_def superseded_present transitions_for_def\<close>)
  then show ?thesis using appended by auto
qed auto


section \<open>The run of a deployment\<close>

datatype env_actor = By_learner | By_admin | By_loop | By_cases

inductive env_step ::
  "(bytes \<Rightarrow> string) \<Rightarrow> ('f, 'd) float_ops \<Rightarrow> (int \<Rightarrow> string) \<Rightarrow> ('f, 'd) PromotionPolicy \<Rightarrow> env_actor \<Rightarrow> int \<Rightarrow> 'f env_store \<Rightarrow> 'f env_store \<Rightarrow> bool"
  for b3 F show_nanos policy where
  learner: "env_step b3 F show_nanos policy By_learner now s
      (learn_tick b3 F policy binding newest query mark_ok oks now s)"
| imported: "env_import u tm js b3 F policy enabled audit oks src format content trust now s = (res, s') \<Longrightarrow>
    env_step b3 F show_nanos policy By_admin now s s'"
| window: "env_change_window b3 F enabled audit oks2 uuid user eid from until now s = (res, s') \<Longrightarrow>
    env_step b3 F show_nanos policy By_admin now s s'"
| promoted: "env_promote F show_nanos policy enabled reads_ok write_ok audit user tid now fid reason s = (res2, s') \<Longrightarrow>
    fresh_id tid s \<Longrightarrow> env_step b3 F show_nanos policy By_admin now s s'"
| demoted: "env_demote F show_nanos policy enabled reads_ok write_ok audit user tid now fid state reason s = (res2, s') \<Longrightarrow>
    fresh_id tid s \<Longrightarrow> env_step b3 F show_nanos policy By_admin now s s'"
| retired: "env_retire F show_nanos policy enabled reads_ok write_ok audit user tid now fid reason s = (res2, s') \<Longrightarrow>
    fresh_id tid s \<Longrightarrow> env_step b3 F show_nanos policy By_admin now s s'"
| round: "ids_ok (map pa_id answers) s \<Longrightarrow> \<forall>a \<in> set answers. pa_audit a \<noteq> Inr (Some []) \<Longrightarrow>
    env_step b3 F show_nanos policy By_loop now s (promote_round F show_nanos policy reads_ok windows_ok answers now s)"
| case_work: "env_step b3 F show_nanos policy By_cases now s (s\<lparr>es_cases := cs, es_decisions := ds, es_outcomes := os\<rparr>)"

lemma env_step_prim: "env_step b3 F show_nanos policy who now s s' \<Longrightarrow> (prim show_nanos now)\<^sup>*\<^sup>* s s'"
proof (induction rule: env_step.induct)
  case (promoted enabled reads_ok write_ok audit user tid now fid reason s res2 s')
  then show ?case unfolding env_promote_def by (rule do_env_transition_prim)
next
  case (demoted enabled reads_ok write_ok audit user tid now fid state reason s res2 s')
  then show ?case
    by (auto simp: env_demote_def Let_def split: if_splits intro: do_env_transition_prim)
next
  case (retired enabled reads_ok write_ok audit user tid now fid reason s res2 s')
  then show ?case unfolding env_retire_def by (rule do_env_transition_prim)
next
  case (case_work now s cs ds os)
  show ?case by (rule r_into_rtranclp, rule prim_frame) simp_all
qed (rule learn_tick_prim promote_round_prim, assumption | erule env_import_prim env_change_window_prim | rule learn_tick_prim)+


text \<open>What was recorded after a moment does not show in the view as of that moment.\<close>

lemma prim_asof:
  assumes "prim show_nanos now s s'" "as_of < now"
  shows "env_fact_asof F fid as_of s' = env_fact_asof F fid as_of s"
  using assms
proof cases
  case (prim_ob ob)
  then show ?thesis
    using assms(2) filter_put_fresh [of "ob_row_key ob" "es_observations s" "\<lambda>x. ob_fact_id x = fid \<and> ob_recorded_at x \<le> as_of" ob]
    by (simp add: env_fact_asof_def materialize_fact_asof_def observations_for_def transitions_for_def
          list_env_observations_def list_env_transitions_def append_observation_row)
next
  case (prim_tr t)
  then show ?thesis
    using assms(2) filter_put_fresh [of "tr_row_key show_nanos t" "es_transitions s" "\<lambda>x. tr_fact_id x = fid \<and> tr_recorded_at x \<le> as_of" t]
    by (simp add: env_fact_asof_def materialize_fact_asof_def observations_for_def transitions_for_def
          list_env_observations_def list_env_transitions_def append_transition_row)
next
  case prim_frame
  then show ?thesis
    by (simp add: env_fact_asof_def observations_for_def transitions_for_def list_env_observations_def list_env_transitions_def)
qed

lemma prims_asof:
  "(prim show_nanos now)\<^sup>*\<^sup>* s s' \<Longrightarrow> as_of < now \<Longrightarrow> env_fact_asof F fid as_of s' = env_fact_asof F fid as_of s"
  by (induction rule: rtranclp_induct) (simp_all add: prim_asof)

section \<open>The invariant of the tables\<close>

definition env_inv :: "(int \<Rightarrow> string) \<Rightarrow> 'f env_store \<Rightarrow> bool" where
  "env_inv show_nanos s \<longleftrightarrow>
     sorted_wrt (<) (map fst (es_observations s)) \<and> sorted_wrt (<) (map fst (es_transitions s)) \<and>
     (\<forall>r \<in> set (es_observations s). \<exists>ob. r = (ob_row_key ob, Some ob)) \<and>
     (\<forall>r \<in> set (es_transitions s). \<exists>t. r = (tr_row_key show_nanos t, Some t)) \<and>
     set (tr_superseded (list_env_transitions s)) \<subseteq> tr_transition_id ` set (list_env_transitions s)"

lemma list_transitions_append:
  assumes "tr_row_key show_nanos t \<notin> fst ` set (es_transitions s)"
  shows "mset (list_env_transitions (append_transition show_nanos t s)) = add_mset t (mset (list_env_transitions s))"
  by (simp add: list_env_transitions_def append_transition_row row_values_put_fresh [OF assms])

lemma list_transitions_append_set:
  "tr_row_key show_nanos t \<notin> fst ` set (es_transitions s) \<Longrightarrow>
   set (list_env_transitions (append_transition show_nanos t s)) = insert t (set (list_env_transitions s))"
  using list_transitions_append by (metis set_mset_add_mset_insert set_mset_mset)

lemma superseded_set: "set (tr_superseded ts) = {i. \<exists>t \<in> set ts. \<not> inert t \<and> tr_supersedes t = Some i}"
  by (force simp: tr_superseded_def List.map_filter_def)

lemma prim_inv:
  assumes "prim show_nanos now s s'" "env_inv show_nanos s"
  shows "env_inv show_nanos s'"
  using assms(1)
proof cases
  case (prim_ob ob)
  then show ?thesis
    using assms(2) tab_put_keys [of "es_observations s" "ob_row_key ob" "Some ob"] tab_put_set [of "es_observations s" "ob_row_key ob" "Some ob"]
    by (auto simp: env_inv_def append_observation_row list_env_transitions_def)
next
  case (prim_tr t)
  have "set (tr_superseded (list_env_transitions s')) \<subseteq> tr_transition_id ` set (list_env_transitions s')"
    using assms(2) prim_tr list_transitions_append_set [OF prim_tr(3)] by (auto simp: superseded_set env_inv_def)
  then show ?thesis
    using assms(2) prim_tr tab_put_keys [of "es_transitions s" "tr_row_key show_nanos t" "Some t"]
      tab_put_set [of "es_transitions s" "tr_row_key show_nanos t" "Some t"]
    by (auto simp: env_inv_def append_transition_row)
next
  case prim_frame
  with assms(2) show ?thesis by (simp add: env_inv_def list_env_transitions_def)
qed

lemma prims_inv: "(prim show_nanos now)\<^sup>*\<^sup>* s s' \<Longrightarrow> env_inv show_nanos s \<Longrightarrow> env_inv show_nanos s'"
  by (induction rule: rtranclp_induct) (simp_all add: prim_inv)

lemma prim_observations_grow: "prim show_nanos now s s' \<Longrightarrow> env_inv show_nanos s \<Longrightarrow> set (observations_for fid s) \<subseteq> set (observations_for fid s')"
proof (induction rule: prim.induct)
  case (prim_ob ob s)
  then show ?case
    by (auto simp: observations_for_def list_env_observations_def append_observation_row row_values_mem env_inv_def tab_put_set)
       (metis fst_conv image_eqI)
qed (auto simp: observations_for_def list_env_observations_def append_transition_row)

lemma prims_observations_grow:
  "(prim show_nanos now)\<^sup>*\<^sup>* s s' \<Longrightarrow> env_inv show_nanos s \<Longrightarrow> set (observations_for fid s) \<subseteq> set (observations_for fid s')"
proof (induction rule: rtranclp_induct)
  case (step y z)
  then show ?case using prim_observations_grow prims_inv by blast
qed simp

lemma observation_ids_unique:
  assumes "env_inv show_nanos s" "x \<in> set (observations_for fid s)" "y \<in> set (observations_for fid s)"
    and "ob_observation_id x = ob_observation_id y"
  shows "x = y"
proof -
  have mem: "(ob_row_key z, Some z) \<in> set (es_observations s) \<and> ob_fact_id z = fid" if "z \<in> set (observations_for fid s)" for z
    using that assms(1) by (fastforce simp: observations_for_def list_env_observations_def row_values_mem env_inv_def)
  have "distinct (map fst (es_observations s))"
    using assms(1) by (simp add: env_inv_def strict_sorted_iff)
  moreover have "ob_row_key x = ob_row_key y" using mem assms by (simp add: ob_row_key_def)
  ultimately show ?thesis using mem assms(2,3) by (metis eq_key_imp_eq_value option.inject)
qed

lemma find_observation:
  assumes "env_inv show_nanos s" "x \<in> set (observations_for fid s)"
  shows "find (\<lambda>y. ob_observation_id y = ob_observation_id x) (observations_for fid s) = Some x"
  using assms observation_ids_unique [OF assms(1) _ assms(2)]
  by (cases "find (\<lambda>y. ob_observation_id y = ob_observation_id x) (observations_for fid s)")
     (auto simp: find_None_iff dest!: find_in)

lemma env_step_inv: "env_step b3 F show_nanos policy who now s s' \<Longrightarrow> env_inv show_nanos s \<Longrightarrow> env_inv show_nanos s'"
  using env_step_prim prims_inv by blast

end
