(* ===== verification/Env_Properties.thy ===== *)
theory Env_Properties
  imports Env_Laws
begin

text \<open>
  The properties of the environment model, with a small deployment on which they are applied: what a protected state rests on,
  that the past does not change, what the gate lets through, that a promotion pins its value, that one collector alone
  teaches nothing, and what the integrity report decides.
\<close>

section \<open>Reachable stores\<close>

definition env_empty :: "'f env_store" where
  "env_empty = \<lparr>es_observations = [], es_transitions = [], es_sightings = [], es_learn_watermark = None,
     es_detect_watermark = None, es_cases = [], es_decisions = [], es_outcomes = []\<rparr>"

definition env_moves ::
  "(bytes \<Rightarrow> string) \<Rightarrow> ('f, 'd) float_ops \<Rightarrow> (int \<Rightarrow> string) \<Rightarrow> ('f, 'd) PromotionPolicy \<Rightarrow> 'f env_store \<Rightarrow> 'f env_store \<Rightarrow> bool" where
  "env_moves b3 F show_nanos policy = (\<lambda>s s'. \<exists>who now. env_step b3 F show_nanos policy who now s s')\<^sup>*\<^sup>*"

lemma env_empty_inv: "env_inv show_nanos env_empty"
  by (simp add: env_inv_def env_empty_def list_env_transitions_def row_values_def tr_superseded_def List.map_filter_def)

lemma moves_inv: "env_moves b3 F show_nanos policy s s' \<Longrightarrow> env_inv show_nanos s \<Longrightarrow> env_inv show_nanos s'"
  unfolding env_moves_def by (induction rule: rtranclp_induct) (auto dest: env_step_inv)

lemma moves_observations_grow:
  "env_moves b3 F show_nanos policy s s' \<Longrightarrow> env_inv show_nanos s \<Longrightarrow> set (observations_for fid s) \<subseteq> set (observations_for fid s')"
  unfolding env_moves_def
proof (induction rule: rtranclp_induct)
  case (step y z)
  then have "env_inv show_nanos y" using moves_inv unfolding env_moves_def by blast
  with step show ?case using env_step_prim prims_observations_grow by blast
qed simp

text \<open>A fresh transition newer than the others of its fact governs it.\<close>

lemma fresh_not_superseded:
  assumes "env_inv show_nanos s" "fresh_id i s"
  shows "i \<notin> tr_transition_id ` set (list_env_transitions s)" "i \<notin> set (tr_superseded (list_env_transitions s))"
proof -
  show "i \<notin> tr_transition_id ` set (list_env_transitions s)"
  proof
    assume "i \<in> tr_transition_id ` set (list_env_transitions s)"
    then obtain t k where t: "i = tr_transition_id t" "(k, Some t) \<in> set (es_transitions s)"
      by (auto simp: list_env_transitions_def row_values_mem)
    then have "k = tr_row_key show_nanos t" using assms(1) by (fastforce simp: env_inv_def)
    then have "suffix (''|'' @ i) k" unfolding t(1) by (simp only: row_key_suffix)
    moreover have "k \<in> fst ` set (es_transitions s)" using t(2) by force
    ultimately show False using assms(2) by (simp only: fresh_id_def)
  qed
  with assms(1) show "i \<notin> set (tr_superseded (list_env_transitions s))" by (auto simp: env_inv_def)
qed

lemma superseded_mono: "set ts \<subseteq> set us \<Longrightarrow> set (tr_superseded ts) \<subseteq> set (tr_superseded us)"
  by (auto simp: superseded_set)

lemma current_after_append:
  assumes inv: "env_inv show_nanos s" and fresh: "fresh_id (tr_transition_id t) s" and eff: "\<not> inert t"
    and older: "\<And>t'. t' \<in> set (transitions_for (tr_fact_id t) s) \<Longrightarrow> tr_recorded_at t' < tr_recorded_at t"
    and sup: "set_option (tr_supersedes t) \<subseteq> tr_transition_id ` set (list_env_transitions s)"
  shows "current_transition (transitions_for (tr_fact_id t) (append_transition show_nanos t s)) = Some t"
proof -
  let ?ts = "transitions_for (tr_fact_id t) (append_transition show_nanos t s)"
  have set: "set ?ts = insert t (set (transitions_for (tr_fact_id t) s))"
    using list_transitions_append_set [OF fresh_key [OF fresh]] by (auto simp: transitions_for_def)
  have "tr_transition_id t \<notin> set (tr_superseded ?ts)"
  proof
    assume "tr_transition_id t \<in> set (tr_superseded ?ts)"
    then obtain u where u: "u \<in> set ?ts" "\<not> inert u" "tr_supersedes u = Some (tr_transition_id t)"
      by (auto simp: superseded_set)
    show False
    proof (cases "u = t")
      case True
      with u sup fresh_not_superseded(1) [OF inv fresh] show False by auto
    next
      case False
      with u set fresh_not_superseded(2) [OF inv fresh] show False by (auto simp: superseded_set transitions_for_def)
    qed
  qed
  then have t: "t \<in> set (tr_contenders ?ts)" using eff set by (simp add: tr_contenders_def effective_transition_def)
  then obtain z where z: "max_by_key tr_key (tr_contenders ?ts) = Some z"
    by (cases "max_by_key tr_key (tr_contenders ?ts)") auto
  have "tr_key t \<le> tr_key z" "z \<in> set ?ts"
    using max_by_key_Some [OF z] t by (auto simp: tr_contenders_def)
  then have "z = t" using older set by (fastforce simp: tr_key_def less_eq_prod_def)
  with z show ?thesis by (simp add: current_transition_max)
qed


section \<open>The rounds\<close>


lemma tab_put_subset: "set (tab_put k v rows) \<subseteq> insert (k, v) (set rows)"
  by (induction k v rows rule: tab_put.induct) auto






lemma foldl_frame: "(\<And>s x. g (f s x) = g s) \<Longrightarrow> g (foldl f s xs) = g s"
  by (induction xs arbitrary: s) auto

lemma learn_frame: "es_transitions (learn_observation now s r) = es_transitions s"
  by (auto simp: learn_observation_def Let_def append_observation_row bump_frame split: prod.splits)

lemma learn_tick_frame: "es_transitions (learn_tick b3 F policy binding newest query mark_ok oks now s) = es_transitions s"
  by (simp add: learn_tick_def Let_def foldl_frame [of es_transitions] learn_frame watermark_frame split: option.splits)





section \<open>One collector\<close>

text \<open>A deployment in which, while sources are bound to collectors, only one collector delivers events.\<close>

inductive solo_run :: "(bytes \<Rightarrow> string) \<Rightarrow> ('f, 'd) float_ops \<Rightarrow> (int \<Rightarrow> string) \<Rightarrow> ('f, 'd) PromotionPolicy \<Rightarrow> string \<Rightarrow> 'f env_store \<Rightarrow> bool"
  for b3 F show_nanos policy cid where
  start: "solo_run b3 F show_nanos policy cid env_empty"
| learn: "solo_run b3 F show_nanos policy cid s \<Longrightarrow>
    \<forall>wm rows. query wm = Some rows \<longrightarrow> (\<forall>r \<in> set rows. snd (snd r) \<in> {None, Some [], Some cid}) \<Longrightarrow>
    solo_run b3 F show_nanos policy cid (learn_tick b3 F policy True newest query mark_ok oks now s)"
| promote: "solo_run b3 F show_nanos policy cid s \<Longrightarrow>
    solo_run b3 F show_nanos policy cid (promote_round F show_nanos policy reads_ok windows_ok answers now s)"

definition only_from :: "string \<Rightarrow> 'f env_store \<Rightarrow> bool" where
  "only_from cid s \<longleftrightarrow> (\<forall>ob \<in> set (list_env_observations s). sr_source_id (ob_source ob) = cid)"

lemma bound_source_cid:
  "bound_source policy True ev c = Some src \<Longrightarrow> c \<in> {None, Some [], Some cid} \<Longrightarrow> sr_source_id src = cid"
  by (auto simp: bound_source_def split: if_splits option.splits)

lemma append_observation_subset:
  "set (list_env_observations (snd (append_observation ob s))) \<subseteq> insert ob (set (list_env_observations s))"
  by (auto simp: list_env_observations_def append_observation_row row_values_mem dest!: subsetD [OF tab_put_subset])

lemma learn_only_from:
  assumes "only_from cid s" "sr_source_id (ob_source (snd r)) = cid"
  shows "only_from cid (learn_observation now s r)"
proof -
  obtain a b ob where r: "r = ((a, b), ob)" by (cases r) auto
  have "list_env_observations (learn_observation now s r) =
      (if a then list_env_observations (snd (append_observation ob s)) else list_env_observations s)"
    by (simp add: r learn_observation_def Let_def list_env_observations_def bump_frame)
  then show ?thesis using assms append_observation_subset [of ob s] by (auto simp: only_from_def r)
qed

lemma foldl_keeps: "P s \<Longrightarrow> (\<And>s x. P s \<Longrightarrow> x \<in> set xs \<Longrightarrow> P (f s x)) \<Longrightarrow> P (foldl f s xs)"
  by (induction xs arbitrary: s) auto

lemma learn_tick_only_from:
  assumes "only_from cid s" "\<forall>wm rows. query wm = Some rows \<longrightarrow> (\<forall>r \<in> set rows. snd (snd r) \<in> {None, Some [], Some cid})"
  shows "only_from cid (learn_tick b3 F policy True newest query mark_ok oks now s)"
proof -
  have src: "sr_source_id (ob_source ob) = cid"
    if "query wm = Some rows" "ob \<in> set (derive_candidates_bound b3 F (map snd rows) policy now True)" for wm rows ob
    using that(2)
  proof (rule derived_bound_ob)
    fix ev c
    assume "(ev, c) \<in> set (map snd rows)" "bound_source policy True ev c = Some (ob_source ob)"
    moreover from this(1) assms(2) that(1) have "c \<in> {None, Some [], Some cid}" by fastforce
    ultimately show ?thesis using bound_source_cid by blast
  qed
  have mark: "only_from cid (set_env_learn_watermark_us m s)" for m
    using assms(1) by (simp add: only_from_def list_env_observations_def watermark_frame)
  show ?thesis
    using assms(1) mark
    by (auto simp: learn_tick_def Let_def split: option.splits
          intro!: foldl_keeps [where P = "only_from cid"] learn_only_from src dest: set_zip_rightD)
qed

lemma listed_fact:
  assumes "f \<in> set (list_env_facts F ttl now s)"
  obtains fid si where "materialize_fact F fid (observations_for fid s) (transitions_for fid s) si ttl now = Some f"
  using assms by (auto simp: list_env_facts_def List.map_filter_def Let_def)

lemma only_from_one_source:
  assumes "only_from cid s" "f \<in> set (list_env_facts F ttl now s)"
  shows "length (ef_distinct_sources f) < 2"
  using assms(2)
proof (rule listed_fact)
  fix fid si
  assume "materialize_fact F fid (observations_for fid s) (transitions_for fid s) si ttl now = Some f"
  note ds = materialize_Some(6) [OF this]
  have "set (ef_distinct_sources f) \<subseteq> {cid}"
    using assms(1) by (auto simp: ds only_from_def observations_for_def)
  moreover have "distinct (ef_distinct_sources f)" by (simp add: ds distinct_remdups_adj_sort)
  ultimately show ?thesis using card_mono [of "{cid}" "set (ef_distinct_sources f)"] by (simp add: distinct_card)
qed

lemma promote_round_idle:
  assumes "\<And>f. f \<in> set (list_env_facts F (Some (pp_fact_ttl policy)) now s) \<Longrightarrow>
      length (ef_distinct_sources f) < pp_min_distinct_sources policy"
  shows "promote_round F show_nanos policy reads_ok windows_ok answers now s = s"
proof -
  let ?g = "\<lambda>w. auto_promote F show_nanos policy s w now"
  have "?g w s' (a, f) = s'" if "f \<in> set (list_env_facts F (Some (pp_fact_ttl policy)) now s)" for w s' a f
  proof (rule ccontr)
    assume "?g w s' (a, f) \<noteq> s'"
    then show False by (rule auto_promote_appends) (use may_auto_promote_clear(6) assms [OF that] in blast)
  qed
  then have "foldl (?g w) s (zip answers (list_env_facts F (Some (pp_fact_ttl policy)) now s)) = s" for w
    by (intro foldl_keeps [where P = "\<lambda>x. x = s"]) (auto dest: set_zip_rightD)
  then show ?thesis by (simp add: promote_round_def)
qed

section \<open>An example\<close>

definition ex_float :: "(int, int) float_ops" where
  "ex_float = \<lparr>fl_widen = id, fl_count = uint, fl_mul = (*), fl_div = (\<lambda>a b. a * 100 div b), fl_sub = (-), fl_abs = abs,
     fl_sum = sum_list, fl_lt = (<), fl_le = (\<le>), fl_epsilon = 1, fl_lit32 = int, fl_lit64 = int\<rparr>"

definition ex_ob :: "string \<Rightarrow> string \<Rightarrow> int \<Rightarrow> int FactObservation" where
  "ex_ob oid v at =
     \<lparr>ob_observation_id = oid, ob_fact_id = ''f1'', ob_entity = \<lparr>er_kind = EK_Host, er_id = ''db1''\<rparr>,
      ob_attribute = ''role'', ob_relation = None, ob_target_id = None, ob_value = v,
      ob_source = \<lparr>sr_kind = SK_EventStream, sr_source_id = ''c1'', sr_trust = 50\<rparr>, ob_confidence = 30,
      ob_mode = OM_Observed, ob_learned_from = ''learner'', ob_valid_from = at, ob_valid_to = None, ob_recorded_at = at,
      ob_audit_id = None\<rparr>"

definition ex_tr :: "string \<Rightarrow> FactState \<Rightarrow> string \<Rightarrow> int \<Rightarrow> FactTransition" where
  "ex_tr tid st target at =
     \<lparr>tr_transition_id = tid, tr_fact_id = ''f1'', tr_to_state = st, tr_from_state = FS_Candidate, tr_reason = [],
      tr_actor = ''ann'', tr_target_observation_id = target, tr_quarantine_until = None, tr_supersedes = None,
      tr_audit_id = ''a1'', tr_recorded_at = at\<rparr>"

text \<open>A store with one change window, and the promotion of its fact.\<close>

definition ex_hash :: "bytes \<Rightarrow> string" where
  "ex_hash b = ''h''"

definition ex_nanos :: "int \<Rightarrow> string" where
  "ex_nanos i = ''n''"

definition ex_gate_policy :: "(int, int) PromotionPolicy" where
  "ex_gate_policy = PromotionPolicy_default ex_float"

definition ex_s1 :: "int env_store" where
  "ex_s1 = snd (env_change_window ex_hash ex_float True (Inr None) (True, True) ''u'' ''ann'' ''db1'' 0 9 5 env_empty)"

definition ex_promoted :: "(env_error + FactTransition) \<times> int env_store" where
  "ex_promoted = env_promote ex_float ex_nanos ex_gate_policy True True True (Inr (Some ''a1'')) ''ann'' ''t1'' 7 ''h'' [] ex_s1"

definition ex_t :: FactTransition where
  "ex_t = projr (fst ex_promoted)"

lemma ex_promoted_result: "ex_promoted = (Inr ex_t, snd ex_promoted)"
  by (rule prod_eqI) (code_simp, simp)

lemma ex_fresh: "fresh_id ''t1'' ex_s1"
proof -
  have "es_transitions ex_s1 = []" by code_simp
  then show ?thesis by (simp add: fresh_id_def bar_free_def)
qed

lemma ex_s1_reached: "env_moves ex_hash ex_float ex_nanos ex_gate_policy env_empty ex_s1"
  unfolding env_moves_def ex_s1_def by (intro r_into_rtranclp exI, rule env_step.window, rule surjective_pairing)


section \<open>Properties\<close>

text \<open>
  C25. A fact is shown in a protected state (trusted, suspicious, known malicious or retired) only on the strength of an
  audited transition to that state that no effective transition supersedes, whose audit id the fact carries; its value
  is then that of the observation the transition blessed, however many observations came since. The one exception is
  retirement by age. Transitions to a protected state without an audit id change nothing of what is shown.
\<close>

theorem protected_state_is_audited:
  assumes "materialize_fact F fid obs ts si ttl now = Some f" "is_protected (ef_state f)" "obs \<noteq> []"
  shows "(ef_state f = FS_Retired \<and> ttl \<noteq> None \<or>
          (\<exists>t \<in> set ts. tr_to_state t = ef_state f \<and> tr_audit_id t \<noteq> [] \<and> ef_current_audit_id f = tr_audit_id t \<and>
             tr_transition_id t \<notin> set (tr_superseded ts) \<and>
             (\<forall>b. find (\<lambda>x. ob_observation_id x = tr_target_observation_id t) obs = Some b \<longrightarrow> ef_value f = ob_value b))) \<and>
         materialize_fact F fid obs (filter (\<lambda>t. \<not> inert t) ts) si ttl now = Some f"
proof (intro conjI)
  show "materialize_fact F fid obs (filter (\<lambda>t. \<not> inert t) ts) si ttl now = Some f"
    using materialize_effective [OF assms(3), of F fid ts si ttl now] assms(1) by (simp add: effective_transition_def [abs_def])
next
  consider "ef_state f = FS_Retired \<and> ttl \<noteq> None"
    | t where "current_transition ts = Some t" "tr_to_state t = ef_state f" "ef_current_audit_id f = tr_audit_id t"
    using protected_has_transition [OF assms(1,2)] by blast
  then show "ef_state f = FS_Retired \<and> ttl \<noteq> None \<or>
      (\<exists>t \<in> set ts. tr_to_state t = ef_state f \<and> tr_audit_id t \<noteq> [] \<and> ef_current_audit_id f = tr_audit_id t \<and>
         tr_transition_id t \<notin> set (tr_superseded ts) \<and>
         (\<forall>b. find (\<lambda>x. ob_observation_id x = tr_target_observation_id t) obs = Some b \<longrightarrow> ef_value f = ob_value b))"
  proof cases
    case 2
    have "ef_value f = ob_value b" if "find (\<lambda>x. ob_observation_id x = tr_target_observation_id t) obs = Some b" for b
      using materialize_governed [OF 2(1) _ that, of F fid si ttl now] assms(1,2) 2(2) by auto
    with 2 show ?thesis using contender_not_superseded [OF 2(1)] current_audited [OF 2(1)] assms(2) by auto
  qed blast
qed

theorem protected_state_is_audited_witness:
  "\<exists>f. materialize_fact ex_float ''f1'' [ex_ob ''o1'' ''db'' 5, ex_ob ''o2'' ''web'' 9] [ex_tr ''t1'' FS_Trusted ''o1'' 7] None None 10 = Some f \<and>
       ef_value f = ''db''"
proof -
  let ?m = "materialize_fact ex_float ''f1'' [ex_ob ''o1'' ''db'' 5, ex_ob ''o2'' ''web'' 9] [ex_tr ''t1'' FS_Trusted ''o1'' 7] None None 10"
  have st: "map_option ef_state ?m = Some FS_Trusted" by code_simp
  then obtain f where f: "?m = Some f" "ef_state f = FS_Trusted" by auto
  have "ef_value f = ''db''"
    using protected_state_is_audited [OF f(1)] f(2) by (simp add: is_protected_def ex_tr_def ex_ob_def)
  with f show ?thesis by blast
qed

text \<open>
  C27. The past is fixed: what the model believed at a moment about a fact, asked at any later time, is answered the same
  whatever the learner, the imports, the promotion loop, the analysts and the case work have done since.
\<close>

theorem history_is_immutable:
  assumes "(\<lambda>s s'. \<exists>who now. as_of < now \<and> env_step b3 F show_nanos policy who now s s')\<^sup>*\<^sup>* s s'"
  shows "env_fact_asof F fid as_of s' = env_fact_asof F fid as_of s"
  using assms
proof (induction rule: rtranclp_induct)
  case (step y z)
  then obtain who now where "as_of < now" "env_step b3 F show_nanos policy who now y z" by blast
  with step.IH show ?case using prims_asof [OF env_step_prim] by metis
qed simp


theorem history_is_immutable_witness:
  "env_fact_asof ex_float ''f1'' 3
     (learn_tick (\<lambda>b. ''h'') ex_float (PromotionPolicy_default ex_float) True (Some 9) (\<lambda>w. None) True [] 8 env_empty) =
   env_fact_asof ex_float ''f1'' 3 env_empty"
  by (rule history_is_immutable [of 3 "\<lambda>b. ''h''" _ "\<lambda>i. []" "PromotionPolicy_default ex_float"], rule r_into_rtranclp,
      rule exI [of _ By_learner], rule exI [of _ 8], simp add: env_step.learner)




text \<open>
  A promotion pins the value it approved. After an administrator's promotion of a fact with observations succeeds in a
  reachable store, with an identifier not used before and a clock ahead of the fact's earlier transitions, the fact is
  shown as trusted, with the value it had when it was promoted and the audit id of the promotion, through every later
  activity, until another transition of that fact is recorded.
\<close>

lemma promotion_pins_value:
  assumes reach: "env_moves b3 F show_nanos policy env_empty s"
    and prom: "env_promote F show_nanos policy enabled reads_ok write_ok audit user tid now fid reason s = (Inr t, s1)"
    and fresh: "fresh_id tid s" and clock: "\<forall>t' \<in> set (transitions_for fid s). tr_recorded_at t' < now"
    and obs: "observations_for fid s \<noteq> []"
    and later: "env_moves b3 F show_nanos policy s1 s2" "transitions_for fid s2 = transitions_for fid s1"
    and seen: "sighting_for fid s2 = Inr si"
  shows "\<exists>f f2. get_env_fact F fid (Some (pp_fact_ttl policy)) now s = Inr (Some f) \<and>
                get_env_fact F fid ttl2 now2 s2 = Inr (Some f2) \<and>
                ef_state f2 = FS_Trusted \<and> ef_value f2 = ef_value f \<and> ef_current_audit_id f2 = tr_audit_id t"
proof -
  have inv: "env_inv show_nanos s" using moves_inv [OF reach] env_empty_inv by blast
  obtain f i where f: "s1 = append_transition show_nanos t s" "get_env_fact F fid (Some (pp_fact_ttl policy)) now s = Inr (Some f)"
      "t = transition_record (observations_for fid s) (transitions_for fid s) fid f FS_Trusted reason user i tid now" "i \<noteq> []"
    using prom unfolding env_promote_def by (rule do_env_transition_cases) (auto simp: is_protected_def)
  have t: "tr_fact_id t = fid" "tr_transition_id t = tid" "tr_recorded_at t = now" "tr_to_state t = FS_Trusted" "tr_audit_id t = i"
    by (simp_all add: f(3) transition_record_def)
  have sup: "set_option (tr_supersedes t) \<subseteq> tr_transition_id ` set (list_env_transitions s)"
    unfolding f(3) transition_record_def by (simp add: superseded_present transitions_for_def)
  have cur: "current_transition (transitions_for fid s2) = Some t"
    using current_after_append [OF inv _ _ _ sup, unfolded t(1-3)] fresh clock f(4) t(5) by (simp add: later(2) f(1) inert_def)
  have inv1: "env_inv show_nanos s1"
    using inv f(1) fresh_key [of t s show_nanos] fresh sup t by (auto intro: prim_inv prim_tr)
  obtain x where x: "x \<in> set (observations_for fid s)" "ob_value x = ef_value f"
  proof -
    obtain y where "materialize_fact F fid (observations_for fid s) (transitions_for fid s) y (Some (pp_fact_ttl policy)) now = Some f"
      using f(2) by (auto simp: get_env_fact_def split: sum.splits)
    note v = materialize_Some(3) [OF this]
    obtain z where "z \<in> set (observations_for fid s)" "fst (carried_value F (birth_state (current_transition (transitions_for fid s))
        (observations_for fid s)) (current_transition (transitions_for fid s)) (observations_for fid s)) = Some z"
      using carried_in [OF obs] by blast
    with that v show thesis by simp
  qed
  then obtain b where b: "b \<in> set (observations_for fid s)" "ob_value b = ef_value f" "tr_target_observation_id t = ob_observation_id b"
    using max_by_key_Some(1) [of ob_recorded_at "filter (\<lambda>x. ob_value x = ef_value f) (observations_for fid s)"]
    unfolding f(3) transition_record_def blessing_def
    by (cases "max_by_key ob_recorded_at (filter (\<lambda>x. ob_value x = ef_value f) (observations_for fid s))")
       (auto simp: filter_empty_conv)
  have "b \<in> set (observations_for fid s2)"
    using b(1) moves_observations_grow [OF later(1) inv1, of fid] f(1)
    by (auto simp: observations_for_def list_env_observations_def append_transition_row)
  then have "find (\<lambda>x. ob_observation_id x = tr_target_observation_id t) (observations_for fid s2) = Some b"
    unfolding b(3) by (rule find_observation [OF moves_inv [OF later(1) inv1]])
  from materialize_governed [OF cur _ this, of F fid si ttl2 now2] f(2) b(2) t seen show ?thesis
    by (auto simp: get_env_fact_def is_protected_def)
qed

lemma promotion_pins_value_example:
  "\<exists>f f2. get_env_fact ex_float ''h'' (Some (pp_fact_ttl ex_gate_policy)) 7 ex_s1 = Inr (Some f) \<and>
          get_env_fact ex_float ''h'' None 8 (snd ex_promoted) = Inr (Some f2) \<and>
          ef_state f2 = FS_Trusted \<and> ef_value f2 = ef_value f \<and> ef_current_audit_id f2 = tr_audit_id ex_t"
proof -
  have none: "transitions_for ''h'' ex_s1 = []" "observations_for ''h'' ex_s1 \<noteq> []" by code_simp+
  have "\<not> isl (sighting_for ''h'' (snd ex_promoted))" by code_simp
  then obtain si where "sighting_for ''h'' (snd ex_promoted) = Inr si"
    by (cases "sighting_for ''h'' (snd ex_promoted)") simp_all
  moreover have "env_moves ex_hash ex_float ex_nanos ex_gate_policy (snd ex_promoted) (snd ex_promoted)"
    by (simp add: env_moves_def)
  ultimately show ?thesis
    using promotion_pins_value [OF ex_s1_reached ex_promoted_result [unfolded ex_promoted_def] ex_fresh _ none(2), folded ex_promoted_def]
    by (simp add: none(1))
qed


text \<open>
  C28. When sources are bound to authenticated collectors and the policy asks for two distinct sources, one collector
  alone, whatever it delivers, however often and under whatever source names, never gets a fact promoted by the loop.
\<close>

theorem one_collector_cannot_teach:
  assumes "solo_run b3 F show_nanos policy cid s" "2 \<le> pp_min_distinct_sources policy"
  shows "list_env_transitions s = []"
proof -
  have "es_transitions s = [] \<and> only_from cid s"
    using assms
  proof (induction rule: solo_run.induct)
    case (promote s reads_ok windows_ok answers now)
    then have "promote_round F show_nanos policy reads_ok windows_ok answers now s = s"
      using only_from_one_source by (intro promote_round_idle) fastforce
    with promote show ?case by simp
  qed (simp_all add: learn_tick_frame learn_tick_only_from,
       simp_all add: env_empty_def only_from_def list_env_observations_def row_values_def List.map_filter_def)
  then show ?thesis by (simp add: list_env_transitions_def row_values_def List.map_filter_def)
qed

theorem one_collector_cannot_teach_witness:
  "list_env_transitions (promote_round ex_float ex_nanos ex_gate_policy True True [] 9
     (learn_tick ex_hash ex_float ex_gate_policy True (Some 4) (\<lambda>w. None) True [] 8 env_empty)) = []"
  by (rule one_collector_cannot_teach [of ex_hash ex_float ex_nanos ex_gate_policy "''c1''"], intro solo_run.intros, simp)
     (simp add: ex_gate_policy_def PromotionPolicy_default_def)

text \<open>
  The integrity report is empty exactly when every transition is effective and belongs to an observed fact, and every
  fact whose governing transition is to the trusted state still has the blessed observation, with the value of its newest
  observation. A trusted fact of a store with an empty report is shown without a conflict, with its newest value.
\<close>

lemma environment_report_exact:
  "(verify_environment obs ts = [] \<longleftrightarrow>
     (\<forall>t \<in> set ts. \<not> inert t \<and> (\<exists>x \<in> set obs. ob_fact_id x = tr_fact_id t)) \<and>
     (\<forall>fid t. current_transition (filter (\<lambda>t. tr_fact_id t = fid) ts) = Some t \<longrightarrow> tr_to_state t = FS_Trusted \<longrightarrow>
        (\<exists>b n. find (\<lambda>x. ob_observation_id x = tr_target_observation_id t) (filter (\<lambda>x. ob_fact_id x = fid) obs) = Some b \<and>
               newest_observation (filter (\<lambda>x. ob_fact_id x = fid) obs) = Some n \<and> ob_value n = ob_value b))) \<and>
   (verify_environment obs ts = [] \<longrightarrow>
    materialize_fact F fid (filter (\<lambda>x. ob_fact_id x = fid) obs) (filter (\<lambda>t. tr_fact_id t = fid) ts) si ttl now = Some f \<longrightarrow>
    ef_state f = FS_Trusted \<longrightarrow>
    \<not> ef_conflict_needs_human f \<and>
    map_option ob_value (newest_observation (filter (\<lambda>x. ob_fact_id x = fid) obs)) = Some (ef_value f))"
  (is "(?clean \<longleftrightarrow> ?A \<and> ?B) \<and> (_ \<longrightarrow> ?m = Some f \<longrightarrow> _ \<longrightarrow> ?C)")
proof -
  let ?o = "\<lambda>fid. filter (\<lambda>x. ob_fact_id x = fid) obs"
  have fs: "transition_findings obs t = [] \<longleftrightarrow> \<not> inert t \<and> (\<exists>x \<in> set obs. ob_fact_id x = tr_fact_id t)" for t
    by (auto simp: transition_findings_def inert_def list_ex_iff)
  have ds: "drift_findings obs ts fid = [] \<longleftrightarrow>
      (\<forall>t. current_transition (filter (\<lambda>t. tr_fact_id t = fid) ts) = Some t \<longrightarrow> tr_to_state t = FS_Trusted \<longrightarrow>
        (\<exists>b n. find (\<lambda>x. ob_observation_id x = tr_target_observation_id t) (?o fid) = Some b \<and>
               newest_observation (?o fid) = Some n \<and> ob_value n = ob_value b))" for fid
    by (auto simp: drift_findings_def Let_def split: option.splits dest!: find_in)
  have "current_transition (filter (\<lambda>t. tr_fact_id t = fid) ts) = Some t \<Longrightarrow> fid \<in> tr_fact_id ` set ts" for fid t
    using contender_not_superseded by fastforce
  then have "?B \<longleftrightarrow> (\<forall>fid \<in> tr_fact_id ` set ts. drift_findings obs ts fid = [])"
    unfolding ds by blast
  then have clean: "?clean \<longleftrightarrow> ?A \<and> ?B"
    by (simp add: verify_environment_def fs)
  have "?C" if "?clean" "?m = Some f" "ef_state f = FS_Trusted"
  proof -
    note c = that
    note m = materialize_Some [OF c(2)]
    obtain t where t: "current_transition (filter (\<lambda>t. tr_fact_id t = fid) ts) = Some t" "tr_to_state t = FS_Trusted"
      using protected_has_transition [OF c(2)] c(3) by (auto simp: is_protected_def)
    then obtain b n where "find (\<lambda>x. ob_observation_id x = tr_target_observation_id t) (?o fid) = Some b"
        "newest_observation (?o fid) = Some n" "ob_value n = ob_value b"
      using c(1) clean by blast
    with t m show ?thesis
      by (simp add: birth_state_def carried_value_def blessed_value_def is_protected_def)
  qed
  with clean show ?thesis by blast
qed


lemma environment_report_exact_example:
  "\<exists>f. materialize_fact ex_float ''f1'' [ex_ob ''o1'' ''db'' 5] [ex_tr ''t1'' FS_Trusted ''o1'' 7] None None 10 = Some f \<and>
       \<not> ef_conflict_needs_human f"
proof -
  let ?obs = "[ex_ob ''o1'' ''db'' 5]" and ?ts = "[ex_tr ''t1'' FS_Trusted ''o1'' 7]"
  have clean: "verify_environment ?obs ?ts = []" by code_simp
  have "map_option ef_state (materialize_fact ex_float ''f1'' ?obs ?ts None None 10) = Some FS_Trusted" by code_simp
  then obtain f where f: "materialize_fact ex_float ''f1'' ?obs ?ts None None 10 = Some f" "ef_state f = FS_Trusted" by auto
  have same: "filter (\<lambda>x. ob_fact_id x = ''f1'') ?obs = ?obs" "filter (\<lambda>t. tr_fact_id t = ''f1'') ?ts = ?ts"
    by (simp_all add: ex_ob_def ex_tr_def)
  have "\<not> ef_conflict_needs_human f"
    using environment_report_exact [of ?obs ?ts ex_float "''f1''" None None 10 f] clean f unfolding same by blast
  with f show ?thesis by blast
qed

end
