(* ===== verification/Catalog.thy ===== *)
theory Catalog
  imports Access_Policy
begin

text \<open>
  The application and resource catalog (\<open>garmr-catalog/src/lib.rs\<close>): classifications, the kinds of resource, governed
  entries, the resolution of an object name by a linear scan and by an index, the stamping of audit records, the digest and
  the import of catalog files. TOML, JSON and BLAKE3 in hexadecimal are arguments; instants are integers.
\<close>

section \<open>Classifications\<close>

datatype DataClassification = KC_Public | KC_Internal | KC_Confidential | KC_Restricted | KC_Secret | KC_Custom string

definition dc_normal :: "string \<Rightarrow> string" where
  "dc_normal s = map (\<lambda>c. if c = CHR '' '' \<or> c = CHR ''-'' then CHR ''_'' else c) (to_ascii_lowercase (trim s))"

definition dc_parse :: "string \<Rightarrow> DataClassification" where
  "dc_parse s =
     (let n = dc_normal s
      in if n \<in> {''public'', ''open'', ''unclassified''} then KC_Public
         else if n \<in> {''internal'', ''internal_use'', ''internal_only''} then KC_Internal
         else if n \<in> {''confidential'', ''pii'', ''personal'', ''personal_data'', ''sensitive''} then KC_Confidential
         else if n \<in> {''restricted'', ''highly_confidential'', ''special_category''} then KC_Restricted
         else if n \<in> {''secret'', ''top_secret''} then KC_Secret
         else KC_Custom n)"

fun as_label :: "DataClassification \<Rightarrow> string" where
  "as_label KC_Public = ''public''"
| "as_label KC_Internal = ''internal''"
| "as_label KC_Confidential = ''confidential''"
| "as_label KC_Restricted = ''restricted''"
| "as_label KC_Secret = ''secret''"
| "as_label (KC_Custom s) = s"

fun dc_rank :: "DataClassification \<Rightarrow> nat" where
  "dc_rank KC_Public = 0"
| "dc_rank KC_Internal = 1"
| "dc_rank (KC_Custom _) = 2"
| "dc_rank KC_Confidential = 3"
| "dc_rank KC_Restricted = 4"
| "dc_rank KC_Secret = 5"

section \<open>Matching names\<close>

text \<open>The match without folding the strings first; the positions are bytes.\<close>

definition cat_pattern_matches :: "string \<Rightarrow> string \<Rightarrow> bool" where
  "cat_pattern_matches pattern obj \<longleftrightarrow>
     (if eq_ignore_ascii_case pattern obj then True
      else if ends_with pattern ''.*'' then
        (let prefix = take (length pattern - 2) pattern
         in if eq_ignore_ascii_case obj prefix then True
            else length prefix < length obj \<and> obj ! length prefix = CHR ''.'' \<and>
                 eq_ignore_ascii_case (take (length prefix) obj) prefix)
      else CHR ''.'' \<notin> set pattern \<and> eq_ignore_ascii_case (last (split_on (\<lambda>c. c = CHR ''.'') obj)) pattern)"

section \<open>Resources\<close>

record Application =
  ap_name :: string
  ap_owner :: "string option"
  ap_business_purpose :: "string option"
  ap_description :: "string option"
  ap_team :: "string list"

record ApplicationInstance =
  ai_application :: string
  ai_instance :: string
  ai_owner :: "string option"
  ai_business_purpose :: "string option"
  ai_environment :: "string option"
  ai_host :: "string option"

record DataSource =
  dsc_name :: string
  dsc_application :: "string option"
  dsc_kind :: "string option"
  dsc_owner :: "string option"

record Database =
  db_name :: string
  db_data_source :: "string option"
  db_application :: "string option"
  db_owner :: "string option"

record Schema =
  sm_name :: string
  sm_database :: "string option"
  sm_application :: "string option"
  sm_owner :: "string option"

text \<open>A table; a view has the same fields.\<close>

record Table =
  tb_name :: string
  tb_database :: "string option"
  tb_schema :: "string option"
  tb_application :: "string option"
  tb_owner :: "string option"
  tb_classification :: "DataClassification option"
  tb_sensitive :: bool
  tb_expected_users :: "string list"
  tb_data_subject_type :: "string option"

type_synonym View = Table

record ApiEndpoint =
  ep_path :: string
  ep_method :: "string option"
  ep_application :: "string option"
  ep_owner :: "string option"
  ep_classification :: "DataClassification option"
  ep_sensitive :: bool
  ep_expected_users :: "string list"

record DocumentCollection =
  dl_name :: string
  dl_application :: "string option"
  dl_owner :: "string option"
  dl_classification :: "DataClassification option"
  dl_sensitive :: bool
  dl_expected_users :: "string list"

record SensitiveResource =
  sn_object :: string
  sn_application :: "string option"
  sn_owner :: "string option"
  sn_classification :: DataClassification
  sn_expected_users :: "string list"
  sn_data_subject_type :: "string option"

record UserRole =
  ur_name :: string
  ur_application :: "string option"
  ur_members :: "string list"
  ur_description :: "string option"

record PeerGroup =
  pg_name :: string
  pg_members :: "string list"
  pg_application :: "string option"

record ApprovedClient =
  acl_identity :: string
  acl_application :: "string option"
  acl_client_ip_prefixes :: "string list"
  acl_description :: "string option"

record MaintenanceWindow =
  mw_id :: string
  mw_application :: "string option"
  mw_start :: "int option"
  mw_end :: "int option"
  mw_description :: "string option"

record ExpectedAutomationIdentity =
  ea_identity :: string
  ea_application :: "string option"
  ea_service_account :: bool
  ea_description :: "string option"

datatype Resource =
    RS_Application Application
  | RS_ApplicationInstance ApplicationInstance
  | RS_DataSource DataSource
  | RS_Database Database
  | RS_Schema Schema
  | RS_Table Table
  | RS_View View
  | RS_ApiEndpoint ApiEndpoint
  | RS_DocumentCollection DocumentCollection
  | RS_SensitiveResource SensitiveResource
  | RS_UserRole UserRole
  | RS_PeerGroup PeerGroup
  | RS_ApprovedClient ApprovedClient
  | RS_MaintenanceWindow MaintenanceWindow
  | RS_ExpectedAutomationIdentity ExpectedAutomationIdentity

record ObjectFacts =
  of_pattern :: string
  of_application :: "string option"
  of_owner :: "string option"
  of_classification :: "DataClassification option"
  of_sensitive :: bool
  of_expected_users :: "string list"

fun resource_application :: "Resource \<Rightarrow> string option" where
  "resource_application (RS_Application a) = Some (ap_name a)"
| "resource_application (RS_ApplicationInstance a) = Some (ai_application a)"
| "resource_application (RS_DataSource r) = dsc_application r"
| "resource_application (RS_Database r) = db_application r"
| "resource_application (RS_Schema r) = sm_application r"
| "resource_application (RS_Table r) = tb_application r"
| "resource_application (RS_View r) = tb_application r"
| "resource_application (RS_ApiEndpoint r) = ep_application r"
| "resource_application (RS_DocumentCollection r) = dl_application r"
| "resource_application (RS_SensitiveResource r) = sn_application r"
| "resource_application (RS_UserRole r) = ur_application r"
| "resource_application (RS_PeerGroup r) = pg_application r"
| "resource_application (RS_ApprovedClient r) = acl_application r"
| "resource_application (RS_MaintenanceWindow r) = mw_application r"
| "resource_application (RS_ExpectedAutomationIdentity r) = ea_application r"

fun kind_label :: "Resource \<Rightarrow> string" where
  "kind_label (RS_Application _) = ''application''"
| "kind_label (RS_ApplicationInstance _) = ''application_instance''"
| "kind_label (RS_DataSource _) = ''data_source''"
| "kind_label (RS_Database _) = ''database''"
| "kind_label (RS_Schema _) = ''schema''"
| "kind_label (RS_Table _) = ''table''"
| "kind_label (RS_View _) = ''view''"
| "kind_label (RS_ApiEndpoint _) = ''api_endpoint''"
| "kind_label (RS_DocumentCollection _) = ''document_collection''"
| "kind_label (RS_SensitiveResource _) = ''sensitive_resource''"
| "kind_label (RS_UserRole _) = ''user_role''"
| "kind_label (RS_PeerGroup _) = ''peer_group''"
| "kind_label (RS_ApprovedClient _) = ''approved_client''"
| "kind_label (RS_MaintenanceWindow _) = ''maintenance_window''"
| "kind_label (RS_ExpectedAutomationIdentity _) = ''expected_automation_identity''"

definition table_facts :: "Table \<Rightarrow> ObjectFacts" where
  "table_facts t =
     \<lparr>of_pattern = tb_name t, of_application = tb_application t, of_owner = tb_owner t,
      of_classification = tb_classification t, of_sensitive = tb_sensitive t, of_expected_users = tb_expected_users t\<rparr>"

fun object_facts :: "Resource \<Rightarrow> ObjectFacts option" where
  "object_facts (RS_Table t) = Some (table_facts t)"
| "object_facts (RS_View v) = Some (table_facts v)"
| "object_facts (RS_ApiEndpoint e) =
     Some \<lparr>of_pattern = ep_path e, of_application = ep_application e, of_owner = ep_owner e,
           of_classification = ep_classification e, of_sensitive = ep_sensitive e, of_expected_users = ep_expected_users e\<rparr>"
| "object_facts (RS_DocumentCollection c) =
     Some \<lparr>of_pattern = dl_name c, of_application = dl_application c, of_owner = dl_owner c,
           of_classification = dl_classification c, of_sensitive = dl_sensitive c, of_expected_users = dl_expected_users c\<rparr>"
| "object_facts (RS_SensitiveResource s) =
     Some \<lparr>of_pattern = sn_object s, of_application = sn_application s, of_owner = sn_owner s,
           of_classification = Some (sn_classification s), of_sensitive = True, of_expected_users = sn_expected_users s\<rparr>"
| "object_facts _ = None"

fun expected_members :: "Resource \<Rightarrow> string list" where
  "expected_members (RS_Table t) = tb_expected_users t"
| "expected_members (RS_View v) = tb_expected_users v"
| "expected_members (RS_ApiEndpoint e) = ep_expected_users e"
| "expected_members (RS_DocumentCollection c) = dl_expected_users c"
| "expected_members (RS_SensitiveResource s) = sn_expected_users s"
| "expected_members (RS_UserRole r) = ur_members r"
| "expected_members (RS_PeerGroup g) = pg_members g"
| "expected_members _ = []"

section \<open>Entries\<close>

datatype CatalogSource = SO_Manual | SO_FileImport | SO_ApiImport | SO_PgCatalogDiscovery | SO_Observation

datatype CatalogApproval = CA_Candidate | CA_Trusted | CA_Retired

record CatalogEntry =
  ce_id :: string
  ce_resource :: Resource
  ce_approval :: CatalogApproval
  ce_version :: "32 word"
  ce_valid_from :: "int option"
  ce_valid_until :: "int option"
  ce_created_by :: string
  ce_approved_by :: "string option"
  ce_audit_refs :: "string list"
  ce_source :: CatalogSource

definition entry_candidate :: "string \<Rightarrow> Resource \<Rightarrow> CatalogSource \<Rightarrow> CatalogEntry" where
  "entry_candidate i resource source =
     \<lparr>ce_id = i, ce_resource = resource, ce_approval = CA_Candidate, ce_version = 0, ce_valid_from = None,
      ce_valid_until = None, ce_created_by = [], ce_approved_by = None, ce_audit_refs = [], ce_source = source\<rparr>"

definition is_trusted :: "CatalogEntry \<Rightarrow> bool" where
  "is_trusted e \<longleftrightarrow> ce_approval e = CA_Trusted"

definition is_effective :: "CatalogEntry \<Rightarrow> int option \<Rightarrow> bool" where
  "is_effective e at \<longleftrightarrow>
     (if \<not> is_trusted e then False
      else (case at of
              None \<Rightarrow> True
            | Some t \<Rightarrow> (case ce_valid_from e of None \<Rightarrow> True | Some f \<Rightarrow> f \<le> t) \<and>
                        (case ce_valid_until e of None \<Rightarrow> True | Some u \<Rightarrow> t < u)))"

definition sat_succ :: "32 word \<Rightarrow> 32 word" where
  "sat_succ v = (if v = - 1 then v else v + 1)"

definition entry_promote :: "string \<Rightarrow> CatalogEntry \<Rightarrow> CatalogEntry" where
  "entry_promote approved_by e =
     e\<lparr>ce_approval := CA_Trusted, ce_approved_by := Some approved_by, ce_version := sat_succ (ce_version e)\<rparr>"

definition entry_retire :: "CatalogEntry \<Rightarrow> CatalogEntry" where
  "entry_retire e = e\<lparr>ce_approval := CA_Retired, ce_version := sat_succ (ce_version e)\<rparr>"

definition object_pattern :: "CatalogEntry \<Rightarrow> string option" where
  "object_pattern e = map_option of_pattern (object_facts (ce_resource e))"

record ObjectSummary =
  su_kind :: string
  su_pattern :: string
  su_application :: "string option"
  su_owner :: "string option"
  su_classification :: "string option"
  su_sensitive :: bool
  su_expected_users :: nat

definition object_summary :: "CatalogEntry \<Rightarrow> ObjectSummary option" where
  "object_summary e =
     map_option
       (\<lambda>f. \<lparr>su_kind = kind_label (ce_resource e), su_pattern = of_pattern f, su_application = of_application f,
             su_owner = of_owner f, su_classification = map_option as_label (of_classification f),
             su_sensitive = of_sensitive f, su_expected_users = length (of_expected_users f)\<rparr>)
       (object_facts (ce_resource e))"

definition application_declaration :: "CatalogEntry \<Rightarrow> Application option" where
  "application_declaration e = (case ce_resource e of RS_Application a \<Rightarrow> Some a | _ \<Rightarrow> None)"

section \<open>Resolution\<close>

record ResolvedResource =
  rv_application :: "string option"
  rv_owner :: "string option"
  rv_classification :: "DataClassification option"
  rv_sensitive :: bool
  rv_expected_users :: "string list"

definition ResolvedResource_default :: ResolvedResource where
  "ResolvedResource_default =
     \<lparr>rv_application = None, rv_owner = None, rv_classification = None, rv_sensitive = False, rv_expected_users = []\<rparr>"

text \<open>The facts an entry contributes to the resolution of a name.\<close>

definition entry_match :: "string \<Rightarrow> int option \<Rightarrow> CatalogEntry \<Rightarrow> ObjectFacts option" where
  "entry_match name at e =
     (if \<not> is_effective e at then None
      else (case object_facts (ce_resource e) of
              None \<Rightarrow> None
            | Some f \<Rightarrow> if cat_pattern_matches (of_pattern f) name then Some f else None))"

record reduction =
  rd_matched :: bool
  rd_out :: ResolvedResource
  rd_expected :: "string list"
  rd_best_rank :: "nat option"

definition reduction_start :: reduction where
  "reduction_start = \<lparr>rd_matched = False, rd_out = ResolvedResource_default, rd_expected = [], rd_best_rank = None\<rparr>"

definition reduce_step :: "string \<Rightarrow> int option \<Rightarrow> reduction \<Rightarrow> CatalogEntry \<Rightarrow> reduction" where
  "reduce_step name at s e =
     (case entry_match name at e of
        None \<Rightarrow> s
      | Some f \<Rightarrow>
          (let out = rd_out s;
               better = (case (of_classification f, rd_best_rank s) of
                           (None, _) \<Rightarrow> False
                         | (Some c, None) \<Rightarrow> True
                         | (Some c, Some r) \<Rightarrow> r < dc_rank c)
           in \<lparr>rd_matched = True,
               rd_out = out\<lparr>rv_sensitive := rv_sensitive out \<or> of_sensitive f,
                            rv_application := (case rv_application out of None \<Rightarrow> of_application f | Some a \<Rightarrow> Some a),
                            rv_owner := (case rv_owner out of None \<Rightarrow> of_owner f | Some a \<Rightarrow> Some a),
                            rv_classification := (if better then of_classification f else rv_classification out)\<rparr>,
               rd_expected = rd_expected s @ of_expected_users f,
               rd_best_rank = (if better then map_option dc_rank (of_classification f) else rd_best_rank s)\<rparr>))"

text \<open>The set of expected users is sorted and has no repetition.\<close>

definition reduce_object_matches :: "CatalogEntry list \<Rightarrow> string \<Rightarrow> int option \<Rightarrow> ResolvedResource option" where
  "reduce_object_matches cands name at =
     (let s = foldl (reduce_step name at) reduction_start cands
      in if \<not> rd_matched s then None else Some ((rd_out s)\<lparr>rv_expected_users := btree_set (rd_expected s)\<rparr>))"

definition resolve_object_at :: "CatalogEntry list \<Rightarrow> string \<Rightarrow> int option \<Rightarrow> ResolvedResource option" where
  "resolve_object_at entries name at = reduce_object_matches entries name at"

definition resolve_object :: "CatalogEntry list \<Rightarrow> string \<Rightarrow> ResolvedResource option" where
  "resolve_object entries name = resolve_object_at entries name None"

definition cat_trusted :: "CatalogEntry list \<Rightarrow> CatalogEntry list" where
  "cat_trusted entries = filter is_trusted entries"

definition cat_candidates :: "CatalogEntry list \<Rightarrow> CatalogEntry list" where
  "cat_candidates entries = filter (\<lambda>e. ce_approval e = CA_Candidate) entries"

definition is_sensitive :: "CatalogEntry list \<Rightarrow> string \<Rightarrow> bool" where
  "is_sensitive entries name = (case resolve_object entries name of Some r \<Rightarrow> rv_sensitive r | None \<Rightarrow> False)"

definition classification_of :: "CatalogEntry list \<Rightarrow> string \<Rightarrow> string option" where
  "classification_of entries name = map_option as_label (Option.bind (resolve_object entries name) rv_classification)"

definition expected_users_of :: "CatalogEntry list \<Rightarrow> string \<Rightarrow> string list" where
  "expected_users_of entries application =
     btree_set (concat (map (\<lambda>e.
        case resource_application (ce_resource e) of
          Some a \<Rightarrow> if eq_ignore_ascii_case a application then expected_members (ce_resource e) else []
        | None \<Rightarrow> []) (cat_trusted entries)))"

section \<open>The index\<close>

record ObjectIndex =
  ox_exact :: "(string \<times> nat) list"
  ox_unqualified :: "(string \<times> nat) list"
  ox_wildcards :: "(string \<times> nat) list"

text \<open>
  The two hash maps from a name to its positions are lists of pairs, in the order the positions were pushed; positions are
  below \<open>2 ^ 32\<close>, as \<open>u32\<close> holds them.
\<close>

definition index_entry :: "ObjectIndex \<Rightarrow> nat \<times> CatalogEntry \<Rightarrow> ObjectIndex" where
  "index_entry idx ie =
     (case object_facts (ce_resource (snd ie)) of
        None \<Rightarrow> idx
      | Some f \<Rightarrow>
          (let i = fst ie mod 2 ^ 32; p = to_ascii_lowercase (of_pattern f)
           in if ends_with p ''.*'' then idx\<lparr>ox_wildcards := ox_wildcards idx @ [(take (length p - 2) p, i)]\<rparr>
              else if CHR ''.'' \<in> set p then idx\<lparr>ox_exact := ox_exact idx @ [(p, i)]\<rparr>
              else idx\<lparr>ox_unqualified := ox_unqualified idx @ [(p, i)]\<rparr>))"

definition object_index :: "CatalogEntry list \<Rightarrow> ObjectIndex" where
  "object_index entries =
     foldl index_entry \<lparr>ox_exact = [], ox_unqualified = [], ox_wildcards = []\<rparr> (List.enumerate 0 entries)"

definition bucket :: "(string \<times> nat) list \<Rightarrow> string \<Rightarrow> nat list" where
  "bucket m k = map snd (filter (\<lambda>(k', i). k' = k) m)"

definition wildcard_hit :: "string \<Rightarrow> string \<Rightarrow> bool" where
  "wildcard_hit ob prefix \<longleftrightarrow>
     ob = prefix \<or> length prefix < length ob \<and> ob ! length prefix = CHR ''.'' \<and> take (length prefix) ob = prefix"

definition index_candidates :: "ObjectIndex \<Rightarrow> string \<Rightarrow> nat list" where
  "index_candidates idx name =
     (let ob = to_ascii_lowercase name; lst = last (split_on (\<lambda>c. c = CHR ''.'') ob)
      in remdups_adj (sort (bucket (ox_exact idx) ob @ bucket (ox_unqualified idx) lst @
           map snd (filter (\<lambda>(prefix, i). wildcard_hit ob prefix) (ox_wildcards idx)))))"

definition indexed_resolve_object_at :: "ObjectIndex \<Rightarrow> CatalogEntry list \<Rightarrow> string \<Rightarrow> int option \<Rightarrow> ResolvedResource option" where
  "indexed_resolve_object_at idx entries name at =
     reduce_object_matches (map ((!) entries) (index_candidates idx name)) name at"

section \<open>Enrichment\<close>

record Enrichment =
  en_data_classification :: "string option"
  en_sensitive_resource :: bool
  en_application :: "string option"
  en_owner :: "string option"
  en_expected_users :: "string list"

definition record_object_name :: "'f AppAuditRecord \<Rightarrow> string option" where
  "record_object_name r =
     (case at_object_name (r_action r) of Some n \<Rightarrow> Some n | None \<Rightarrow> at_resource_path (r_action r))"

definition enrichment_from :: "ResolvedResource option \<Rightarrow> Enrichment" where
  "enrichment_from resolved =
     (case resolved of
        Some r \<Rightarrow> \<lparr>en_data_classification = map_option as_label (rv_classification r), en_sensitive_resource = rv_sensitive r,
                  en_application = rv_application r, en_owner = rv_owner r, en_expected_users = rv_expected_users r\<rparr>
      | None \<Rightarrow> \<lparr>en_data_classification = None, en_sensitive_resource = False, en_application = None, en_owner = None,
                 en_expected_users = []\<rparr>)"

definition apply_enrichment :: "'f AppAuditRecord \<Rightarrow> Enrichment \<Rightarrow> 'f AppAuditRecord" where
  "apply_enrichment r enr =
     (let c = r_classification r;
          c1 = (case en_data_classification enr of Some l \<Rightarrow> c\<lparr>cl_data_classification := Some l\<rparr> | None \<Rightarrow> c);
          c2 = (if en_sensitive_resource enr then c1\<lparr>cl_sensitive_resource := True\<rparr> else c1)
      in r\<lparr>r_classification := c2\<rparr>)"

definition cat_enrich :: "CatalogEntry list \<Rightarrow> 'f AppAuditRecord \<Rightarrow> Enrichment" where
  "cat_enrich entries r =
     (case record_object_name r of Some n \<Rightarrow> enrichment_from (resolve_object entries n) | None \<Rightarrow> enrichment_from None)"

definition cat_stamp :: "CatalogEntry list \<Rightarrow> 'f AppAuditRecord \<Rightarrow> 'f AppAuditRecord" where
  "cat_stamp entries r = apply_enrichment r (cat_enrich entries r)"

definition indexed_enrich :: "ObjectIndex \<Rightarrow> CatalogEntry list \<Rightarrow> 'f AppAuditRecord \<Rightarrow> Enrichment" where
  "indexed_enrich idx entries r =
     (case record_object_name r of
        Some n \<Rightarrow> enrichment_from (indexed_resolve_object_at idx entries n None) | None \<Rightarrow> enrichment_from None)"

definition indexed_stamp :: "ObjectIndex \<Rightarrow> CatalogEntry list \<Rightarrow> 'f AppAuditRecord \<Rightarrow> 'f AppAuditRecord" where
  "indexed_stamp idx entries r = apply_enrichment r (indexed_enrich idx entries r)"

definition cat_digest :: "(CatalogEntry list \<Rightarrow> bytes option) \<Rightarrow> (bytes \<Rightarrow> string) \<Rightarrow> CatalogEntry list \<Rightarrow> string" where
  "cat_digest json b3 entries =
     ''cat1:'' @ take 32 (b3 (case json (sort_key ce_id entries) of Some b \<Rightarrow> b | None \<Rightarrow> []))"

section \<open>Catalog files\<close>

record CatalogFile =
  cf_created_by :: "string option"
  cf_application :: "Application list"
  cf_application_instance :: "ApplicationInstance list"
  cf_data_source :: "DataSource list"
  cf_database :: "Database list"
  cf_schema :: "Schema list"
  cf_table :: "Table list"
  cf_view :: "View list"
  cf_api_endpoint :: "ApiEndpoint list"
  cf_document_collection :: "DocumentCollection list"
  cf_sensitive_resource :: "SensitiveResource list"
  cf_user_role :: "UserRole list"
  cf_peer_group :: "PeerGroup list"
  cf_approved_client :: "ApprovedClient list"
  cf_maintenance_window :: "MaintenanceWindow list"
  cf_expected_automation_identity :: "ExpectedAutomationIdentity list"

definition file_resources :: "CatalogFile \<Rightarrow> (string \<times> Resource) list" where
  "file_resources f =
     map (\<lambda>a. (ap_name a, RS_Application a)) (cf_application f) @
     map (\<lambda>a. (ai_application a @ ''/'' @ ai_instance a, RS_ApplicationInstance a)) (cf_application_instance f) @
     map (\<lambda>r. (dsc_name r, RS_DataSource r)) (cf_data_source f) @
     map (\<lambda>r. (db_name r, RS_Database r)) (cf_database f) @
     map (\<lambda>r. (sm_name r, RS_Schema r)) (cf_schema f) @
     map (\<lambda>r. (tb_name r, RS_Table r)) (cf_table f) @
     map (\<lambda>r. (tb_name r, RS_View r)) (cf_view f) @
     map (\<lambda>r. (ep_path r, RS_ApiEndpoint r)) (cf_api_endpoint f) @
     map (\<lambda>r. (dl_name r, RS_DocumentCollection r)) (cf_document_collection f) @
     map (\<lambda>r. (sn_object r, RS_SensitiveResource r)) (cf_sensitive_resource f) @
     map (\<lambda>r. (ur_name r, RS_UserRole r)) (cf_user_role f) @
     map (\<lambda>r. (pg_name r, RS_PeerGroup r)) (cf_peer_group f) @
     map (\<lambda>r. (acl_identity r, RS_ApprovedClient r)) (cf_approved_client f) @
     map (\<lambda>r. (mw_id r, RS_MaintenanceWindow r)) (cf_maintenance_window f) @
     map (\<lambda>r. (ea_identity r, RS_ExpectedAutomationIdentity r)) (cf_expected_automation_identity f)"

definition into_catalog :: "CatalogFile \<Rightarrow> CatalogEntry list" where
  "into_catalog f =
     map (\<lambda>(k, r). (entry_candidate (kind_label r @ '':'' @ k) r SO_FileImport)
                     \<lparr>ce_created_by := (case cf_created_by f of Some c \<Rightarrow> c | None \<Rightarrow> [])\<rparr>) (file_resources f)"

definition cat_from_toml :: "(string \<Rightarrow> CatalogFile option) \<Rightarrow> string \<Rightarrow> CatalogEntry list option" where
  "cat_from_toml toml txt = map_option into_catalog (toml txt)"

end
