(* ===== verification/Catalog_Properties.thy ===== *)
theory Catalog_Properties
  imports Catalog Policy_Laws Garmr_Tables
begin

text \<open>
  Properties of the catalog: the index and the linear scan resolve alike, its name match is the policy engine's, and only
  trusted entries in force say anything about an access.
\<close>

section \<open>Matching\<close>

lemma lower_low:
  assumes "(of_char d :: nat) < 65"
  shows "to_lower_char c = d \<longleftrightarrow> c = d"
proof (cases "65 \<le> (of_char c :: nat) \<and> (of_char c :: nat) \<le> 90")
  case True
  then have "of_char (to_lower_char c) = (of_char c + 32 :: nat)" by (simp add: to_lower_char_def Let_def of_char_of)
  with True assms show ?thesis by (metis add_leD1 not_le trans_le_add1)
next
  case False
  then have "to_lower_char c = c" unfolding to_lower_char_def Let_def by (rule if_not_P)
  then show ?thesis by simp
qed

lemma lower_dot [simp]: "to_lower_char c = CHR ''.'' \<longleftrightarrow> c = CHR ''.''"
  by (rule lower_low) simp

lemma lower_star [simp]: "to_lower_char c = CHR ''*'' \<longleftrightarrow> c = CHR ''*''"
  by (rule lower_low) simp

lemma lower_dot_set [simp]: "CHR ''.'' \<in> set (to_ascii_lowercase s) \<longleftrightarrow> CHR ''.'' \<in> set s"
  unfolding to_ascii_lowercase_def set_map image_iff by (metis lower_dot)

lemma lower_split: "split_on (\<lambda>c. c = CHR ''.'') (to_ascii_lowercase s) = map to_ascii_lowercase (split_on (\<lambda>c. c = CHR ''.'') s)"
  by (induction s) (auto simp: to_ascii_lowercase_def split: list.splits)

lemma lower_wildcard: "ends_with (to_ascii_lowercase s) ''.*'' = ends_with s ''.*''"
  unfolding ends_with_def to_ascii_lowercase_def by (auto simp: drop_map)

lemma lower_take: "take n (to_ascii_lowercase s) = to_ascii_lowercase (take n s)"
  by (simp add: to_ascii_lowercase_def take_map)

lemma lower_length [simp]: "length (to_ascii_lowercase s) = length s"
  by (simp add: to_ascii_lowercase_def)

text \<open>Continuing a prefix with a dot, by positions and as a prefix.\<close>

lemma dotted_prefix:
  "length p < length s \<and> s ! length p = CHR ''.'' \<and> take (length p) s = p \<longleftrightarrow> starts_with s (p @ ''.'')"
proof -
  have "take (Suc (length p)) s = take (length p) s @ [s ! length p]" if "length p < length s"
    using that by (simp add: take_Suc_conv_app_nth)
  then show ?thesis by (cases "length p < length s") (auto simp: starts_with_def)
qed

lemma cat_matches_policy: "cat_pattern_matches = object_pattern_matches"
proof (intro ext)
  fix pattern obj
  let ?p = "to_ascii_lowercase pattern" and ?o = "to_ascii_lowercase obj"
  define pre where "pre = take (length pattern - 2) pattern"
  have pre: "take (length ?p - 2) ?p = to_ascii_lowercase pre" by (simp add: lower_take pre_def)
  have "length pre < length obj \<and> obj ! length pre = CHR ''.'' \<and> eq_ignore_ascii_case (take (length pre) obj) pre \<longleftrightarrow>
      starts_with ?o (to_ascii_lowercase pre @ ''.'')"
    using dotted_prefix [of "to_ascii_lowercase pre" ?o]
    by (cases "length pre < length obj") (auto simp: eq_ignore_ascii_case_def to_ascii_lowercase_def take_map)
  then show "cat_pattern_matches pattern obj = object_pattern_matches pattern obj"
    unfolding cat_pattern_matches_def object_pattern_matches_def Let_def lower_wildcard pre pre_def [symmetric]
    by (simp add: eq_ignore_ascii_case_def lower_split last_map)
qed

text \<open>The bucket a pattern falls into, and whether a name is looked up there.\<close>

definition index_hit :: "string \<Rightarrow> string \<Rightarrow> bool" where
  "index_hit p ob \<longleftrightarrow>
     (if ends_with p ''.*'' then wildcard_hit ob (take (length p - 2) p)
      else if CHR ''.'' \<in> set p then p = ob
      else p = last (split_on (\<lambda>c. c = CHR ''.'') ob))"

lemma matches_hit: "cat_pattern_matches pattern name \<longleftrightarrow> index_hit (to_ascii_lowercase pattern) (to_ascii_lowercase name)"
proof -
  let ?p = "to_ascii_lowercase pattern" and ?o = "to_ascii_lowercase name"
  have free: "CHR ''.'' \<notin> set ?o \<Longrightarrow> last (split_on (\<lambda>c. c = CHR ''.'') ?o) = ?o"
    by (subst split_on_free) (auto simp: list_all_iff)
  have wild: "wildcard_hit ?o (take (length ?p - 2) ?p) \<longleftrightarrow>
      ?o = take (length ?p - 2) ?p \<or> starts_with ?o (take (length ?p - 2) ?p @ ''.'')"
    unfolding wildcard_hit_def dotted_prefix by simp
  have self: "ends_with ?p ''.*'' \<Longrightarrow> starts_with ?p (take (length ?p - 2) ?p @ ''.'')"
  proof -
    assume e: "ends_with ?p ''.*''"
    then have "drop (length ?p - 2) ?p = ''.*''" "2 \<le> length ?p" by (simp_all add: ends_with_def numeral_2_eq_2)
    then have "?p ! (length ?p - 2) = CHR ''.''" using hd_drop_conv_nth [of "length ?p - 2" ?p] by simp
    moreover have "length ?p - 2 < length ?p" using \<open>2 \<le> length ?p\<close> by linarith
    ultimately show ?thesis
      using dotted_prefix [of "take (length ?p - 2) ?p" ?p] by simp
  qed
  show ?thesis
    unfolding cat_matches_policy object_pattern_matches_def index_hit_def wild Let_def
    using self free by (cases "?p = ?o") auto
qed


section \<open>The index\<close>

definition entry_pattern :: "CatalogEntry \<Rightarrow> string option" where
  "entry_pattern e = map_option (\<lambda>f. to_ascii_lowercase (of_pattern f)) (object_facts (ce_resource e))"

definition hit_at :: "CatalogEntry list \<Rightarrow> string \<Rightarrow> nat \<Rightarrow> bool" where
  "hit_at es ob i \<longleftrightarrow> i < length es \<and> (\<exists>p. entry_pattern (es ! i) = Some p \<and> index_hit p ob)"

definition lookup_set :: "ObjectIndex \<Rightarrow> string \<Rightarrow> nat set" where
  "lookup_set idx ob =
     set (bucket (ox_exact idx) ob) \<union> set (bucket (ox_unqualified idx) (last (split_on (\<lambda>c. c = CHR ''.'') ob))) \<union>
     set (map snd (filter (\<lambda>(prefix, i). wildcard_hit ob prefix) (ox_wildcards idx)))"

lemma bucket_snoc: "set (bucket (m @ [(k, i)]) q) = set (bucket m q) \<union> (if k = q then {i} else {})"
  by (simp add: bucket_def)

lemma wild_snoc:
  "set (map snd (filter (\<lambda>(prefix, i). wildcard_hit ob prefix) (m @ [(k, i)]))) =
   set (map snd (filter (\<lambda>(prefix, i). wildcard_hit ob prefix) m)) \<union> (if wildcard_hit ob k then {i} else {})"
  by simp

lemma lookup_entry:
  assumes "i < 2 ^ 32"
  shows "lookup_set (index_entry idx (i, e)) ob =
    lookup_set idx ob \<union> {j. j = i \<and> (\<exists>p. entry_pattern e = Some p \<and> index_hit p ob)}"
  using assms
  by (cases "object_facts (ce_resource e)")
     (simp_all add: index_entry_def entry_pattern_def lookup_set_def bucket_snoc wild_snoc index_hit_def Let_def
        del: filter_append set_map)

lemma object_index_snoc: "object_index (es @ [e]) = index_entry (object_index es) (length es, e)"
  by (simp add: object_index_def enumerate_append_eq)

lemma hit_at_snoc:
  "hit_at (es @ [e]) ob j \<longleftrightarrow> hit_at es ob j \<or> j = length es \<and> (\<exists>p. entry_pattern e = Some p \<and> index_hit p ob)"
  by (auto simp: hit_at_def nth_append less_Suc_eq)

lemma lookup_index: "length es \<le> 2 ^ 32 \<Longrightarrow> lookup_set (object_index es) ob = {i. hit_at es ob i}"
proof (induction es rule: rev_induct)
  case Nil
  show ?case by (simp add: object_index_def lookup_set_def bucket_def hit_at_def)
next
  case (snoc e es)
  then show ?case by (auto simp: object_index_snoc lookup_entry hit_at_snoc)
qed

lemma sorted_upt_filter:
  assumes "sorted xs" "distinct xs" "set xs \<subseteq> {..<n}"
  shows "xs = filter (\<lambda>i. i \<in> set xs) [0..<n]"
  using assms by (intro sorted_distinct_set_unique) (auto simp: sorted_wrt_filter)

section \<open>The reduction\<close>

lemma reduce_skip: "entry_match name at e = None \<Longrightarrow> reduce_step name at s e = s"
  by (simp add: reduce_step_def)

lemma fold_filter: "(\<And>s x. \<not> P x \<Longrightarrow> f s x = s) \<Longrightarrow> foldl f s (filter P xs) = foldl f s xs"
  by (induction xs arbitrary: s) auto

lemma reduce_matching:
  "reduce_object_matches (filter (\<lambda>e. entry_match name at e \<noteq> None) es) name at = reduce_object_matches es name at"
proof -
  have "foldl (reduce_step name at) s (filter (\<lambda>e. entry_match name at e \<noteq> None) es) = foldl (reduce_step name at) s es" for s
    by (rule fold_filter) (simp add: reduce_skip)
  then show ?thesis unfolding reduce_object_matches_def by (simp only:)
qed

lemma filter_nth: "filter P xs = map ((!) xs) (filter (\<lambda>i. P (xs ! i)) [0..<length xs])"
proof -
  have "filter P (map ((!) xs) [0..<length xs]) = map ((!) xs) (filter (\<lambda>i. P (xs ! i)) [0..<length xs])"
    by (simp only: filter_map comp_def)
  then show ?thesis by (simp only: map_nth)
qed

lemma index_agrees:
  assumes "length es \<le> 2 ^ 32"
  shows "indexed_resolve_object_at (object_index es) es name at = resolve_object_at es name at"
proof -
  let ?m = "\<lambda>e. entry_match name at e \<noteq> None" and ?o = "to_ascii_lowercase name"
  define cs where "cs = index_candidates (object_index es) name"
  have cs: "set cs = {i. hit_at es ?o i}" "sorted cs" "distinct cs"
    using lookup_index [OF assms, of ?o]
    by (auto simp: cs_def index_candidates_def lookup_set_def Let_def sorted_remdups_adj distinct_remdups_adj_sort)
  have hit: "?m (es ! i) \<Longrightarrow> i < length es \<Longrightarrow> hit_at es ?o i" for i
    using matches_hit by (fastforce simp: entry_match_def hit_at_def entry_pattern_def split: if_splits option.splits)
  have "filter (\<lambda>i. ?m (es ! i)) cs = filter (\<lambda>i. ?m (es ! i)) [0..<length es]"
  proof -
    have "cs = filter (\<lambda>i. hit_at es ?o i) [0..<length es]"
      using sorted_upt_filter [OF cs(2,3), of "length es"] cs(1) by (auto simp: hit_at_def)
    then have "filter (\<lambda>i. ?m (es ! i)) cs = filter (\<lambda>i. hit_at es ?o i \<and> ?m (es ! i)) [0..<length es]"
      by (simp add: conj_commute)
    also have "\<dots> = filter (\<lambda>i. ?m (es ! i)) [0..<length es]" using hit by (intro filter_cong) auto
    finally show ?thesis .
  qed
  then have "filter ?m (map ((!) es) cs) = filter ?m es"
    by (simp only: filter_map comp_def filter_nth [of ?m es])
  then have "reduce_object_matches (map ((!) es) cs) name at = reduce_object_matches es name at"
    using reduce_matching [of name at "map ((!) es) cs"] reduce_matching [of name at es] by simp
  then show ?thesis by (simp add: indexed_resolve_object_at_def resolve_object_at_def cs_def)
qed


text \<open>What the fold has gathered from the facts it has met.\<close>

definition gathered :: "ObjectFacts list \<Rightarrow> reduction \<Rightarrow> bool" where
  "gathered fs s \<longleftrightarrow>
     (rd_matched s \<longleftrightarrow> fs \<noteq> []) \<and>
     (rv_sensitive (rd_out s) \<longleftrightarrow> (\<exists>f \<in> set fs. of_sensitive f)) \<and>
     rd_expected s = concat (map of_expected_users fs) \<and>
     rd_best_rank s = map_option dc_rank (rv_classification (rd_out s)) \<and>
     (\<forall>f \<in> set fs. \<forall>c. of_classification f = Some c \<longrightarrow>
        (\<exists>b. rv_classification (rd_out s) = Some b \<and> dc_rank c \<le> dc_rank b)) \<and>
     (\<forall>b. rv_classification (rd_out s) = Some b \<longrightarrow> (\<exists>f \<in> set fs. of_classification f = Some b))"

lemma gathered_step:
  assumes "gathered fs s" "entry_match name at e = Some f"
  shows "gathered (fs @ [f]) (reduce_step name at s e)"
  using assms
  by (cases "of_classification f"; cases "rv_classification (rd_out s)")
     (auto simp: gathered_def reduce_step_def Let_def split: if_splits; fastforce)+

definition matching :: "string \<Rightarrow> int option \<Rightarrow> CatalogEntry list \<Rightarrow> ObjectFacts list" where
  "matching name at es = List.map_filter (entry_match name at) es"

lemma matching_set: "f \<in> set (matching name at es) \<longleftrightarrow> (\<exists>e \<in> set es. entry_match name at e = Some f)"
  by (force simp: matching_def List.map_filter_def)

lemma matching_snoc:
  "matching name at (es @ [e]) = matching name at es @ (case entry_match name at e of None \<Rightarrow> [] | Some f \<Rightarrow> [f])"
  by (simp add: matching_def List.map_filter_def split: option.split)

lemma gathered_fold: "gathered (matching name at es) (foldl (reduce_step name at) reduction_start es)"
proof (induction es rule: rev_induct)
  case Nil
  show ?case by (simp add: gathered_def matching_def List.map_filter_def reduction_start_def ResolvedResource_default_def)
next
  case (snoc e es)
  then show ?case
    by (cases "entry_match name at e") (simp_all add: matching_snoc reduce_skip gathered_step)
qed

lemma match_trusted: "entry_match name at e = Some f \<Longrightarrow> is_effective e at \<and> ce_approval e = CA_Trusted"
  by (auto simp: entry_match_def is_effective_def is_trusted_def split: if_splits)

lemma resolve_filter:
  assumes "\<And>e. e \<in> set es \<Longrightarrow> \<not> P e \<Longrightarrow> entry_match name at e = None"
  shows "resolve_object_at (filter P es) name at = resolve_object_at es name at"
proof -
  let ?m = "\<lambda>e. entry_match name at e \<noteq> None"
  have "filter ?m (filter P es) = filter ?m es" unfolding filter_filter
    by (rule filter_cong [OF refl]) (metis assms)
  then show ?thesis
    using reduce_matching [of name at "filter P es"] reduce_matching [of name at es] by (simp add: resolve_object_at_def)
qed

lemma imported_candidates: "e \<in> set (into_catalog f) \<Longrightarrow> ce_approval e = CA_Candidate"
  by (auto simp: into_catalog_def entry_candidate_def)

text \<open>Stamping raises the sensitivity flag only, and replaces the classification whenever the catalog has one, also by a lower one.\<close>

lemma stamp_fields:
  "cat_stamp es r =
     r\<lparr>r_classification := (r_classification r)
         \<lparr>cl_data_classification := (case en_data_classification (cat_enrich es r) of
             Some l \<Rightarrow> Some l | None \<Rightarrow> cl_data_classification (r_classification r)),
          cl_sensitive_resource := cl_sensitive_resource (r_classification r) \<or> en_sensitive_resource (cat_enrich es r)\<rparr>\<rparr>"
  by (cases "en_data_classification (cat_enrich es r)"; cases "en_sensitive_resource (cat_enrich es r)")
     (simp_all add: cat_stamp_def apply_enrichment_def Let_def)

section \<open>An example\<close>

definition ex_sensitive :: SensitiveResource where
  "ex_sensitive = \<lparr>sn_object = ''raw.*'', sn_application = Some ''crm'', sn_owner = None, sn_classification = KC_Restricted,
     sn_expected_users = [''ann''], sn_data_subject_type = None\<rparr>"

definition ex_entries :: "CatalogEntry list" where
  "ex_entries = [entry_candidate ''c'' (RS_SensitiveResource ex_sensitive) SO_Observation,
     entry_promote ''chief'' (entry_candidate ''t'' (RS_SensitiveResource ex_sensitive) SO_Manual)]"

section \<open>Properties\<close>

text \<open>
  C29. The index changes nothing but the cost: over the entries it was built from, of which there are at most \<open>2 ^ 32\<close>, it
  resolves every name at every moment to what the scan of all entries gives, the owner and application of the first
  matching entry included, and stamps records alike; and a name matches a catalog pattern exactly when it matches
  that pattern in a policy.
\<close>

theorem index_resolves_like_the_scan:
  assumes "length entries \<le> 2 ^ 32"
  shows "indexed_resolve_object_at (object_index entries) entries name at = resolve_object_at entries name at \<and>
         indexed_stamp (object_index entries) entries r = cat_stamp entries r \<and>
         cat_pattern_matches pattern name = object_pattern_matches pattern name"
proof -
  note idx = index_agrees [OF assms]
  have "indexed_enrich (object_index entries) entries r = cat_enrich entries r"
    by (cases "record_object_name r") (simp_all add: indexed_enrich_def cat_enrich_def resolve_object_def idx)
  then show ?thesis using idx cat_matches_policy by (simp add: indexed_stamp_def cat_stamp_def)
qed

theorem index_resolves_like_the_scan_witness:
  "indexed_resolve_object_at (object_index ex_entries) ex_entries ''raw.persons'' None =
   resolve_object_at ex_entries ''raw.persons'' None"
proof -
  have "length ex_entries \<le> 2 ^ 32" by (simp add: ex_entries_def)
  from index_resolves_like_the_scan [OF this] show ?thesis by blast
qed

text \<open>
  Only what a human promoted is believed. A name resolves exactly when a trusted entry in force at that moment
  matches it; it is sensitive exactly when one of these says so, its classification is the highest any of them gives,
  and its expected users are theirs together. Candidates and retired entries change nothing, and so does the import of
  a catalog file.
\<close>

lemma only_trusted_entries_resolve:
  "(resolve_object_at entries name at = None \<longleftrightarrow> matching name at entries = []) \<and>
   (resolve_object_at entries name at = Some r \<longrightarrow>
      (rv_sensitive r \<longleftrightarrow> (\<exists>f \<in> set (matching name at entries). of_sensitive f)) \<and>
      set (rv_expected_users r) = (\<Union>f \<in> set (matching name at entries). set (of_expected_users f)) \<and>
      (rv_classification r = None \<longleftrightarrow> (\<forall>f \<in> set (matching name at entries). of_classification f = None)) \<and>
      (\<forall>b. rv_classification r = Some b \<longrightarrow>
         (\<exists>f \<in> set (matching name at entries). of_classification f = Some b) \<and>
         (\<forall>f \<in> set (matching name at entries). \<forall>c. of_classification f = Some c \<longrightarrow> dc_rank c \<le> dc_rank b))) \<and>
   (f \<in> set (matching name at entries) \<longrightarrow> (\<exists>e \<in> set entries. ce_approval e = CA_Trusted \<and> is_effective e at \<and>
      object_facts (ce_resource e) = Some f \<and> cat_pattern_matches (of_pattern f) name)) \<and>
   resolve_object_at (cat_trusted entries) name at = resolve_object_at entries name at \<and>
   resolve_object_at (entries @ into_catalog imported) name at = resolve_object_at entries name at"
proof -
  define s where "s = foldl (reduce_step name at) reduction_start entries"
  have g: "gathered (matching name at entries) s" unfolding s_def by (rule gathered_fold)
  have res: "resolve_object_at entries name at =
      (if rd_matched s then Some ((rd_out s)\<lparr>rv_expected_users := btree_set (rd_expected s)\<rparr>) else None)"
    by (simp add: resolve_object_at_def reduce_object_matches_def s_def Let_def)
  have 1: "resolve_object_at entries name at = None \<longleftrightarrow> matching name at entries = []"
    using g by (simp add: res gathered_def)
  have 2: "(rv_sensitive r \<longleftrightarrow> (\<exists>f \<in> set (matching name at entries). of_sensitive f)) \<and>
      set (rv_expected_users r) = (\<Union>f \<in> set (matching name at entries). set (of_expected_users f)) \<and>
      (rv_classification r = None \<longleftrightarrow> (\<forall>f \<in> set (matching name at entries). of_classification f = None)) \<and>
      (\<forall>b. rv_classification r = Some b \<longrightarrow>
         (\<exists>f \<in> set (matching name at entries). of_classification f = Some b) \<and>
         (\<forall>f \<in> set (matching name at entries). \<forall>c. of_classification f = Some c \<longrightarrow> dc_rank c \<le> dc_rank b))"
    if "resolve_object_at entries name at = Some r"
    using that g by (cases "rv_classification (rd_out s)") (auto simp: res gathered_def set_btree_set split: if_splits)
  have 3: "\<exists>e \<in> set entries. ce_approval e = CA_Trusted \<and> is_effective e at \<and> object_facts (ce_resource e) = Some f \<and>
      cat_pattern_matches (of_pattern f) name" if "f \<in> set (matching name at entries)"
  proof -
    from that [unfolded matching_set] obtain e where e: "e \<in> set entries" "entry_match name at e = Some f" by (elim bexE)
    have "object_facts (ce_resource e) = Some f \<and> cat_pattern_matches (of_pattern f) name"
      using e(2) by (cases "object_facts (ce_resource e)") (simp_all add: entry_match_def split: if_splits)
    with match_trusted [OF e(2)] show ?thesis by (intro bexI [OF _ e(1)]) simp
  qed
  have skip: "ce_approval e \<noteq> CA_Trusted \<Longrightarrow> entry_match name at e = None" for e
    using match_trusted by (cases "entry_match name at e") auto
  have 4: "resolve_object_at (cat_trusted entries) name at = resolve_object_at entries name at"
    unfolding cat_trusted_def by (rule resolve_filter) (simp add: is_trusted_def skip)
  have "filter is_trusted (into_catalog imported) = []"
    using imported_candidates [of _ imported] by (auto simp: filter_empty_conv is_trusted_def)
  then have 5: "resolve_object_at (entries @ into_catalog imported) name at = resolve_object_at entries name at"
    using 4 resolve_filter [of "entries @ into_catalog imported" is_trusted name at] skip
    by (simp add: cat_trusted_def is_trusted_def)
  show ?thesis using 1 2 3 4 5 by blast
qed


lemma only_trusted_entries_resolve_example:
  "\<exists>r. resolve_object_at ex_entries ''raw.persons'' None = Some r \<and> rv_sensitive r"
proof -
  have "map of_sensitive (matching ''raw.persons'' None ex_entries) = [True]"
    by (simp add: matching_def List.map_filter_def ex_entries_def entry_match_def entry_candidate_def entry_promote_def
        is_effective_def is_trusted_def ex_sensitive_def cat_pattern_matches_def eq_ignore_ascii_case_def
        to_ascii_lowercase_def to_lower_char_def ends_with_def)
  then obtain f where f: "matching ''raw.persons'' None ex_entries = [f]" "of_sensitive f" by auto
  then obtain r where r: "resolve_object_at ex_entries ''raw.persons'' None = Some r"
    using only_trusted_entries_resolve [of ex_entries "''raw.persons''" None] by (cases "resolve_object_at ex_entries ''raw.persons'' None") auto
  then have "rv_sensitive r"
    using only_trusted_entries_resolve [of ex_entries "''raw.persons''" None r] f by auto
  with r show ?thesis by blast
qed

end
