(* ===== verification/Monitor.thy ===== *)
theory Monitor
  imports Access_Policy
begin

text \<open>
  User monitoring and watchlists (\<open>garmr-monitor/src/lib.rs\<close>): states and their attention multipliers, targets, profiles
  and their scope, the registry with its resolution of the strongest profile, and the four mutations. The multipliers are
  exact in \<open>f64\<close> and are given in hundredths. The text of instants, BLAKE3 in
  hexadecimal and JSON are arguments.
\<close>

section \<open>States\<close>

datatype MonitoringState = MS_Normal | MS_Watched | MS_ElevatedMonitoring | MS_Investigation | MS_Restricted | MS_Retired | MS_Other

fun ms_rank :: "MonitoringState \<Rightarrow> nat" where
  "ms_rank MS_Normal = 0"
| "ms_rank MS_Retired = 0"
| "ms_rank MS_Other = 0"
| "ms_rank MS_Watched = 1"
| "ms_rank MS_ElevatedMonitoring = 2"
| "ms_rank MS_Investigation = 3"
| "ms_rank MS_Restricted = 4"

fun ms_as_str :: "MonitoringState \<Rightarrow> string" where
  "ms_as_str MS_Normal = ''normal''"
| "ms_as_str MS_Watched = ''watched''"
| "ms_as_str MS_ElevatedMonitoring = ''elevated_monitoring''"
| "ms_as_str MS_Investigation = ''investigation''"
| "ms_as_str MS_Restricted = ''restricted''"
| "ms_as_str MS_Retired = ''retired''"
| "ms_as_str MS_Other = ''other''"

definition is_active_state :: "MonitoringState \<Rightarrow> bool" where
  "is_active_state s \<longleftrightarrow> s \<noteq> MS_Retired"

fun sensitivity_multiplier :: "MonitoringState \<Rightarrow> nat" where
  "sensitivity_multiplier MS_Normal = 100"
| "sensitivity_multiplier MS_Retired = 100"
| "sensitivity_multiplier MS_Other = 100"
| "sensitivity_multiplier MS_Watched = 125"
| "sensitivity_multiplier MS_ElevatedMonitoring = 150"
| "sensitivity_multiplier MS_Investigation = 200"
| "sensitivity_multiplier MS_Restricted = 250"

section \<open>Targets\<close>

datatype MonitoringTarget =
    MT_User string | MT_Role string | MT_Group string | MT_Application string | MT_Resource string

fun mt_value :: "MonitoringTarget \<Rightarrow> string" where
  "mt_value (MT_User v) = v"
| "mt_value (MT_Role v) = v"
| "mt_value (MT_Group v) = v"
| "mt_value (MT_Application v) = v"
| "mt_value (MT_Resource v) = v"

fun mt_kind :: "MonitoringTarget \<Rightarrow> string" where
  "mt_kind (MT_User _) = ''user''"
| "mt_kind (MT_Role _) = ''role''"
| "mt_kind (MT_Group _) = ''group''"
| "mt_kind (MT_Application _) = ''application''"
| "mt_kind (MT_Resource _) = ''resource''"

fun matches_user :: "MonitoringTarget \<Rightarrow> string \<Rightarrow> bool" where
  "matches_user (MT_User u) user_id = eq_ignore_ascii_case u user_id"
| "matches_user _ user_id = False"

text \<open>The crate has its own copy of the policy engine's pattern match.\<close>

definition mo_pattern_matches :: "string \<Rightarrow> string \<Rightarrow> bool" where
  "mo_pattern_matches pattern obj \<longleftrightarrow>
     (let p = to_ascii_lowercase pattern; ob = to_ascii_lowercase obj
      in if p = ob then True
         else if ends_with p ''.*''
         then (let prefix = take (length p - 2) p in ob = prefix \<or> starts_with ob (prefix @ ''.''))
         else CHR ''.'' \<notin> set p \<and> last (split_on (\<lambda>c. c = CHR ''.'') ob) = p)"

lemma mo_pattern_matches_policy: "mo_pattern_matches = object_pattern_matches"
  by (intro ext) (simp only: mo_pattern_matches_def object_pattern_matches_def)

definition opt_is :: "('a \<Rightarrow> bool) \<Rightarrow> 'a option \<Rightarrow> bool" where
  "opt_is P x = (case x of Some v \<Rightarrow> P v | None \<Rightarrow> False)"

definition access_touches :: "string \<Rightarrow> 'f AppAuditRecord \<Rightarrow> string list \<Rightarrow> bool" where
  "access_touches pattern r objects \<longleftrightarrow>
     list_ex (mo_pattern_matches pattern) objects \<or>
     opt_is (mo_pattern_matches pattern) (at_object_name (r_action r)) \<or>
     opt_is (mo_pattern_matches pattern) (at_resource_path (r_action r))"

fun matches_access :: "MonitoringTarget \<Rightarrow> 'f AppAuditRecord \<Rightarrow> string list \<Rightarrow> bool" where
  "matches_access (MT_User u) r objects = eq_ignore_ascii_case u (ac_actor_id (r_actor r))"
| "matches_access (MT_Role role) r objects = opt_is (\<lambda>v. eq_ignore_ascii_case v role) (ac_actor_role (r_actor r))"
| "matches_access (MT_Group g) r objects = list_ex (\<lambda>m. eq_ignore_ascii_case m g) (ac_actor_groups (r_actor r))"
| "matches_access (MT_Application app) r objects = opt_is (\<lambda>v. eq_ignore_ascii_case v app) (cx_application_name (r_context r))"
| "matches_access (MT_Resource pat) r objects = access_touches pat r objects"

section \<open>Profiles\<close>

record UserMonitoringProfile =
  mp_user_id :: string
  mp_display_name :: "string option"
  mp_target :: MonitoringTarget
  mp_state :: MonitoringState
  mp_reason :: string
  mp_risk_level :: string
  mp_valid_from :: int
  mp_valid_until :: "int option"
  mp_application_scope :: "string list"
  mp_resource_scope :: "string list"
  mp_tags :: "string list"
  mp_notes :: string
  mp_created_by :: string
  mp_approved_by :: "string option"
  mp_version :: "32 word"
  mp_audit_refs :: "string list"

definition profile_new :: "MonitoringTarget \<Rightarrow> MonitoringState \<Rightarrow> int \<Rightarrow> string \<Rightarrow> UserMonitoringProfile" where
  "profile_new target state valid_from created_by =
     \<lparr>mp_user_id = mt_value target, mp_display_name = None, mp_target = target, mp_state = state, mp_reason = [],
      mp_risk_level = [], mp_valid_from = valid_from, mp_valid_until = None, mp_application_scope = [],
      mp_resource_scope = [], mp_tags = [], mp_notes = [], mp_created_by = created_by, mp_approved_by = None,
      mp_version = 1, mp_audit_refs = []\<rparr>"

definition with_reason :: "string \<Rightarrow> UserMonitoringProfile \<Rightarrow> UserMonitoringProfile" where
  "with_reason reason p = p\<lparr>mp_reason := reason\<rparr>"

definition with_risk_level :: "string \<Rightarrow> UserMonitoringProfile \<Rightarrow> UserMonitoringProfile" where
  "with_risk_level risk p = p\<lparr>mp_risk_level := risk\<rparr>"

definition with_valid_until :: "int \<Rightarrow> UserMonitoringProfile \<Rightarrow> UserMonitoringProfile" where
  "with_valid_until t p = p\<lparr>mp_valid_until := Some t\<rparr>"

definition with_application_scope :: "string list \<Rightarrow> UserMonitoringProfile \<Rightarrow> UserMonitoringProfile" where
  "with_application_scope scope p = p\<lparr>mp_application_scope := scope\<rparr>"

definition profile_is_active :: "UserMonitoringProfile \<Rightarrow> int \<Rightarrow> bool" where
  "profile_is_active p now \<longleftrightarrow>
     is_active_state (mp_state p) \<and> mp_valid_from p \<le> now \<and>
     (case mp_valid_until p of None \<Rightarrow> True | Some until \<Rightarrow> now \<le> until)"

definition applies_to_user :: "UserMonitoringProfile \<Rightarrow> string \<Rightarrow> int \<Rightarrow> bool" where
  "applies_to_user p user_id now \<longleftrightarrow> profile_is_active p now \<and> matches_user (mp_target p) user_id"

definition application_in_scope :: "string list \<Rightarrow> 'f AppAuditRecord \<Rightarrow> bool" where
  "application_in_scope scope r \<longleftrightarrow>
     scope = [] \<or> opt_is (\<lambda>app. list_ex (\<lambda>s. eq_ignore_ascii_case s app) scope) (cx_application_name (r_context r))"

definition resource_in_scope :: "string list \<Rightarrow> 'f AppAuditRecord \<Rightarrow> string list \<Rightarrow> bool" where
  "resource_in_scope scope r objects \<longleftrightarrow> scope = [] \<or> list_ex (\<lambda>p. access_touches p r objects) scope"

definition applies_to_access :: "UserMonitoringProfile \<Rightarrow> 'f AppAuditRecord \<Rightarrow> string list \<Rightarrow> int \<Rightarrow> bool" where
  "applies_to_access p r objects now \<longleftrightarrow>
     profile_is_active p now \<and> matches_access (mp_target p) r objects \<and>
     application_in_scope (mp_application_scope p) r \<and> resource_in_scope (mp_resource_scope p) r objects"

section \<open>Changes\<close>

record MonitoringChange =
  mc_change_id :: string
  mc_target :: MonitoringTarget
  mc_from_state :: MonitoringState
  mc_to_state :: MonitoringState
  mc_reason :: string
  mc_actor :: string
  mc_at :: int
  mc_audit_ref :: string

text \<open>\<open>rfc3339\<close> prints an instant, \<open>b3\<close> is BLAKE3 in hexadecimal.\<close>

definition change_new ::
  "(int \<Rightarrow> string) \<Rightarrow> (bytes \<Rightarrow> string) \<Rightarrow> MonitoringTarget \<Rightarrow> MonitoringState \<Rightarrow> MonitoringState \<Rightarrow> string \<Rightarrow> string \<Rightarrow> int \<Rightarrow> string \<Rightarrow>
   MonitoringChange" where
  "change_new rfc3339 b3 target from_state to_state reason actor at audit_ref =
     (let seed = mt_kind target @ '':'' @ mt_value target @ '':'' @ ms_as_str from_state @ '':'' @ ms_as_str to_state @ '':'' @
                 actor @ '':'' @ rfc3339 at @ '':'' @ audit_ref
      in \<lparr>mc_change_id = ''chg-'' @ take 16 (b3 (str_bytes seed)), mc_target = target, mc_from_state = from_state,
          mc_to_state = to_state, mc_reason = reason, mc_actor = actor, mc_at = at, mc_audit_ref = audit_ref\<rparr>)"

datatype MonitoringError = ME_EmptyActor | ME_InvalidProfile string | ME_AlreadyExists string | ME_NotFound string

record ChangeMeta =
  cm_actor :: string
  cm_at :: int
  cm_audit_ref :: string

definition require_actor :: "ChangeMeta \<Rightarrow> MonitoringError + unit" where
  "require_actor meta = (if trim (cm_actor meta) = [] then Err ME_EmptyActor else Ok ())"

section \<open>The registry\<close>

type_synonym MonitoringRegistry = "UserMonitoringProfile list"

definition strongest_key :: "UserMonitoringProfile \<Rightarrow> nat \<times> 32 word \<times> int" where
  "strongest_key p = (ms_rank (mp_state p), mp_version p, mp_valid_from p)"

definition strongest :: "UserMonitoringProfile list \<Rightarrow> UserMonitoringProfile option" where
  "strongest candidates = max_by_key strongest_key candidates"

definition active_for_user :: "MonitoringRegistry \<Rightarrow> string \<Rightarrow> int \<Rightarrow> UserMonitoringProfile option" where
  "active_for_user reg user_id now = strongest (filter (\<lambda>p. applies_to_user p user_id now) reg)"

definition active_for_access :: "MonitoringRegistry \<Rightarrow> 'f AppAuditRecord \<Rightarrow> string list \<Rightarrow> int \<Rightarrow> UserMonitoringProfile option" where
  "active_for_access reg r objects now = strongest (filter (\<lambda>p. applies_to_access p r objects now) reg)"

definition multiplier_for_user :: "MonitoringRegistry \<Rightarrow> string \<Rightarrow> int \<Rightarrow> nat" where
  "multiplier_for_user reg user_id now =
     (case active_for_user reg user_id now of None \<Rightarrow> 100 | Some p \<Rightarrow> sensitivity_multiplier (mp_state p))"

definition multiplier_for_access :: "MonitoringRegistry \<Rightarrow> 'f AppAuditRecord \<Rightarrow> string list \<Rightarrow> int \<Rightarrow> nat" where
  "multiplier_for_access reg r objects now =
     (case active_for_access reg r objects now of None \<Rightarrow> 100 | Some p \<Rightarrow> sensitivity_multiplier (mp_state p))"

definition start_monitoring ::
  "(int \<Rightarrow> string) \<Rightarrow> (bytes \<Rightarrow> string) \<Rightarrow> UserMonitoringProfile \<Rightarrow> int \<Rightarrow> string \<Rightarrow> MonitoringRegistry \<Rightarrow>
   (MonitoringError + MonitoringChange) \<times> MonitoringRegistry" where
  "start_monitoring rfc3339 b3 profile at audit_ref reg =
     (if trim (mp_created_by profile) = [] then (Err ME_EmptyActor, reg)
      else if trim (mp_user_id profile) = [] \<and> trim (mt_value (mp_target profile)) = []
      then (Err (ME_InvalidProfile ''target and user_id must not both be empty''), reg)
      else if list_ex (\<lambda>p. mp_target p = mp_target profile) reg
      then (Err (ME_AlreadyExists (mt_value (mp_target profile))), reg)
      else
        (let p = profile\<lparr>mp_version := max (mp_version profile) 1, mp_audit_refs := mp_audit_refs profile @ [audit_ref]\<rparr>
         in (Ok (change_new rfc3339 b3 (mp_target p) MS_Normal (mp_state p) (mp_reason p) (mp_created_by p) at audit_ref),
             reg @ [p])))"

text \<open>Updating the first profile with the target; the result carries the profile as it was found.\<close>

fun update_first ::
  "MonitoringTarget \<Rightarrow> (UserMonitoringProfile \<Rightarrow> UserMonitoringProfile) \<Rightarrow> MonitoringRegistry \<Rightarrow>
   (UserMonitoringProfile \<times> MonitoringRegistry) option" where
  "update_first target f [] = None"
| "update_first target f (p # reg) =
     (if mp_target p = target then Some (p, f p # reg)
      else map_option (\<lambda>(q, reg'). (q, p # reg')) (update_first target f reg))"

definition monitoring_update ::
  "(int \<Rightarrow> string) \<Rightarrow> (bytes \<Rightarrow> string) \<Rightarrow> MonitoringTarget \<Rightarrow> MonitoringState \<Rightarrow> string \<Rightarrow> ChangeMeta \<Rightarrow> MonitoringRegistry \<Rightarrow>
   (MonitoringError + MonitoringChange) \<times> MonitoringRegistry" where
  "monitoring_update rfc3339 b3 target new_state reason meta reg =
     (case require_actor meta of
        Inl e \<Rightarrow> (Err e, reg)
      | Inr _ \<Rightarrow>
          (case update_first target
                  (\<lambda>p. p\<lparr>mp_state := new_state, mp_reason := reason, mp_version := mp_version p + 1,
                         mp_audit_refs := mp_audit_refs p @ [cm_audit_ref meta]\<rparr>) reg of
             None \<Rightarrow> (Err (ME_NotFound (mt_value target)), reg)
           | Some (p, reg') \<Rightarrow>
               (Ok (change_new rfc3339 b3 target (mp_state p) new_state reason (cm_actor meta) (cm_at meta) (cm_audit_ref meta)),
                reg')))"

definition stop_monitoring ::
  "(int \<Rightarrow> string) \<Rightarrow> (bytes \<Rightarrow> string) \<Rightarrow> MonitoringTarget \<Rightarrow> string \<Rightarrow> ChangeMeta \<Rightarrow> MonitoringRegistry \<Rightarrow>
   (MonitoringError + MonitoringChange) \<times> MonitoringRegistry" where
  "stop_monitoring rfc3339 b3 target reason meta reg = monitoring_update rfc3339 b3 target MS_Retired reason meta reg"

fun extend_dedup_loop :: "string list \<Rightarrow> string list \<Rightarrow> string list \<Rightarrow> string list" where
  "extend_dedup_loop seen acc [] = acc"
| "extend_dedup_loop seen acc (item # add) =
     (let k = to_ascii_lowercase item
      in if k \<in> set seen then extend_dedup_loop seen acc add else extend_dedup_loop (k # seen) (acc @ [item]) add)"

definition extend_dedup :: "string list \<Rightarrow> string list \<Rightarrow> string list" where
  "extend_dedup into add = extend_dedup_loop (map to_ascii_lowercase into) into add"

definition restrict_scope ::
  "(int \<Rightarrow> string) \<Rightarrow> (bytes \<Rightarrow> string) \<Rightarrow> MonitoringTarget \<Rightarrow> string list \<Rightarrow> string list \<Rightarrow> string \<Rightarrow> ChangeMeta \<Rightarrow> MonitoringRegistry \<Rightarrow>
   (MonitoringError + MonitoringChange) \<times> MonitoringRegistry" where
  "restrict_scope rfc3339 b3 target application_scope resource_scope reason meta reg =
     (case require_actor meta of
        Inl e \<Rightarrow> (Err e, reg)
      | Inr _ \<Rightarrow>
          (case update_first target
                  (\<lambda>p. p\<lparr>mp_application_scope := extend_dedup (mp_application_scope p) application_scope,
                         mp_resource_scope := extend_dedup (mp_resource_scope p) resource_scope,
                         mp_reason := reason, mp_version := mp_version p + 1,
                         mp_audit_refs := mp_audit_refs p @ [cm_audit_ref meta]\<rparr>) reg of
             None \<Rightarrow> (Err (ME_NotFound (mt_value target)), reg)
           | Some (p, reg') \<Rightarrow>
               (Ok (change_new rfc3339 b3 target (mp_state p) (mp_state p) reason (cm_actor meta) (cm_at meta)
                      (cm_audit_ref meta)), reg')))"

definition profile_sort_key :: "UserMonitoringProfile \<Rightarrow> string \<times> string \<times> string \<times> 32 word" where
  "profile_sort_key p =
     (mt_kind (mp_target p), to_ascii_lowercase (mt_value (mp_target p)), to_ascii_lowercase (mp_user_id p), mp_version p)"

text \<open>\<open>json\<close> serialises the profiles; a failure leaves no bytes.\<close>

definition monitoring_digest :: "(UserMonitoringProfile list \<Rightarrow> bytes option) \<Rightarrow> (bytes \<Rightarrow> string) \<Rightarrow> MonitoringRegistry \<Rightarrow> string" where
  "monitoring_digest json b3 reg =
     (let active = sort_key profile_sort_key (filter (\<lambda>p. is_active_state (mp_state p)) reg)
      in ''mon1:'' @ take 32 (b3 (case json active of Some b \<Rightarrow> b | None \<Rightarrow> [])))"

end
