(* ===== verification/Monitor_Properties.thy ===== *)
theory Monitor_Properties
  imports Monitor "HOL-Library.Sublist"
begin

text \<open>
  Properties of monitoring: what the multiplier of an access is, that the log of changes tells the history of the registry,
  and what restricting a scope does.
\<close>

section \<open>The strongest profile\<close>

lemma multiplier_mono: "ms_rank a \<le> ms_rank b \<Longrightarrow> sensitivity_multiplier a \<le> sensitivity_multiplier b"
  by (cases a; cases b) simp_all

lemma multiplier_neutral: "100 \<le> sensitivity_multiplier s"
  by (cases s) simp_all

lemma strongest_multiplier:
  "(case strongest ps of None \<Rightarrow> 100 | Some p \<Rightarrow> sensitivity_multiplier (mp_state p)) =
   Max (insert 100 ((\<lambda>p. sensitivity_multiplier (mp_state p)) ` set ps))"
proof (cases "strongest ps")
  case None
  then show ?thesis by (simp add: strongest_def)
next
  case (Some p)
  have "mp \<in> set ps \<Longrightarrow> ms_rank (mp_state mp) \<le> ms_rank (mp_state p)" for mp
    using max_by_key_Some(2) [OF Some [unfolded strongest_def]] by (fastforce simp: strongest_key_def less_eq_prod_def)
  then show ?thesis
    using Some max_by_key_Some(1) [OF Some [unfolded strongest_def]] multiplier_mono multiplier_neutral
    by (auto intro!: Max_eqI [symmetric])
qed

section \<open>Mutations\<close>

lemma update_first_Some:
  "update_first t f reg = Some (p, reg') \<Longrightarrow> mp_target p = t \<and> (\<exists>xs ys. reg = xs @ p # ys \<and> reg' = xs @ f p # ys)"
proof (induction reg arbitrary: reg')
  case (Cons q reg)
  show ?case
  proof (cases "mp_target q = t")
    case True
    with Cons.prems show ?thesis by (auto intro: exI [of _ "[]"])
  next
    case False
    with Cons.prems obtain r where r: "update_first t f reg = Some (p, r)" "reg' = q # r" by auto
    from Cons.IH [OF r(1)] obtain xs ys where "mp_target p = t" "reg = xs @ p # ys" "r = xs @ f p # ys" by blast
    with r(2) show ?thesis by (intro conjI exI [of _ "q # xs"] exI [of _ ys]) simp_all
  qed
qed simp

text \<open>One change of the registry, as its record describes it.\<close>

definition started :: "MonitoringRegistry \<Rightarrow> MonitoringChange \<Rightarrow> MonitoringRegistry \<Rightarrow> bool" where
  "started reg c reg' \<longleftrightarrow>
     (\<exists>p. reg' = reg @ [p] \<and> mc_target c = mp_target p \<and> mp_target p \<notin> mp_target ` set reg \<and> mc_from_state c = MS_Normal \<and>
          mc_to_state c = mp_state p \<and> suffix [mc_audit_ref c] (mp_audit_refs p))"

definition changed :: "MonitoringRegistry \<Rightarrow> MonitoringChange \<Rightarrow> MonitoringRegistry \<Rightarrow> bool" where
  "changed reg c reg' \<longleftrightarrow>
     (\<exists>xs p p' ys. reg = xs @ p # ys \<and> reg' = xs @ p' # ys \<and> mc_target c = mp_target p \<and> mp_target p' = mp_target p \<and>
          mc_from_state c = mp_state p \<and> mc_to_state c = mp_state p' \<and>
          mp_audit_refs p' = mp_audit_refs p @ [mc_audit_ref c] \<and> mp_version p' = mp_version p + 1)"

inductive mon_step :: "(int \<Rightarrow> string) \<Rightarrow> (bytes \<Rightarrow> string) \<Rightarrow> MonitoringRegistry \<Rightarrow> MonitoringChange \<Rightarrow> MonitoringRegistry \<Rightarrow> bool"
  for rfc3339 b3 where
  start: "start_monitoring rfc3339 b3 profile at audit_ref reg = (Inr c, reg') \<Longrightarrow> mon_step rfc3339 b3 reg c reg'"
| update: "monitoring_update rfc3339 b3 target st reason meta reg = (Inr c, reg') \<Longrightarrow> mon_step rfc3339 b3 reg c reg'"
| stop: "stop_monitoring rfc3339 b3 target reason meta reg = (Inr c, reg') \<Longrightarrow> mon_step rfc3339 b3 reg c reg'"
| scope: "restrict_scope rfc3339 b3 target apps res reason meta reg = (Inr c, reg') \<Longrightarrow> mon_step rfc3339 b3 reg c reg'"

lemma update_first_changed:
  assumes "update_first t f reg = Some (p, reg')"
    and "mp_target (f p) = mp_target p" "mp_audit_refs (f p) = mp_audit_refs p @ [mc_audit_ref c]" "mp_version (f p) = mp_version p + 1"
    and "mc_target c = t" "mc_from_state c = mp_state p" "mc_to_state c = mp_state (f p)"
  shows "changed reg c reg'"
proof -
  from update_first_Some [OF assms(1)] obtain xs ys where "mp_target p = t" "reg = xs @ p # ys" "reg' = xs @ f p # ys" by blast
  with assms(2-) show ?thesis
    unfolding changed_def by (intro exI [of _ xs] exI [of _ p] exI [of _ "f p"] exI [of _ ys]) simp
qed

lemma update_changed:
  assumes "monitoring_update rfc3339 b3 target st reason meta reg = (Inr c, reg')"
  shows "changed reg c reg' \<and> trim (mc_actor c) \<noteq> []"
proof -
  let ?f = "\<lambda>p. p\<lparr>mp_state := st, mp_reason := reason, mp_version := mp_version p + 1,
                   mp_audit_refs := mp_audit_refs p @ [cm_audit_ref meta]\<rparr>"
  obtain p where p: "update_first target ?f reg = Some (p, reg')" "trim (cm_actor meta) \<noteq> []"
      "c = change_new rfc3339 b3 target (mp_state p) st reason (cm_actor meta) (cm_at meta) (cm_audit_ref meta)"
    using assms by (auto simp: monitoring_update_def require_actor_def split: if_splits option.splits)
  with update_first_changed [OF p(1), of c] show ?thesis by (simp add: change_new_def Let_def)
qed

lemma scope_changed:
  assumes "restrict_scope rfc3339 b3 target apps res reason meta reg = (Inr c, reg')"
  shows "changed reg c reg' \<and> trim (mc_actor c) \<noteq> []"
proof -
  let ?f = "\<lambda>p. p\<lparr>mp_application_scope := extend_dedup (mp_application_scope p) apps,
                   mp_resource_scope := extend_dedup (mp_resource_scope p) res, mp_reason := reason,
                   mp_version := mp_version p + 1, mp_audit_refs := mp_audit_refs p @ [cm_audit_ref meta]\<rparr>"
  obtain p where p: "update_first target ?f reg = Some (p, reg')" "trim (cm_actor meta) \<noteq> []"
      "c = change_new rfc3339 b3 target (mp_state p) (mp_state p) reason (cm_actor meta) (cm_at meta) (cm_audit_ref meta)"
    using assms by (auto simp: restrict_scope_def require_actor_def split: if_splits option.splits)
  with update_first_changed [OF p(1), of c] show ?thesis by (simp add: change_new_def Let_def)
qed

lemma start_started:
  assumes "start_monitoring rfc3339 b3 p at audit_ref reg = (Inr c, reg')"
  shows "started reg c reg' \<and> trim (mc_actor c) \<noteq> []"
proof -
  let ?p = "p\<lparr>mp_version := max (mp_version p) 1, mp_audit_refs := mp_audit_refs p @ [audit_ref]\<rparr>"
  have "\<not> list_ex (\<lambda>q. mp_target q = mp_target p) reg" "trim (mp_created_by p) \<noteq> []" "reg' = reg @ [?p]"
      "c = change_new rfc3339 b3 (mp_target p) MS_Normal (mp_state p) (mp_reason p) (mp_created_by p) at audit_ref"
    using assms by (auto simp: start_monitoring_def Let_def split: if_splits)
  moreover from this(1) have "mp_target p \<notin> mp_target ` set reg" unfolding list_ex_iff by (metis imageE)
  ultimately show ?thesis
    by (auto simp: started_def change_new_def Let_def suffix_def)
qed

lemma mon_step_cases:
  "mon_step rfc3339 b3 reg c reg' \<Longrightarrow> (started reg c reg' \<or> changed reg c reg') \<and> trim (mc_actor c) \<noteq> []"
  by (erule mon_step.cases) (auto simp: stop_monitoring_def dest: start_started update_changed scope_changed)

inductive mon_run :: "(int \<Rightarrow> string) \<Rightarrow> (bytes \<Rightarrow> string) \<Rightarrow> MonitoringChange list \<Rightarrow> MonitoringRegistry \<Rightarrow> bool"
  for rfc3339 b3 where
  empty: "mon_run rfc3339 b3 [] []"
| more: "mon_run rfc3339 b3 log reg \<Longrightarrow> mon_step rfc3339 b3 reg c reg' \<Longrightarrow> mon_run rfc3339 b3 (log @ [c]) reg'"

text \<open>The history of a target in a log, whether it is a chain of states, and the state it ends in.\<close>

definition hist :: "MonitoringTarget \<Rightarrow> MonitoringChange list \<Rightarrow> MonitoringChange list" where
  "hist t log = filter (\<lambda>c. mc_target c = t) log"

fun chained :: "MonitoringState \<Rightarrow> MonitoringChange list \<Rightarrow> bool" where
  "chained s [] = True"
| "chained s (c # cs) \<longleftrightarrow> mc_from_state c = s \<and> chained (mc_to_state c) cs"

definition end_state :: "MonitoringChange list \<Rightarrow> MonitoringState" where
  "end_state cs = (if cs = [] then MS_Normal else mc_to_state (last cs))"

lemma chained_snoc:
  "chained s (cs @ [c]) \<longleftrightarrow> chained s cs \<and> mc_from_state c = (if cs = [] then s else mc_to_state (last cs))"
  by (induction cs arbitrary: s) auto

definition told :: "MonitoringChange list \<Rightarrow> UserMonitoringProfile \<Rightarrow> bool" where
  "told log p \<longleftrightarrow>
     mp_state p = end_state (hist (mp_target p) log) \<and> suffix (map mc_audit_ref (hist (mp_target p) log)) (mp_audit_refs p)"

definition log_inv :: "MonitoringChange list \<Rightarrow> MonitoringRegistry \<Rightarrow> bool" where
  "log_inv log reg \<longleftrightarrow>
     distinct (map mp_target reg) \<and> mc_target ` set log = mp_target ` set reg \<and>
     (\<forall>t. chained MS_Normal (hist t log)) \<and> (\<forall>p \<in> set reg. told log p) \<and> (\<forall>c \<in> set log. trim (mc_actor c) \<noteq> [])"

lemma told_other: "mc_target c \<noteq> mp_target p \<Longrightarrow> told (log @ [c]) p = told log p"
  by (simp add: told_def hist_def)

lemma hist_fresh: "t \<notin> mc_target ` set log \<Longrightarrow> hist t log = []"
  by (auto simp: hist_def filter_empty_conv)

lemma log_inv_started:
  assumes "log_inv log reg" "started reg c reg'" "trim (mc_actor c) \<noteq> []"
  shows "log_inv (log @ [c]) reg'"
proof -
  obtain p where p: "reg' = reg @ [p]" "mc_target c = mp_target p" "mp_target p \<notin> mp_target ` set reg" "mc_from_state c = MS_Normal"
      "mc_to_state c = mp_state p" "suffix [mc_audit_ref c] (mp_audit_refs p)"
    using assms(2) by (auto simp: started_def)
  have fresh: "hist (mp_target p) log = []" using assms(1) p(3) by (intro hist_fresh) (simp add: log_inv_def)
  have "told (log @ [c]) p" using fresh p by (simp add: told_def hist_def end_state_def)
  moreover have "told (log @ [c]) q" if "q \<in> set reg" for q
    using that assms(1) p(2,3) by (subst told_other) (auto simp: log_inv_def)
  moreover have "chained MS_Normal (hist t (log @ [c]))" for t
    using assms(1) fresh p(2,4) by (cases "t = mp_target p") (simp_all add: hist_def log_inv_def)
  ultimately show ?thesis using assms(1,3) p(1-3) by (auto simp: log_inv_def)
qed

lemma log_inv_changed:
  assumes "log_inv log reg" "changed reg c reg'" "trim (mc_actor c) \<noteq> []"
  shows "log_inv (log @ [c]) reg'"
proof -
  obtain xs p p' ys where p: "reg = xs @ p # ys" "reg' = xs @ p' # ys" "mc_target c = mp_target p" "mp_target p' = mp_target p"
      "mc_from_state c = mp_state p" "mc_to_state c = mp_state p'" "mp_audit_refs p' = mp_audit_refs p @ [mc_audit_ref c]"
    using assms(2) by (auto simp: changed_def)
  have old: "told log p" "distinct (map mp_target reg)" using assms(1) p(1) by (simp_all add: log_inv_def)
  have ne: "hist (mp_target p) log \<noteq> []"
  proof -
    have "mp_target p \<in> mc_target ` set log" using assms(1) p(1) by (simp add: log_inv_def)
    then show ?thesis by (force simp: hist_def filter_empty_conv)
  qed
  have "told (log @ [c]) p'"
    using old(1) p by (auto simp: told_def hist_def end_state_def)
  moreover have "told (log @ [c]) q" if "q \<in> set xs \<union> set ys" for q
    using that assms(1) p old(2) by (subst told_other) (auto simp: log_inv_def)
  moreover have "chained MS_Normal (hist t (log @ [c]))" for t
    using assms(1) old(1) ne p(3,5)
    by (cases "t = mp_target p") (auto simp: hist_def log_inv_def chained_snoc told_def end_state_def)
  moreover have "mc_target ` set (log @ [c]) = mp_target ` set reg'" using assms(1) p by (auto simp: log_inv_def)
  ultimately show ?thesis using assms(1,3) p by (auto simp: log_inv_def)
qed

lemma mon_run_inv: "mon_run rfc3339 b3 log reg \<Longrightarrow> log_inv log reg"
proof (induction rule: mon_run.induct)
  case empty
  show ?case by (simp add: log_inv_def hist_def)
next
  case (more log reg c reg')
  then show ?case using mon_step_cases [OF more(2)] log_inv_started log_inv_changed by blast
qed


section \<open>Scopes\<close>

lemma extend_loop_folded:
  "set (map to_ascii_lowercase acc) = set seen \<Longrightarrow>
   set (map to_ascii_lowercase (extend_dedup_loop seen acc add)) = set (map to_ascii_lowercase (acc @ add))"
  by (induction seen acc add rule: extend_dedup_loop.induct) (auto simp: Let_def)

lemma extend_folded:
  "to_ascii_lowercase ` set (extend_dedup scope add) = to_ascii_lowercase ` set scope \<union> to_ascii_lowercase ` set add"
  using extend_loop_folded [of scope "map to_ascii_lowercase scope" add] by (simp add: extend_dedup_def image_Un)

lemma touches_folded:
  "list_ex (\<lambda>p. access_touches p r objects) scope \<longleftrightarrow>
   (\<exists>k \<in> to_ascii_lowercase ` set scope. access_touches k r objects)"
proof -
  have "mo_pattern_matches (to_ascii_lowercase p) = mo_pattern_matches p" for p
    by (intro ext) (simp add: mo_pattern_matches_def to_ascii_lowercase_idem)
  then have "access_touches (to_ascii_lowercase p) r objects = access_touches p r objects" for p
    by (simp add: access_touches_def)
  then show ?thesis by (simp add: list_ex_iff)
qed

lemma application_folded:
  "list_ex (\<lambda>s. eq_ignore_ascii_case s app) scope \<longleftrightarrow> to_ascii_lowercase app \<in> to_ascii_lowercase ` set scope"
  unfolding list_ex_iff eq_ignore_ascii_case_def image_iff by metis

lemma extend_empty: "extend_dedup scope add = [] \<longleftrightarrow> scope = [] \<and> add = []"
  using extend_folded [of scope add] by (metis Un_empty image_is_empty set_empty)

lemma resource_scope_extend:
  "resource_in_scope (extend_dedup scope add) r objects \<longleftrightarrow>
     (if scope = [] then resource_in_scope add r objects
      else resource_in_scope scope r objects \<or> add \<noteq> [] \<and> resource_in_scope add r objects)"
  by (cases "add = []") (simp_all add: resource_in_scope_def extend_empty touches_folded extend_folded bex_Un)

lemma application_scope_extend:
  "application_in_scope (extend_dedup scope add) r \<longleftrightarrow>
     (if scope = [] then application_in_scope add r
      else application_in_scope scope r \<or> add \<noteq> [] \<and> application_in_scope add r)"
  by (cases "add = []") (simp_all add: application_in_scope_def opt_is_def extend_empty application_folded extend_folded
        split: option.splits)

section \<open>An example\<close>

definition ex_watch :: UserMonitoringProfile where
  "ex_watch = profile_new (MT_User ''Ann'') MS_Watched 0 ''chief''"

definition ex_meta :: ChangeMeta where
  "ex_meta = \<lparr>cm_actor = ''chief'', cm_at = 5, cm_audit_ref = ''a2''\<rparr>"

definition ex_rfc :: "int \<Rightarrow> string" where
  "ex_rfc t = ''t''"

definition ex_digest :: "bytes \<Rightarrow> string" where
  "ex_digest b = replicate 16 CHR ''0''"

definition ex_started :: "(MonitoringError + MonitoringChange) \<times> MonitoringRegistry" where
  "ex_started = start_monitoring ex_rfc ex_digest ex_watch 1 ''a1'' []"

definition ex_stopped :: "(MonitoringError + MonitoringChange) \<times> MonitoringRegistry" where
  "ex_stopped = stop_monitoring ex_rfc ex_digest (MT_User ''Ann'') [] ex_meta (snd ex_started)"

lemma ex_watch_run: "mon_run ex_rfc ex_digest ([] @ [projr (fst ex_started)] @ [projr (fst ex_stopped)]) (snd ex_stopped)"
proof -
  have "\<not> isl (fst ex_started)" "\<not> isl (fst ex_stopped)"
    by (simp_all add: ex_stopped_def ex_started_def stop_monitoring_def monitoring_update_def start_monitoring_def require_actor_def
        ex_meta_def ex_watch_def profile_new_def trim_graphic graphic_def Let_def)
  then have "ex_started = (Inr (projr (fst ex_started)), snd ex_started)" "ex_stopped = (Inr (projr (fst ex_stopped)), snd ex_stopped)"
    by (simp_all add: prod_eq_iff)
  then have "mon_step ex_rfc ex_digest [] (projr (fst ex_started)) (snd ex_started)"
      "mon_step ex_rfc ex_digest (snd ex_started) (projr (fst ex_stopped)) (snd ex_stopped)"
    unfolding ex_started_def ex_stopped_def by (auto intro: mon_step.start mon_step.stop)
  then show ?thesis by (metis append.assoc mon_run.empty mon_run.more)
qed

section \<open>Properties\<close>

text \<open>
  C31. Monitoring only raises attention. The multiplier of an access, and of a user, is the greatest of the neutral
  multiplier and those of the profiles that apply at that moment; so it is never below neutral, no profile lowers what
  another one raised, and adding a profile never lowers it.
\<close>

theorem monitoring_only_raises_attention:
  "multiplier_for_access reg r objects now =
     Max (insert 100 ((\<lambda>p. sensitivity_multiplier (mp_state p)) ` {p \<in> set reg. applies_to_access p r objects now})) \<and>
   multiplier_for_user reg u now =
     Max (insert 100 ((\<lambda>p. sensitivity_multiplier (mp_state p)) ` {p \<in> set reg. applies_to_user p u now})) \<and>
   100 \<le> multiplier_for_access reg r objects now \<and>
   multiplier_for_access reg r objects now \<le> multiplier_for_access (reg @ extra) r objects now"
proof -
  have acc: "multiplier_for_access rg r objects now =
      Max (insert 100 ((\<lambda>p. sensitivity_multiplier (mp_state p)) ` {p \<in> set rg. applies_to_access p r objects now}))" for rg
    using strongest_multiplier [of "filter (\<lambda>p. applies_to_access p r objects now) rg"]
    by (simp add: multiplier_for_access_def active_for_access_def)
  have usr: "multiplier_for_user reg u now =
      Max (insert 100 ((\<lambda>p. sensitivity_multiplier (mp_state p)) ` {p \<in> set reg. applies_to_user p u now}))"
    using strongest_multiplier [of "filter (\<lambda>p. applies_to_user p u now) reg"]
    by (simp add: multiplier_for_user_def active_for_user_def)
  have "multiplier_for_access reg r objects now \<le> multiplier_for_access (reg @ extra) r objects now"
    unfolding acc by (rule Max_mono) auto
  moreover have "100 \<le> multiplier_for_access reg r objects now" unfolding acc by (rule Max_ge) simp_all
  ultimately show ?thesis using acc usr by blast
qed

text \<open>
  C30. No change is anonymous and the log tells all. In a registry that grew from nothing by the four mutations, every
  target is watched by one profile; every logged change names an actor; the changes of a target form one chain that
  begins at normal, each from the state the one before left; a profile's state is the one its target's last change left,
  and its ledger references end with those of its changes in order. Once the last change retired a target, no
  access and no user resolves to its profile.
\<close>

theorem monitoring_log_is_faithful:
  assumes "mon_run rfc3339 b3 log reg"
  shows "distinct (map mp_target reg) \<and> mp_target ` set reg = mc_target ` set log \<and> (\<forall>c \<in> set log. trim (mc_actor c) \<noteq> []) \<and>
    chained MS_Normal (hist t log) \<and>
    (\<forall>p \<in> set reg. mp_state p = end_state (hist (mp_target p) log) \<and>
       suffix (map mc_audit_ref (hist (mp_target p) log)) (mp_audit_refs p)) \<and>
    (\<forall>p r objects u now. end_state (hist (mp_target p) log) = MS_Retired \<longrightarrow>
       active_for_access reg r objects now \<noteq> Some p \<and> active_for_user reg u now \<noteq> Some p)"
proof -
  have inv: "log_inv log reg" by (rule mon_run_inv [OF assms])
  have live: "p \<in> set reg \<and> mp_state p \<noteq> MS_Retired"
    if "active_for_access reg r objects now = Some p \<or> active_for_user reg u now = Some p" for p r objects u now
    using that by (auto simp: active_for_access_def active_for_user_def strongest_def applies_to_access_def applies_to_user_def
        profile_is_active_def is_active_state_def dest!: max_by_key_Some(1))
  show ?thesis using inv live unfolding log_inv_def told_def by metis
qed

theorem monitoring_log_is_faithful_witness: "distinct (map mp_target (snd ex_stopped))"
  using monitoring_log_is_faithful [OF ex_watch_run] by blast

text \<open>
  Restricting a scope narrows where a profile applies only while the scope is empty. A profile that already has a
  scope applies, after the restriction, wherever it applied before and also in the added applications or resources.
\<close>

lemma restriction_widens_a_scope:
  assumes "restrict_scope rfc3339 b3 target apps res reason meta reg = (Inr c, reg')"
  shows "\<exists>xs p p' ys. reg = xs @ p # ys \<and> reg' = xs @ p' # ys \<and> mp_target p = target \<and>
    (\<forall>r objects now. applies_to_access p' r objects now \<longleftrightarrow>
       profile_is_active p now \<and> matches_access target r objects \<and>
       (if mp_application_scope p = [] then application_in_scope apps r
        else application_in_scope (mp_application_scope p) r \<or> apps \<noteq> [] \<and> application_in_scope apps r) \<and>
       (if mp_resource_scope p = [] then resource_in_scope res r objects
        else resource_in_scope (mp_resource_scope p) r objects \<or> res \<noteq> [] \<and> resource_in_scope res r objects))"
proof -
  let ?f = "\<lambda>p. p\<lparr>mp_application_scope := extend_dedup (mp_application_scope p) apps,
                   mp_resource_scope := extend_dedup (mp_resource_scope p) res, mp_reason := reason,
                   mp_version := mp_version p + 1, mp_audit_refs := mp_audit_refs p @ [cm_audit_ref meta]\<rparr>"
  obtain p where p: "update_first target ?f reg = Some (p, reg')"
    using assms by (auto simp: restrict_scope_def require_actor_def split: if_splits option.splits)
  from update_first_Some [OF p] obtain xs ys where "mp_target p = target" "reg = xs @ p # ys" "reg' = xs @ ?f p # ys" by blast
  then show ?thesis
    by (intro exI [of _ xs] exI [of _ p] exI [of _ "?f p"] exI [of _ ys])
       (simp add: applies_to_access_def profile_is_active_def resource_scope_extend application_scope_extend)
qed

lemma restriction_widens_a_scope_example:
  "\<exists>p'. snd (restrict_scope ex_rfc ex_digest (MT_User ''Ann'') [''erp''] [] [] ex_meta [with_application_scope [''crm''] ex_watch]) = [p'] \<and>
     (\<forall>(r :: nat AppAuditRecord) objects now. applies_to_access p' r objects now \<longleftrightarrow>
        profile_is_active ex_watch now \<and> matches_access (MT_User ''Ann'') r objects \<and>
        (application_in_scope [''crm''] r \<or> application_in_scope [''erp''] r))"
proof -
  let ?p = "with_application_scope [''crm''] ex_watch"
  let ?x = "restrict_scope ex_rfc ex_digest (MT_User ''Ann'') [''erp''] [] [] ex_meta [?p]"
  have "\<not> isl (fst ?x)"
    by (simp add: restrict_scope_def require_actor_def ex_meta_def ex_watch_def with_application_scope_def profile_new_def
        trim_graphic graphic_def)
  then have "?x = (Inr (projr (fst ?x)), snd ?x)" by (simp add: prod_eq_iff)
  from restriction_widens_a_scope [where ?'a = nat, OF this] obtain p' where "snd ?x = [p']"
      "\<forall>(r :: nat AppAuditRecord) objects now. applies_to_access p' r objects now \<longleftrightarrow>
         profile_is_active ?p now \<and> matches_access (MT_User ''Ann'') r objects \<and>
         (if mp_application_scope ?p = [] then application_in_scope [''erp''] r
          else application_in_scope (mp_application_scope ?p) r \<or> [''erp''] \<noteq> [] \<and> application_in_scope [''erp''] r) \<and>
         (if mp_resource_scope ?p = [] then resource_in_scope [] r objects
          else resource_in_scope (mp_resource_scope ?p) r objects \<or> [] \<noteq> [] \<and> resource_in_scope [] r objects)"
    by (auto simp: Cons_eq_append_conv)
  then show ?thesis
    by (simp add: with_application_scope_def ex_watch_def profile_new_def profile_is_active_def resource_in_scope_def)
qed

end
