(* ===== verification/Case_Records.thy ===== *)
theory Case_Records
  imports Env_Store
begin

text \<open>
  What the agent predicted, what an analyst decided and how an incident ended: the record types and the trust resolver of
  \<open>garmr-core/src/decision.rs\<close> and their append-only tables of \<open>garmr-store/src/state/records.rs\<close>. An answer of the
  database is an argument: \<open>None\<close>, or \<open>Some\<close> the text of the error; a transaction that fails leaves its table alone. A row
  that does not decode is \<open>None\<close>. The type \<open>'f\<close> stands for \<open>f32\<close>; instants are integers (nanoseconds).
\<close>

datatype Error = StoreError string | ConfigError string

type_synonym db_answer = "string option"

definition db_run :: "db_answer \<Rightarrow> (Error + 'a) \<Rightarrow> Error + 'a" where
  "db_run db r = (case db of Some m \<Rightarrow> Err (StoreError m) | None \<Rightarrow> r)"

lemma db_run_Ok [simp]: "db_run db r = Ok x \<longleftrightarrow> db = None \<and> r = Ok x"
  by (cases db) (simp_all add: db_run_def)

lemma db_run_None [simp]: "db_run None r = r"
  by (simp add: db_run_def)

section \<open>Record types\<close>

datatype EvidenceKind = VK_Event | VK_Case | VK_Transcript | VK_Entity | VK_External

record EvidenceRef =
  evr_kind :: EvidenceKind
  evr_id :: string

record ModelIdentity =
  mi_name :: string
  mi_artifact_digest :: string

record RuntimeIdentity =
  ri_name :: string
  ri_version :: string

record PromptRef =
  pr_name :: string
  pr_version :: string
  pr_digest :: string

record ProposedAction =
  pa_kind :: string
  pa_arg :: string

record TokenUsage =
  tu_prompt :: u32
  tu_completion :: u32
  tu_total :: u32

datatype SchemaValidation = SV_Valid | SV_Defaulted "string list" | SV_Invalid string

record 'f AgentPrediction =
  pn_prediction_id :: string
  pn_case_id :: string
  pn_model :: ModelIdentity
  pn_runtime :: RuntimeIdentity
  pn_prompt :: PromptRef
  pn_toolset_digest :: string
  pn_detector_versions :: "string list"
  pn_evidence :: "EvidenceRef list"
  pn_disposition :: Disposition
  pn_severity :: u8
  pn_model_confidence :: 'f
  pn_calibrated_confidence :: "'f option"
  pn_rationale :: string
  pn_proposed_actions :: "ProposedAction list"
  pn_tokens :: TokenUsage
  pn_latency_ms :: u64
  pn_cost_micro_usd :: u64
  pn_stop_reason :: string
  pn_schema :: SchemaValidation
  pn_lesson_set_version :: string
  pn_created_at :: int
  pn_audit_id :: "string option"

record AnalystDecision =
  ad_decision_id :: string
  ad_case_id :: string
  ad_principal :: string
  ad_disposition :: Disposition
  ad_severity :: u8
  ad_reason_codes :: "string list"
  ad_narrative :: string
  ad_accepted_evidence :: "EvidenceRef list"
  ad_rejected_evidence :: "EvidenceRef list"
  ad_prediction_correct :: "bool option"
  ad_important_evidence_missed :: "bool option"
  ad_proposed_action_justified :: "bool option"
  ad_supersedes :: "string option"
  ad_created_at :: int
  ad_audit_id :: "string option"

datatype ResolutionKind = RK_Confirmed | RK_FalsePositive | RK_Contained | RK_Benign | RK_Duplicate

datatype OutcomeSource = OS_HumanReview | OS_ExternalIr | OS_Automated

record IncidentOutcome =
  oc_outcome_id :: string
  oc_case_id :: "string option"
  oc_resolution :: ResolutionKind
  oc_source :: OutcomeSource
  oc_disposition :: Disposition
  oc_severity :: u8
  oc_narrative :: string
  oc_supersedes :: "string option"
  oc_created_at :: int
  oc_audit_id :: "string option"

datatype FeedbackLabel = FL_Unspecified | FL_Helpful | FL_Unhelpful | FL_Correction

record FeedbackRecord =
  fb_feedback_id :: string
  fb_case_id :: "string option"
  fb_prediction_id :: "string option"
  fb_principal :: string
  fb_label :: FeedbackLabel
  fb_note :: string
  fb_created_at :: int
  fb_audit_id :: "string option"

record FalseNegativeRecord =
  fnr_fn_id :: string
  fnr_case_id :: "string option"
  fnr_principal :: string
  fnr_discovered_via :: string
  fnr_disposition :: Disposition
  fnr_severity :: u8
  fnr_narrative :: string
  fnr_evidence :: "EvidenceRef list"
  fnr_created_at :: int
  fnr_audit_id :: "string option"

datatype MistakeCategory =
  MC_Unspecified | MC_MissedEvidence | MC_MisinterpretedEvidence | MC_UnnecessaryTools | MC_MissingTools
  | MC_WrongAssumption | MC_Unknown

record MistakeRecord =
  mk_mistake_id :: string
  mk_case_id :: "string option"
  mk_principal :: string
  mk_category :: MistakeCategory
  mk_narrative :: string
  mk_created_at :: int
  mk_audit_id :: "string option"

section \<open>The trust resolver\<close>

datatype TrustSource =
  TS_Outcome | TS_AnalystDecision | TS_DiscountedPrediction | TS_Unresolved | TS_UnresolvedSelfGenerated

record TrustedJudgement =
  tj_disposition :: "Disposition option"
  tj_severity :: "u8 option"
  tj_source :: TrustSource

record 'f CaseDecisionView =
  dv_case_id :: string
  dv_predictions :: "'f AgentPrediction list"
  dv_decisions :: "AnalystDecision list"
  dv_outcomes :: "IncidentOutcome list"
  dv_false_negatives :: "FalseNegativeRecord list"

definition current_prediction :: "'f AgentPrediction list \<Rightarrow> 'f AgentPrediction option" where
  "current_prediction ps = max_by_key (\<lambda>p. (pn_created_at p, pn_prediction_id p)) ps"

definition current_decision :: "AnalystDecision list \<Rightarrow> AnalystDecision option" where
  "current_decision ds =
     max_by_key (\<lambda>d. (ad_created_at d, ad_decision_id d))
       (filter (\<lambda>d. \<not> list_ex (\<lambda>e. ad_supersedes e = Some (ad_decision_id d)) ds) ds)"

definition current_outcome :: "IncidentOutcome list \<Rightarrow> IncidentOutcome option" where
  "current_outcome ds =
     max_by_key (\<lambda>d. (oc_created_at d, oc_outcome_id d))
       (filter (\<lambda>d. \<not> list_ex (\<lambda>e. oc_supersedes e = Some (oc_outcome_id d)) ds) ds)"

definition resolve_trusted ::
  "'f CaseDecisionView \<Rightarrow> Disposition option \<Rightarrow> u8 option \<Rightarrow> bool \<Rightarrow> TrustedJudgement" where
  "resolve_trusted view shadow shadow_sev is_self_generated =
     (case current_outcome (dv_outcomes view) of
        Some oc \<Rightarrow> \<lparr>tj_disposition = Some (oc_disposition oc), tj_severity = Some (oc_severity oc), tj_source = TS_Outcome\<rparr>
      | None \<Rightarrow>
     (case current_decision (dv_decisions view) of
        Some d \<Rightarrow> \<lparr>tj_disposition = Some (ad_disposition d), tj_severity = Some (ad_severity d),
                   tj_source = TS_AnalystDecision\<rparr>
      | None \<Rightarrow>
     (case current_prediction (dv_predictions view) of
        Some p \<Rightarrow> \<lparr>tj_disposition = Some (pn_disposition p), tj_severity = Some (pn_severity p),
                   tj_source = TS_DiscountedPrediction\<rparr>
      | None \<Rightarrow>
     (case shadow of
        Some disp \<Rightarrow> \<lparr>tj_disposition = Some disp, tj_severity = shadow_sev, tj_source = TS_DiscountedPrediction\<rparr>
      | None \<Rightarrow> \<lparr>tj_disposition = None, tj_severity = None,
                 tj_source = (if is_self_generated then TS_UnresolvedSelfGenerated else TS_Unresolved)\<rparr>))))"

section \<open>The tables\<close>

record 'f record_store =
  rs_predictions :: "(string \<times> 'f AgentPrediction option) list"
  rs_decisions :: "(string \<times> AnalystDecision option) list"
  rs_outcomes :: "(string \<times> IncidentOutcome option) list"
  rs_feedback :: "(string \<times> FeedbackRecord option) list"
  rs_false_negatives :: "(string \<times> FalseNegativeRecord option) list"
  rs_mistakes :: "(string \<times> MistakeRecord option) list"

text \<open>\<open>show_nanos\<close> prints the zero-padded nanoseconds of an instant, those of the epoch where they overflow.\<close>

definition rec_key :: "(int \<Rightarrow> string) \<Rightarrow> string \<Rightarrow> int \<Rightarrow> string \<Rightarrow> string" where
  "rec_key show_nanos case_id created_at ident = case_id @ ''|'' @ show_nanos created_at @ ''|'' @ ident"

definition append_bytes ::
  "db_answer \<Rightarrow> string \<Rightarrow> 'v \<Rightarrow> (string \<times> 'v option) list \<Rightarrow> (Error + unit) \<times> (string \<times> 'v option) list" where
  "append_bytes db k v rows =
     (case db of Some m \<Rightarrow> (Err (StoreError m), rows) | None \<Rightarrow> (Ok (), tab_put k (Some v) rows))"

definition scan_tolerant :: "db_answer \<Rightarrow> (string \<times> 'v option) list \<Rightarrow> Error + 'v list" where
  "scan_tolerant db rows = db_run db (Ok (row_values rows))"

definition scan_tolerant_limited :: "db_answer \<Rightarrow> (string \<times> 'v option) list \<Rightarrow> nat \<Rightarrow> Error + 'v list" where
  "scan_tolerant_limited db rows limit = db_run db (Ok (take limit (row_values rows)))"

text \<open>The last code point, in UTF-8.\<close>

definition last_char :: string where
  "last_char = [CHR 0xF4, CHR 0x8F, CHR 0xBF, CHR 0xBF]"

definition case_range :: "string \<Rightarrow> (string \<times> 'v) list \<Rightarrow> (string \<times> 'v) list" where
  "case_range case_id rows =
     (let prefix = case_id @ ''|'' in filter (\<lambda>(k, _). prefix \<le> k \<and> k \<le> prefix @ last_char) rows)"

definition scan_case_limited :: "db_answer \<Rightarrow> (string \<times> 'v option) list \<Rightarrow> string \<Rightarrow> nat \<Rightarrow> Error + 'v list" where
  "scan_case_limited db rows case_id limit = db_run db (Ok (take limit (row_values (rev (case_range case_id rows)))))"

definition append_prediction ::
  "(int \<Rightarrow> string) \<Rightarrow> db_answer \<Rightarrow> 'f AgentPrediction \<Rightarrow> 'f record_store \<Rightarrow> (Error + unit) \<times> 'f record_store" where
  "append_prediction show_nanos db p s =
     (let (r, t) = append_bytes db (rec_key show_nanos (pn_case_id p) (pn_created_at p) (pn_prediction_id p)) p (rs_predictions s)
      in (r, s\<lparr>rs_predictions := t\<rparr>))"

definition list_predictions :: "db_answer \<Rightarrow> 'f record_store \<Rightarrow> Error + 'f AgentPrediction list" where
  "list_predictions db s = scan_tolerant db (rs_predictions s)"

definition predictions_for :: "db_answer \<Rightarrow> 'f record_store \<Rightarrow> string \<Rightarrow> Error + 'f AgentPrediction list" where
  "predictions_for db s case_id = db_run db (Ok (row_values (case_range case_id (rs_predictions s))))"

definition append_decision ::
  "(int \<Rightarrow> string) \<Rightarrow> db_answer \<Rightarrow> AnalystDecision \<Rightarrow> 'f record_store \<Rightarrow> (Error + unit) \<times> 'f record_store" where
  "append_decision show_nanos db d s =
     (let (r, t) = append_bytes db (rec_key show_nanos (ad_case_id d) (ad_created_at d) (ad_decision_id d)) d (rs_decisions s)
      in (r, s\<lparr>rs_decisions := t\<rparr>))"

definition list_decisions :: "db_answer \<Rightarrow> 'f record_store \<Rightarrow> Error + AnalystDecision list" where
  "list_decisions db s = scan_tolerant db (rs_decisions s)"

definition decisions_for :: "db_answer \<Rightarrow> 'f record_store \<Rightarrow> string \<Rightarrow> Error + AnalystDecision list" where
  "decisions_for db s case_id =
     (case list_decisions db s of
        Err e \<Rightarrow> Err e
      | Ok ds \<Rightarrow> Ok (sort_key ad_created_at (filter (\<lambda>d. ad_case_id d = case_id) ds)))"

definition append_incident_outcome ::
  "db_answer \<Rightarrow> IncidentOutcome \<Rightarrow> 'f record_store \<Rightarrow> (Error + unit) \<times> 'f record_store" where
  "append_incident_outcome db d s =
     (let (r, t) = append_bytes db (oc_outcome_id d) d (rs_outcomes s) in (r, s\<lparr>rs_outcomes := t\<rparr>))"

definition list_incident_outcomes :: "db_answer \<Rightarrow> 'f record_store \<Rightarrow> Error + IncidentOutcome list" where
  "list_incident_outcomes db s = scan_tolerant db (rs_outcomes s)"

definition outcomes_for_case :: "db_answer \<Rightarrow> 'f record_store \<Rightarrow> string \<Rightarrow> Error + IncidentOutcome list" where
  "outcomes_for_case db s case_id =
     (case list_incident_outcomes db s of
        Err e \<Rightarrow> Err e
      | Ok ds \<Rightarrow> Ok (sort_key oc_created_at (filter (\<lambda>d. oc_case_id d = Some case_id) ds)))"

definition outcomes_for_case_limited ::
  "db_answer \<Rightarrow> 'f record_store \<Rightarrow> string \<Rightarrow> nat \<Rightarrow> Error + IncidentOutcome list" where
  "outcomes_for_case_limited db s case_id limit =
     db_run db (Ok (sort_key oc_created_at
       (take limit (filter (\<lambda>d. oc_case_id d = Some case_id) (row_values (rs_outcomes s))))))"

definition append_feedback :: "db_answer \<Rightarrow> FeedbackRecord \<Rightarrow> 'f record_store \<Rightarrow> (Error + unit) \<times> 'f record_store" where
  "append_feedback db f s = (let (r, t) = append_bytes db (fb_feedback_id f) f (rs_feedback s) in (r, s\<lparr>rs_feedback := t\<rparr>))"

definition append_false_negative ::
  "db_answer \<Rightarrow> FalseNegativeRecord \<Rightarrow> 'f record_store \<Rightarrow> (Error + unit) \<times> 'f record_store" where
  "append_false_negative db f s =
     (let (r, t) = append_bytes db (fnr_fn_id f) f (rs_false_negatives s) in (r, s\<lparr>rs_false_negatives := t\<rparr>))"

definition list_false_negatives :: "db_answer \<Rightarrow> 'f record_store \<Rightarrow> Error + FalseNegativeRecord list" where
  "list_false_negatives db s = scan_tolerant db (rs_false_negatives s)"

definition list_false_negatives_limited :: "db_answer \<Rightarrow> 'f record_store \<Rightarrow> nat \<Rightarrow> Error + FalseNegativeRecord list" where
  "list_false_negatives_limited db s limit = scan_tolerant_limited db (rs_false_negatives s) limit"

definition false_negatives_for_case :: "db_answer \<Rightarrow> 'f record_store \<Rightarrow> string \<Rightarrow> Error + FalseNegativeRecord list" where
  "false_negatives_for_case db s case_id =
     (case list_false_negatives db s of Err e \<Rightarrow> Err e | Ok fs \<Rightarrow> Ok (filter (\<lambda>f. fnr_case_id f = Some case_id) fs))"

definition false_negatives_for_case_limited ::
  "db_answer \<Rightarrow> 'f record_store \<Rightarrow> string \<Rightarrow> nat \<Rightarrow> Error + FalseNegativeRecord list" where
  "false_negatives_for_case_limited db s case_id limit =
     db_run db (Ok (take limit (filter (\<lambda>f. fnr_case_id f = Some case_id) (row_values (rs_false_negatives s)))))"

definition append_mistake :: "db_answer \<Rightarrow> MistakeRecord \<Rightarrow> 'f record_store \<Rightarrow> (Error + unit) \<times> 'f record_store" where
  "append_mistake db m s = (let (r, t) = append_bytes db (mk_mistake_id m) m (rs_mistakes s) in (r, s\<lparr>rs_mistakes := t\<rparr>))"

definition list_mistakes :: "db_answer \<Rightarrow> 'f record_store \<Rightarrow> Error + MistakeRecord list" where
  "list_mistakes db s = scan_tolerant db (rs_mistakes s)"

text \<open>The cap is \<open>GARMR_CASE_VIEW_MAX\<close> where it is set to a positive number, else 1000. Each of the four reads may fail.\<close>

definition case_view_cap :: "nat option \<Rightarrow> nat" where
  "case_view_cap env = (case env of Some n \<Rightarrow> if 0 < n then n else 1000 | None \<Rightarrow> 1000)"

definition case_decision_view ::
  "nat option \<Rightarrow> (nat \<Rightarrow> db_answer) \<Rightarrow> 'f record_store \<Rightarrow> string \<Rightarrow> Error + 'f CaseDecisionView" where
  "case_decision_view env db s case_id =
     (let cap = case_view_cap env in
      case scan_case_limited (db 0) (rs_predictions s) case_id cap of Err e \<Rightarrow> Err e | Ok ps \<Rightarrow>
      (case scan_case_limited (db 1) (rs_decisions s) case_id cap of Err e \<Rightarrow> Err e | Ok ds \<Rightarrow>
      (case outcomes_for_case_limited (db 2) s case_id cap of Err e \<Rightarrow> Err e | Ok ocs \<Rightarrow>
      (case false_negatives_for_case_limited (db 3) s case_id cap of Err e \<Rightarrow> Err e | Ok fns \<Rightarrow>
         Ok \<lparr>dv_case_id = case_id, dv_predictions = rev ps, dv_decisions = rev ds, dv_outcomes = ocs,
             dv_false_negatives = fns\<rparr>))))"

end
