(* ===== verification/Case_Work.thy ===== *)
theory Case_Work
  imports Case_Records
begin

text \<open>
  Cases: detections and the key that folds a burst into one case (\<open>garmr-core/src/detection.rs\<close>), the case and its
  transcript (\<open>case.rs\<close>), the two service-level clocks (\<open>sla.rs\<close>), and the table of cases with its merging write
  (\<open>garmr-store/src/state/cases.rs\<close>). Instants are integers (nanoseconds), the clock is an argument. A table is its rows
  in key order; a row that does not decode is \<open>None\<close>.
\<close>

section \<open>Detections and cases\<close>

record Detection =
  dt_rule_id :: string
  dt_rule_title :: string
  dt_level :: string
  dt_attack :: "string list"
  dt_event :: "int Event"
  dt_observed_at :: int
  dt_realert_secs :: "u64 option"

definition src_ip :: "int Event \<Rightarrow> string option" where
  "src_ip ev = ev_field ev ''src_ip''"

definition or_else :: "'a option \<Rightarrow> 'a option \<Rightarrow> 'a option" where
  "or_else x y = (case x of Some a \<Rightarrow> Some a | None \<Rightarrow> y)"

lemma or_else_simps [simp]: "or_else (Some a) y = Some a" "or_else None y = y" "or_else x None = x"
  by (simp_all add: or_else_def split: option.split)

definition unwrap_or :: "'a option \<Rightarrow> 'a \<Rightarrow> 'a" where
  "unwrap_or x d = (case x of Some a \<Rightarrow> a | None \<Rightarrow> d)"

lemma unwrap_or_simps [simp]: "unwrap_or (Some a) d = a" "unwrap_or None d = d"
  by (simp_all add: unwrap_or_def)

definition dedup_key :: "Detection \<Rightarrow> string" where
  "dedup_key d =
     (let ev = dt_event d;
          principal = unwrap_or (or_else (or_else (src_ip ev) (ev_field ev ''db_user'')) (ev_field ev ''user'')) ''-''
      in dt_rule_id d @ ''|'' @ ev_host ev @ ''|'' @ principal)"

record TranscriptEntry =
  te_at :: int
  te_actor :: string
  te_detail :: string
  te_entry_id :: string

record 'f Verdict =
  ve_disposition :: Disposition
  ve_severity :: u8
  ve_confidence :: 'f
  ve_rationale :: string
  ve_proposed_action :: "string option"

record 'f Case =
  cse_id :: string
  cse_dedup_key :: string
  cse_state :: CaseState
  cse_trigger :: Detection
  cse_event_count :: u64
  cse_opened_at :: int
  cse_updated_at :: int
  cse_transcript :: "TranscriptEntry list"
  cse_verdict :: "'f Verdict option"
  cse_assignee :: "string option"
  cse_tags :: "string list"
  cse_linked_cases :: "string list"
  cse_state_changed_at :: "int option"

definition case_open :: "string \<Rightarrow> Detection \<Rightarrow> 'f Case" where
  "case_open uuid d =
     \<lparr>cse_id = uuid, cse_dedup_key = dedup_key d, cse_state = CS_New, cse_trigger = d, cse_event_count = 1,
      cse_opened_at = dt_observed_at d, cse_updated_at = dt_observed_at d, cse_transcript = [], cse_verdict = None,
      cse_assignee = None, cse_tags = [], cse_linked_cases = [], cse_state_changed_at = Some (dt_observed_at d)\<rparr>"

definition case_bump :: "int \<Rightarrow> 'f Case \<Rightarrow> 'f Case" where
  "case_bump t c = c\<lparr>cse_event_count := cse_event_count c + 1, cse_updated_at := t\<rparr>"

definition case_record :: "string \<Rightarrow> string \<Rightarrow> int \<Rightarrow> 'f Case \<Rightarrow> 'f Case" where
  "case_record actor detail t c =
     c\<lparr>cse_transcript := cse_transcript c @ [\<lparr>te_at = t, te_actor = actor, te_detail = detail, te_entry_id = []\<rparr>],
       cse_updated_at := t\<rparr>"

section \<open>Service-level clocks\<close>

record SlaConfig =
  sl_ack_minutes :: u64
  sl_resolve_minutes :: u64

record SlaStatus =
  ss_ack_deadline :: "int option"
  ss_ack_breached :: bool
  ss_resolve_deadline :: "int option"
  ss_resolve_breached :: bool

text \<open>\<open>Duration::minutes\<close> of a \<open>u64\<close> cast to \<open>i64\<close>. The panic beyond the range of the calendar is not modelled.\<close>

definition minutes :: "u64 \<Rightarrow> int" where
  "minutes m = sint m * 60000000000"

definition sla_status :: "'f Case \<Rightarrow> SlaConfig \<Rightarrow> int \<Rightarrow> SlaStatus option" where
  "sla_status c cfg now =
     (if sl_ack_minutes cfg = 0 \<and> sl_resolve_minutes cfg = 0 then None
      else
        (let in_human_queue = ((cse_state c = CS_NeedsHuman \<or> cse_state c = CS_Escalated) \<and> cse_assignee c = None);
             (ack_deadline, ack_breached) =
               (if 0 < sl_ack_minutes cfg \<and> in_human_queue
                then (let deadline = unwrap_or (cse_state_changed_at c) (cse_opened_at c) + minutes (sl_ack_minutes cfg)
                      in (Some deadline, deadline \<le> now))
                else (None, False));
             (resolve_deadline, resolve_breached) =
               (if 0 < sl_resolve_minutes cfg \<and> cse_state c \<noteq> CS_Closed
                then (let deadline = cse_opened_at c + minutes (sl_resolve_minutes cfg)
                      in (Some deadline, deadline \<le> now))
                else (None, False))
         in Some \<lparr>ss_ack_deadline = ack_deadline, ss_ack_breached = ack_breached,
                  ss_resolve_deadline = resolve_deadline, ss_resolve_breached = resolve_breached\<rparr>))"

definition any_breach :: "SlaStatus \<Rightarrow> bool" where
  "any_breach st \<longleftrightarrow> ss_ack_breached st \<or> ss_resolve_breached st"

section \<open>The table of cases\<close>

type_synonym 'f case_rows = "(string \<times> 'f Case option) list"

text \<open>Appends what is not there yet, in order.\<close>

definition push_missing :: "'a list \<Rightarrow> 'a list \<Rightarrow> 'a list" where
  "push_missing xs ys = foldl (\<lambda>acc y. if y \<in> set acc then acc else acc @ [y]) xs ys"

definition missing_notes :: "TranscriptEntry list \<Rightarrow> TranscriptEntry list \<Rightarrow> TranscriptEntry list" where
  "missing_notes snapshot prev =
     (let have = map te_entry_id (filter (\<lambda>e. te_entry_id e \<noteq> []) snapshot)
      in filter (\<lambda>e. te_entry_id e \<noteq> [] \<and> te_entry_id e \<notin> set have) prev)"

definition merge_case :: "int \<Rightarrow> 'f Case \<Rightarrow> 'f Case \<Rightarrow> 'f Case" where
  "merge_case now prev c =
     (let missing = missing_notes (cse_transcript c) (cse_transcript prev)
      in c\<lparr>cse_event_count := max (cse_event_count c) (cse_event_count prev),
          cse_assignee := or_else (cse_assignee c) (cse_assignee prev),
          cse_tags := push_missing (cse_tags c) (cse_tags prev),
          cse_linked_cases := push_missing (cse_linked_cases c) (cse_linked_cases prev),
          cse_transcript := (if missing = [] then cse_transcript c else sort_key te_at (cse_transcript c @ missing)),
          cse_state_changed_at :=
            (if cse_state c = cse_state prev then or_else (cse_state_changed_at prev) (cse_state_changed_at c) else Some now)\<rparr>)"

definition put_case :: "db_answer \<Rightarrow> int \<Rightarrow> 'f Case \<Rightarrow> 'f case_rows \<Rightarrow> (Error + unit) \<times> 'f case_rows" where
  "put_case db now c rows =
     (let to_write =
        (case map_of rows (cse_id c) of
           Some (Some prev) \<Rightarrow> merge_case now prev c
         | Some None \<Rightarrow> c
         | None \<Rightarrow> if cse_state_changed_at c = None then c\<lparr>cse_state_changed_at := Some (cse_opened_at c)\<rparr> else c)
      in append_bytes db (cse_id c) to_write rows)"

definition undecodable :: Error where
  "undecodable = StoreError ''undecodable row''"

definition bump_event_count ::
  "db_answer \<Rightarrow> string \<Rightarrow> int \<Rightarrow> 'f case_rows \<Rightarrow> (Error + u64 option) \<times> 'f case_rows" where
  "bump_event_count db cid t rows =
     (case db of Some m \<Rightarrow> (Err (StoreError m), rows) | None \<Rightarrow>
     (case map_of rows cid of
        None \<Rightarrow> (Ok None, rows)
      | Some None \<Rightarrow> (Err undecodable, rows)
      | Some (Some c) \<Rightarrow> (Ok (Some (cse_event_count c + 1)), tab_put cid (Some (case_bump t c)) rows)))"

definition get_row :: "db_answer \<Rightarrow> string \<Rightarrow> (string \<times> 'v option) list \<Rightarrow> Error + 'v option" where
  "get_row db k rows =
     db_run db (case map_of rows k of None \<Rightarrow> Ok None | Some None \<Rightarrow> Err undecodable | Some (Some v) \<Rightarrow> Ok (Some v))"

definition get_case :: "db_answer \<Rightarrow> string \<Rightarrow> 'f case_rows \<Rightarrow> Error + 'f Case option" where
  "get_case db cid rows = get_row db cid rows"

text \<open>Reading a whole table strictly: one row that does not decode fails it.\<close>

definition all_rows :: "db_answer \<Rightarrow> (string \<times> 'v option) list \<Rightarrow> Error + 'v list" where
  "all_rows db rows = db_run db (if list_ex (\<lambda>r. Option.is_none (snd r)) rows then Err undecodable else Ok (row_values rows))"

lemma undecodable_rows: "list_ex (\<lambda>r. Option.is_none (snd r)) rows \<longleftrightarrow> None \<in> snd ` set rows"
  by (force simp: list_ex_iff Option.is_none_def)

definition list_cases :: "db_answer \<Rightarrow> 'f case_rows \<Rightarrow> Error + 'f Case list" where
  "list_cases db rows =
     (case all_rows db rows of Err e \<Rightarrow> Err e | Ok cs \<Rightarrow> Ok (sort_key (\<lambda>c. - cse_opened_at c) cs))"

text \<open>The closure sees the stored case and says whether it changed anything.\<close>

definition mutate_case ::
  "db_answer \<Rightarrow> int \<Rightarrow> string \<Rightarrow> ('f Case \<Rightarrow> bool \<times> 'f Case) \<Rightarrow> 'f case_rows \<Rightarrow> (Error + 'f Case option) \<times> 'f case_rows" where
  "mutate_case db now cid f rows =
     (case db of Some m \<Rightarrow> (Err (StoreError m), rows) | None \<Rightarrow>
     (case map_of rows cid of
        None \<Rightarrow> (Ok None, rows)
      | Some None \<Rightarrow> (Err undecodable, rows)
      | Some (Some c) \<Rightarrow>
          (let (changed, c') = f c
           in if changed
              then (let c'' = c'\<lparr>cse_updated_at := now\<rparr> in (Ok (Some c''), tab_put cid (Some c'') rows))
              else (Ok (Some c'), rows))))"

definition link_cases ::
  "db_answer \<Rightarrow> int \<Rightarrow> string \<Rightarrow> string \<Rightarrow> 'f case_rows \<Rightarrow> (Error + bool) \<times> 'f case_rows" where
  "link_cases db now a b rows =
     (if a = b then (Ok False, rows)
      else
        (case db of Some m \<Rightarrow> (Err (StoreError m), rows) | None \<Rightarrow>
        (case (map_of rows a, map_of rows b) of
           (Some None, _) \<Rightarrow> (Err undecodable, rows)
         | (_, Some None) \<Rightarrow> (Err undecodable, rows)
         | (Some (Some ca), Some (Some cb)) \<Rightarrow>
             (let fresh_a = (cse_id cb \<notin> set (cse_linked_cases ca));
                  fresh_b = (cse_id ca \<notin> set (cse_linked_cases cb));
                  ca' = (if fresh_a then ca\<lparr>cse_linked_cases := cse_linked_cases ca @ [cse_id cb]\<rparr> else ca);
                  cb' = (if fresh_b then cb\<lparr>cse_linked_cases := cse_linked_cases cb @ [cse_id ca]\<rparr> else cb)
              in if fresh_a \<or> fresh_b
                 then (Ok True, tab_put b (Some (cb'\<lparr>cse_updated_at := now\<rparr>)) (tab_put a (Some (ca'\<lparr>cse_updated_at := now\<rparr>)) rows))
                 else (Ok False, rows))
         | _ \<Rightarrow> (Ok False, rows))))"

subsection \<open>Breaches\<close>

definition ack_detail :: "SlaConfig \<Rightarrow> string" where
  "ack_detail cfg = ''ack SLA breached '' @ em_dash @ '' unassigned in the human queue past '' @ show_u64 (sl_ack_minutes cfg) @ '' min''"

definition resolve_detail :: "SlaConfig \<Rightarrow> string" where
  "resolve_detail cfg = ''resolve SLA breached '' @ em_dash @ '' open past '' @ show_u64 (sl_resolve_minutes cfg) @ '' min''"

definition mark_clock :: "bool \<Rightarrow> string \<Rightarrow> string \<Rightarrow> int \<Rightarrow> 'f Case \<Rightarrow> bool \<times> 'f Case" where
  "mark_clock want tag detail now c =
     (if want \<and> tag \<notin> set (cse_tags c)
      then (True, c\<lparr>cse_tags := cse_tags c @ [tag],
                   cse_transcript := cse_transcript c @
                     [\<lparr>te_at = now, te_actor = ''sla'', te_detail = detail, te_entry_id = tag @ '':'' @ cse_id c\<rparr>]\<rparr>)
      else (False, c))"

definition mark_breach :: "SlaConfig \<Rightarrow> int \<Rightarrow> bool \<Rightarrow> bool \<Rightarrow> 'f Case \<Rightarrow> bool \<times> 'f Case" where
  "mark_breach cfg now want_ack want_resolve c =
     (let (ch1, c1) = mark_clock want_ack ''sla:ack'' (ack_detail cfg) now c;
          (ch2, c2) = mark_clock want_resolve ''sla:resolve'' (resolve_detail cfg) now c1
      in (ch1 \<or> ch2, c2))"

text \<open>
  The cases are read once; every marking is a transaction of its own, the \<open>i\<close>-th of which finds the database answering
  \<open>db i\<close> at the wall clock \<open>clk i\<close>. An error ends the loop and what was collected so far is dropped.
\<close>

fun sla_loop_body ::
  "SlaConfig \<Rightarrow> int \<Rightarrow> (nat \<Rightarrow> db_answer) \<Rightarrow> (nat \<Rightarrow> int) \<Rightarrow> nat \<Rightarrow> 'f Case list \<Rightarrow> (string \<times> SlaStatus) list \<Rightarrow> 'f case_rows
     \<Rightarrow> (Error + (string \<times> SlaStatus) list) \<times> 'f case_rows" where
  "sla_loop_body cfg now db clk i [] newly rows = (Ok newly, rows)"
| "sla_loop_body cfg now db clk i (c # cs) newly rows =
     (case sla_status c cfg now of
        None \<Rightarrow> sla_loop_body cfg now db clk i cs newly rows
      | Some status \<Rightarrow>
          (let want_ack = (ss_ack_breached status \<and> ''sla:ack'' \<notin> set (cse_tags c));
               want_resolve = (ss_resolve_breached status \<and> ''sla:resolve'' \<notin> set (cse_tags c))
           in if \<not> want_ack \<and> \<not> want_resolve then sla_loop_body cfg now db clk i cs newly rows
              else
                (case mutate_case (db i) (clk i) (cse_id c) (mark_breach cfg now want_ack want_resolve) rows of
                   (Err e, rows') \<Rightarrow> (Err e, rows')
                 | (Ok _, rows') \<Rightarrow> sla_loop_body cfg now db clk (Suc i) cs (newly @ [(cse_id c, status)]) rows')))"

definition apply_sla_breaches ::
  "SlaConfig \<Rightarrow> int \<Rightarrow> (nat \<Rightarrow> db_answer) \<Rightarrow> (nat \<Rightarrow> int) \<Rightarrow> 'f case_rows
     \<Rightarrow> (Error + (string \<times> SlaStatus) list) \<times> 'f case_rows" where
  "apply_sla_breaches cfg now db clk rows =
     (if sl_ack_minutes cfg = 0 \<and> sl_resolve_minutes cfg = 0 then (Ok [], rows)
      else
        (case list_cases (db 0) rows of
           Err e \<Rightarrow> (Err e, rows)
         | Ok cs \<Rightarrow> sla_loop_body cfg now db clk 1 cs [] rows))"

text \<open>The digest of one tick of the daemon (\<open>garmr-cli/src/pipeline.rs\<close>): a sorted line per case, or silence.\<close>

definition sla_line :: "string \<times> SlaStatus \<Rightarrow> string" where
  "sla_line p =
     ''  '' @ fst p @ '' ('' @
     (if ss_ack_breached (snd p) \<and> ss_resolve_breached (snd p) then ''ack+resolve''
      else if ss_ack_breached (snd p) then ''ack'' else ''resolve'') @ '')''"

definition sla_tick ::
  "SlaConfig \<Rightarrow> int \<Rightarrow> (nat \<Rightarrow> db_answer) \<Rightarrow> (nat \<Rightarrow> int) \<Rightarrow> 'f case_rows \<Rightarrow> string list option \<times> 'f case_rows" where
  "sla_tick cfg now db clk rows =
     (case apply_sla_breaches cfg now db clk rows of
        (Err _, rows') \<Rightarrow> (None, rows')
      | (Ok newly, rows') \<Rightarrow> (if newly = [] then None else Some (sort (map sla_line newly)), rows'))"

subsection \<open>Deletion and search\<close>

fun delete_rows :: "string list \<Rightarrow> (string \<times> 'v) list \<Rightarrow> nat \<times> (string \<times> 'v) list" where
  "delete_rows [] rows = (0, rows)"
| "delete_rows (i # is) rows =
     (let (n, rows') = delete_rows is (filter (\<lambda>(k, _). k \<noteq> i) rows)
      in ((case map_of rows i of Some _ \<Rightarrow> Suc n | None \<Rightarrow> n), rows'))"

definition drop_case_range :: "string list \<Rightarrow> (string \<times> 'v) list \<Rightarrow> (string \<times> 'v) list" where
  "drop_case_range ids rows = foldl (\<lambda>rs i. filter (\<lambda>(k, _). \<not> (i @ ''|'' \<le> k \<and> k \<le> (i @ ''|'') @ last_char)) rs) rows ids"

definition delete_cases ::
  "db_answer \<Rightarrow> string list \<Rightarrow> 'f case_rows \<times> 'f record_store \<Rightarrow> (Error + nat) \<times> ('f case_rows \<times> 'f record_store)" where
  "delete_cases db ids st =
     (case db of Some m \<Rightarrow> (Err (StoreError m), st) | None \<Rightarrow>
        (let (n, rows) = delete_rows ids (fst st); s = snd st
         in (Ok n, (rows, s\<lparr>rs_predictions := drop_case_range ids (rs_predictions s),
                            rs_decisions := drop_case_range ids (rs_decisions s)\<rparr>))))"

definition contains_str :: "string \<Rightarrow> string \<Rightarrow> bool" where
  "contains_str hay needle \<longleftrightarrow> list_ex (\<lambda>i. take (length needle) (drop i hay) = needle) [0..<Suc (length hay)]"

text \<open>\<open>lower\<close> is \<open>str::to_lowercase\<close>.\<close>

definition search_cases :: "(string \<Rightarrow> string) \<Rightarrow> db_answer \<Rightarrow> string \<Rightarrow> 'f case_rows \<Rightarrow> Error + 'f Case list" where
  "search_cases lower db needle rows =
     (case list_cases db rows of
        Err e \<Rightarrow> Err e
      | Ok cs \<Rightarrow>
          Ok (filter (\<lambda>c.
            contains_str
              (lower (ev_host (dt_event (cse_trigger c)) @ '' '' @ unwrap_or (src_ip (dt_event (cse_trigger c))) [] @ '' '' @
                 dt_rule_id (cse_trigger c) @ '' '' @
                 (case cse_verdict c of Some v \<Rightarrow> ve_rationale v | None \<Rightarrow> [])))
              (lower needle)) cs))"

end
