(* ===== verification/Case_Api.thy ===== *)
theory Case_Api
  imports Case_Work
begin

text \<open>
  What people do to cases: the handlers of \<open>garmr-cli/src/api/feedback.rs\<close>. \<open>who\<close> is the authenticated principal, \<open>rec\<close> what
  the ledger answered to the record that precedes the write: the audit identifier, if the ledger is on, or \<open>None\<close> when it
  failed. Fresh identifiers, clocks and the answers of the database are arguments.
\<close>

datatype feedback_error = Fb_Auth | Fb_Bad string | Fb_Audit | Fb_Store Error | Fb_NotFound

definition gated :: "string option \<Rightarrow> string option option \<Rightarrow> (string \<Rightarrow> string option \<Rightarrow> (feedback_error + 'a) \<times> 's) \<Rightarrow> 's
    \<Rightarrow> (feedback_error + 'a) \<times> 's" where
  "gated who rec f s =
     (case who of None \<Rightarrow> (Err Fb_Auth, s) | Some u \<Rightarrow>
     (case rec of None \<Rightarrow> (Err Fb_Audit, s) | Some audit_id \<Rightarrow> f u audit_id))"

definition after_store :: "'a \<Rightarrow> (Error + unit) \<times> 's \<Rightarrow> (feedback_error + 'a) \<times> 's" where
  "after_store x p = (case p of (Err e, s) \<Rightarrow> (Err (Fb_Store e), s) | (Ok _, s) \<Rightarrow> (Ok x, s))"

definition min10 :: "u8 \<Rightarrow> u8" where
  "min10 s = min s 10"

section \<open>Records\<close>

record DecisionReq =
  dq_disposition :: Disposition
  dq_severity :: u8
  dq_reason_codes :: "string list"
  dq_narrative :: string
  dq_accepted_evidence :: "EvidenceRef list"
  dq_rejected_evidence :: "EvidenceRef list"
  dq_prediction_correct :: "bool option"
  dq_resolve :: bool
  dq_important_evidence_missed :: "bool option"
  dq_proposed_action_justified :: "bool option"
  dq_supersedes :: "string option"

fun show_disposition :: "Disposition \<Rightarrow> string" where
  "show_disposition DI_Benign = ''Benign''"
| "show_disposition DI_Suspicious = ''Suspicious''"
| "show_disposition DI_Malicious = ''Malicious''"
| "show_disposition DI_NeedsHuman = ''NeedsHuman''"

definition close_case :: "string \<Rightarrow> Disposition \<Rightarrow> int \<Rightarrow> int \<Rightarrow> 'f Case \<Rightarrow> bool \<times> 'f Case" where
  "close_case actor disposition t t' c =
     (True, case_record (''analyst:'' @ actor) (''closed by analyst decision ('' @ show_disposition disposition @ '')'') t'
              (c\<lparr>cse_state := CS_Closed, cse_state_changed_at := Some t\<rparr>))"

definition decision_of :: "string \<Rightarrow> string \<Rightarrow> string \<Rightarrow> string option \<Rightarrow> int \<Rightarrow> DecisionReq \<Rightarrow> AnalystDecision" where
  "decision_of decision_id case_id user audit_id t q =
     \<lparr>ad_decision_id = decision_id, ad_case_id = case_id, ad_principal = user, ad_disposition = dq_disposition q,
      ad_severity = min10 (dq_severity q), ad_reason_codes = dq_reason_codes q, ad_narrative = dq_narrative q,
      ad_accepted_evidence = dq_accepted_evidence q, ad_rejected_evidence = dq_rejected_evidence q,
      ad_prediction_correct = dq_prediction_correct q, ad_important_evidence_missed = dq_important_evidence_missed q,
      ad_proposed_action_justified = dq_proposed_action_justified q, ad_supersedes = dq_supersedes q, ad_created_at = t,
      ad_audit_id = audit_id\<rparr>"

text \<open>\<open>clk\<close> are the readings of the clock: of the decision, of the state change, of the transcript entry, of the update.\<close>

definition submit_decision ::
  "(int \<Rightarrow> string) \<Rightarrow> string option \<Rightarrow> string option option \<Rightarrow> string \<Rightarrow> (nat \<Rightarrow> int) \<Rightarrow> (nat \<Rightarrow> db_answer) \<Rightarrow> string \<Rightarrow> DecisionReq
     \<Rightarrow> 'f case_rows \<times> 'f record_store \<Rightarrow> (feedback_error + AnalystDecision) \<times> ('f case_rows \<times> 'f record_store)" where
  "submit_decision show_nanos who rec decision_id clk db case_id q st =
     gated who rec (\<lambda>user audit_id.
       (let d = decision_of decision_id case_id user audit_id (clk 0) q
        in case append_decision show_nanos (db 0) d (snd st) of
             (Err e, rs) \<Rightarrow> (Err (Fb_Store e), (fst st, rs))
           | (Ok _, rs) \<Rightarrow>
               if dq_resolve q
               then (case mutate_case (db 1) (clk 3) case_id (close_case user (ad_disposition d) (clk 1) (clk 2)) (fst st) of
                       (Err e, rows) \<Rightarrow> (Err (Fb_Store e), (rows, rs))
                     | (Ok _, rows) \<Rightarrow> (Ok d, (rows, rs)))
               else (Ok d, (fst st, rs)))) st"

record IncidentReq =
  iq_case_id :: "string option"
  iq_resolution :: ResolutionKind
  iq_source :: OutcomeSource
  iq_disposition :: Disposition
  iq_severity :: u8
  iq_narrative :: string
  iq_supersedes :: "string option"

definition submit_incident ::
  "string option \<Rightarrow> string option option \<Rightarrow> string \<Rightarrow> int \<Rightarrow> db_answer \<Rightarrow> IncidentReq \<Rightarrow> 'f record_store
     \<Rightarrow> (feedback_error + IncidentOutcome) \<times> 'f record_store" where
  "submit_incident who rec outcome_id t db q rs =
     gated who rec (\<lambda>user audit_id.
       (let d = \<lparr>oc_outcome_id = outcome_id, oc_case_id = iq_case_id q, oc_resolution = iq_resolution q, oc_source = iq_source q,
                 oc_disposition = iq_disposition q, oc_severity = min10 (iq_severity q), oc_narrative = iq_narrative q,
                 oc_supersedes = iq_supersedes q, oc_created_at = t, oc_audit_id = audit_id\<rparr>
        in after_store d (append_incident_outcome db d rs))) rs"

record FalseNegativeReq =
  nq_case_id :: "string option"
  nq_discovered_via :: string
  nq_disposition :: Disposition
  nq_severity :: u8
  nq_narrative :: string
  nq_evidence :: "EvidenceRef list"

definition register_false_negative ::
  "string option \<Rightarrow> string option option \<Rightarrow> string \<Rightarrow> int \<Rightarrow> db_answer \<Rightarrow> FalseNegativeReq \<Rightarrow> 'f record_store
     \<Rightarrow> (feedback_error + FalseNegativeRecord) \<times> 'f record_store" where
  "register_false_negative who rec fn_id t db q rs =
     gated who rec (\<lambda>user audit_id.
       (let f = \<lparr>fnr_fn_id = fn_id, fnr_case_id = nq_case_id q, fnr_principal = user, fnr_discovered_via = nq_discovered_via q,
                 fnr_disposition = nq_disposition q, fnr_severity = min10 (nq_severity q), fnr_narrative = nq_narrative q,
                 fnr_evidence = nq_evidence q, fnr_created_at = t, fnr_audit_id = audit_id\<rparr>
        in after_store f (append_false_negative db f rs))) rs"

record FeedbackReq =
  bq_case_id :: "string option"
  bq_prediction_id :: "string option"
  bq_label :: FeedbackLabel
  bq_note :: string

definition submit_feedback ::
  "string option \<Rightarrow> string option option \<Rightarrow> string \<Rightarrow> int \<Rightarrow> db_answer \<Rightarrow> FeedbackReq \<Rightarrow> 'f record_store
     \<Rightarrow> (feedback_error + FeedbackRecord) \<times> 'f record_store" where
  "submit_feedback who rec feedback_id t db q rs =
     gated who rec (\<lambda>user audit_id.
       (let f = \<lparr>fb_feedback_id = feedback_id, fb_case_id = bq_case_id q, fb_prediction_id = bq_prediction_id q,
                 fb_principal = user, fb_label = bq_label q, fb_note = bq_note q, fb_created_at = t, fb_audit_id = audit_id\<rparr>
        in after_store f (append_feedback db f rs))) rs"

record MistakeReq =
  mq_case_id :: "string option"
  mq_category :: MistakeCategory
  mq_narrative :: string

definition record_mistake ::
  "string option \<Rightarrow> string option option \<Rightarrow> string \<Rightarrow> int \<Rightarrow> db_answer \<Rightarrow> MistakeReq \<Rightarrow> 'f record_store
     \<Rightarrow> (feedback_error + MistakeRecord) \<times> 'f record_store" where
  "record_mistake who rec mistake_id t db q rs =
     gated who rec (\<lambda>user audit_id.
       (let m = \<lparr>mk_mistake_id = mistake_id, mk_case_id = mq_case_id q, mk_principal = user, mk_category = mq_category q,
                 mk_narrative = mq_narrative q, mk_created_at = t, mk_audit_id = audit_id\<rparr>
        in after_store m (append_mistake db m rs))) rs"

section \<open>Ownership and collaboration\<close>

definition found :: "(Error + 'f Case option) \<times> 'f case_rows \<Rightarrow> (feedback_error + 'f Case) \<times> 'f case_rows" where
  "found p =
     (case p of
        (Err e, rows) \<Rightarrow> (Err (Fb_Store e), rows)
      | (Ok None, rows) \<Rightarrow> (Err Fb_NotFound, rows)
      | (Ok (Some c), rows) \<Rightarrow> (Ok c, rows))"

definition assign_closure :: "string option \<Rightarrow> string \<Rightarrow> int \<Rightarrow> 'f Case \<Rightarrow> bool \<times> 'f Case" where
  "assign_closure assignee actor t c =
     (let detail = (case assignee of Some a \<Rightarrow> ''assigned to '' @ a @ '' by '' @ actor | None \<Rightarrow> ''unassigned by '' @ actor)
      in (True, case_record (''analyst:'' @ actor) detail t (c\<lparr>cse_assignee := assignee\<rparr>)))"

text \<open>
  \<open>directory\<close> are the known principals, \<open>None\<close> where no identities are configured; the refusal does not repeat the name.
\<close>

definition assign_case ::
  "string option \<Rightarrow> string option option \<Rightarrow> string list option \<Rightarrow> int \<Rightarrow> int \<Rightarrow> db_answer \<Rightarrow> string \<Rightarrow> string option \<Rightarrow> 'f case_rows
     \<Rightarrow> (feedback_error + 'f Case) \<times> 'f case_rows" where
  "assign_case who rec directory t now db case_id assignee rows =
     (case who of None \<Rightarrow> (Err Fb_Auth, rows) | Some user \<Rightarrow>
        if (case (assignee, directory) of (Some name, Some names) \<Rightarrow> name \<notin> set names | _ \<Rightarrow> False)
        then (Err (Fb_Bad ''unknown assignee''), rows)
        else gated who rec (\<lambda>user _. found (mutate_case db now case_id (assign_closure assignee user t) rows)) rows)"

definition comment_closure :: "string \<Rightarrow> string \<Rightarrow> string \<Rightarrow> int \<Rightarrow> 'f Case \<Rightarrow> bool \<times> 'f Case" where
  "comment_closure uuid actor txt t c =
     (True, c\<lparr>cse_transcript := cse_transcript c @
        [\<lparr>te_at = t, te_actor = ''analyst:'' @ actor, te_detail = txt, te_entry_id = uuid\<rparr>]\<rparr>)"

definition comment_case ::
  "string option \<Rightarrow> string option option \<Rightarrow> string \<Rightarrow> int \<Rightarrow> int \<Rightarrow> db_answer \<Rightarrow> string \<Rightarrow> string \<Rightarrow> 'f case_rows
     \<Rightarrow> (feedback_error + 'f Case) \<times> 'f case_rows" where
  "comment_case who rec uuid t now db case_id text0 rows =
     (case who of None \<Rightarrow> (Err Fb_Auth, rows) | Some user \<Rightarrow>
        (let txt = trim text0
         in if txt = [] then (Err (Fb_Bad ''an empty comment says nothing''), rows)
            else if 8192 < length txt then (Err (Fb_Bad ''comment too long (> 8 KiB)''), rows)
            else gated who rec (\<lambda>user _. found (mutate_case db now case_id (comment_closure uuid user txt t) rows)) rows))"

fun add_tags :: "string list \<Rightarrow> bool \<Rightarrow> string list \<Rightarrow> bool \<times> string list" where
  "add_tags [] changed tags = (changed, tags)"
| "add_tags (t # ts) changed tags = (if t \<in> set tags then add_tags ts changed tags else add_tags ts True (tags @ [t]))"

definition tag_closure :: "string list \<Rightarrow> string list \<Rightarrow> 'f Case \<Rightarrow> bool \<times> 'f Case" where
  "tag_closure add remove c =
     (let (changed, tags) = add_tags add False (cse_tags c);
          kept = filter (\<lambda>t. t \<notin> set remove) tags
      in (changed \<or> length kept \<noteq> length tags, c\<lparr>cse_tags := kept\<rparr>))"

text \<open>\<open>lower\<close> is \<open>str::to_lowercase\<close>.\<close>

definition tag_case ::
  "(string \<Rightarrow> string) \<Rightarrow> string option \<Rightarrow> string option option \<Rightarrow> int \<Rightarrow> db_answer \<Rightarrow> string \<Rightarrow> string list \<Rightarrow> string list \<Rightarrow> 'f case_rows
     \<Rightarrow> (feedback_error + 'f Case) \<times> 'f case_rows" where
  "tag_case lower who rec now db case_id add remove rows =
     (case who of None \<Rightarrow> (Err Fb_Auth, rows) | Some user \<Rightarrow>
        (let add' = filter (\<lambda>t. t \<noteq> [] \<and> length t \<le> 64) (map (\<lambda>t. lower (trim t)) add);
             remove' = map (\<lambda>t. lower (trim t)) remove
         in if add' = [] \<and> remove' = [] then (Err (Fb_Bad ''nothing to do''), rows)
            else gated who rec (\<lambda>user _. found (mutate_case db now case_id (tag_closure add' remove') rows)) rows))"

definition link_case ::
  "string option \<Rightarrow> string option option \<Rightarrow> int \<Rightarrow> db_answer \<Rightarrow> string \<Rightarrow> string \<Rightarrow> 'f case_rows
     \<Rightarrow> (feedback_error + unit) \<times> 'f case_rows" where
  "link_case who rec now db case_id other rows =
     gated who rec (\<lambda>user _.
       (case link_cases db now case_id other rows of
          (Err e, rows') \<Rightarrow> (Err (Fb_Store e), rows')
        | (Ok True, rows') \<Rightarrow> (Ok (), rows')
        | (Ok False, rows') \<Rightarrow> (Err (Fb_Bad (''cases not linked '' @ em_dash @ '' both must exist, be distinct, and not already be linked'')), rows'))) rows"

section \<open>The history of the table\<close>

text \<open>
  Any writes in any order: a snapshot, however stale, that the agent puts back, a counted repeat, what analysts do, and a
  tick of the service-level clocks. The set collects the tags that analysts asked to remove.
\<close>

inductive case_history :: "'f case_rows \<Rightarrow> string set \<Rightarrow> 'f case_rows \<Rightarrow> bool" for rows where
  ch_start: "case_history rows {} rows"
| ch_put: "case_history rows D s \<Longrightarrow> put_case db now c s = (r, s') \<Longrightarrow> case_history rows D s'"
| ch_bump: "case_history rows D s \<Longrightarrow> bump_event_count db cid t s = (q, s') \<Longrightarrow> case_history rows D s'"
| ch_decide: "case_history rows D s \<Longrightarrow> submit_decision show_nanos who rec decision_id clk dbs case_id req (s, rs) = (d, (s', rs')) \<Longrightarrow>
    case_history rows D s'"
| ch_assign: "case_history rows D s \<Longrightarrow> assign_case who rec directory t now db case_id assignee s = (a, s') \<Longrightarrow> case_history rows D s'"
| ch_comment: "case_history rows D s \<Longrightarrow> comment_case who rec uuid t now db case_id txt s = (a, s') \<Longrightarrow> case_history rows D s'"
| ch_tag: "case_history rows D s \<Longrightarrow> tag_case lower who rec now db case_id add remove s = (a, s') \<Longrightarrow>
    case_history rows (D \<union> set (map (\<lambda>t. lower (trim t)) remove)) s'"
| ch_link: "case_history rows D s \<Longrightarrow> link_case who rec now db case_id other s = (l, s') \<Longrightarrow> case_history rows D s'"
| ch_tick: "case_history rows D s \<Longrightarrow> sla_tick cfg now dbs clk s = (m, s') \<Longrightarrow> case_history rows D s'"

end
