(* ===== verification/Case_Laws.thy ===== *)
theory Case_Laws
  imports Case_Api
begin

text \<open>
  Laws of the table of cases: what every write keeps of what was stored, and what a tick of the service-level clocks does.
\<close>

section \<open>What a write keeps\<close>

definition note_ids :: "'f Case \<Rightarrow> string set" where
  "note_ids c = te_entry_id ` set (cse_transcript c) - {[]}"

definition kept :: "string set \<Rightarrow> 'f Case \<Rightarrow> 'f Case \<Rightarrow> bool" where
  "kept D c c' \<longleftrightarrow> note_ids c \<subseteq> note_ids c' \<and> set (cse_linked_cases c) \<subseteq> set (cse_linked_cases c') \<and>
     set (cse_tags c) - D \<subseteq> set (cse_tags c')"

definition rows_keep :: "string set \<Rightarrow> 'f case_rows \<Rightarrow> 'f case_rows \<Rightarrow> bool" where
  "rows_keep D s s' \<longleftrightarrow> (\<forall>k c. tab_row s k = Some c \<longrightarrow> (\<exists>c'. tab_row s' k = Some c' \<and> kept D c c'))"

lemma kept_refl [simp]: "kept D c c"
  by (auto simp: kept_def)

lemma kept_trans: "kept D c c' \<Longrightarrow> kept E c' c'' \<Longrightarrow> kept (D \<union> E) c c''"
  unfolding kept_def by blast

lemma rows_keep_refl [simp]: "rows_keep D s s"
  by (simp add: rows_keep_def)

lemma rows_keep_trans: "rows_keep D s s' \<Longrightarrow> rows_keep E s' s'' \<Longrightarrow> rows_keep (D \<union> E) s s''"
  unfolding rows_keep_def using kept_trans by metis

lemma rows_keep_put: "(\<And>c. tab_row s k = Some c \<Longrightarrow> kept D c c') \<Longrightarrow> rows_keep D s (tab_put k (Some c') s)"
  by (auto simp: rows_keep_def)

lemma set_push_missing [simp]: "set (push_missing xs ys) = set xs \<union> set ys"
  unfolding push_missing_def by (induction ys arbitrary: xs) auto

lemma merge_transcript:
  "set (cse_transcript (merge_case now prev c)) = set (cse_transcript c) \<union> set (missing_notes (cse_transcript c) (cse_transcript prev))"
  by (simp add: merge_case_def Let_def)

lemma missing_notes_set:
  "set (missing_notes new old) = {e \<in> set old. te_entry_id e \<noteq> [] \<and> te_entry_id e \<notin> te_entry_id ` set new}"
  by (auto simp: missing_notes_def)

lemma merge_kept: "kept {} prev (merge_case now prev c)"
proof -
  have "note_ids prev \<subseteq> note_ids (merge_case now prev c)"
    unfolding note_ids_def merge_transcript missing_notes_set by blast
  then show ?thesis by (auto simp: kept_def merge_case_def Let_def)
qed

lemma kept_updated [simp]: "kept D c (c'\<lparr>cse_updated_at := t\<rparr>) \<longleftrightarrow> kept D c c'"
  by (simp add: kept_def note_ids_def)

lemma kept_linked [simp]: "kept D c (c\<lparr>cse_linked_cases := cse_linked_cases c @ ls\<rparr>)"
  by (auto simp: kept_def note_ids_def)

lemma append_bytes_keep:
  assumes "append_bytes db k c s = (r, s')" "\<And>p. tab_row s k = Some p \<Longrightarrow> kept D p c"
  shows "rows_keep D s s'"
  using assms rows_keep_put [of s k D c] by (auto simp: append_bytes_def split: option.splits)

lemma put_keep: "put_case db now c s = (r, s') \<Longrightarrow> rows_keep {} s s'"
  unfolding put_case_def Let_def
  by (erule append_bytes_keep) (simp add: row_eq_Some merge_kept)

lemma mutate_keep:
  assumes "mutate_case db now cid f s = (r, s')" "\<And>c. kept D c (snd (f c))"
  shows "rows_keep D s s'"
proof (cases "db = None \<and> (\<exists>c. map_of s cid = Some (Some c) \<and> fst (f c))")
  case True
  then obtain c where c: "db = None" "map_of s cid = Some (Some c)" "fst (f c)" by blast
  have "kept D c ((snd (f c))\<lparr>cse_updated_at := now\<rparr>)" using assms(2) [of c] by simp
  moreover have "s' = tab_put cid (Some ((snd (f c))\<lparr>cse_updated_at := now\<rparr>)) s"
    using assms(1) c by (simp add: mutate_case_def split_beta Let_def)
  ultimately show ?thesis using c by (auto intro!: rows_keep_put simp: row_eq_Some)
next
  case False
  then have "s' = s" using assms(1) by (auto simp: mutate_case_def Let_def split: option.splits prod.splits if_splits)
  then show ?thesis by simp
qed

lemma case_record_kept: "kept {} c (case_record actor detail t c)"
  by (auto simp: kept_def note_ids_def case_record_def)

lemma bump_keep: "bump_event_count db cid t s = (r, s') \<Longrightarrow> rows_keep {} s s'"
  by (auto simp: bump_event_count_def split: option.splits
      intro!: rows_keep_put simp: row_eq_Some case_bump_def kept_def note_ids_def)

lemma link_keep: "link_cases db now a b s = (r, s') \<Longrightarrow> rows_keep {} s s'"
proof (cases "\<exists>x y. map_of s a = Some (Some x) \<and> map_of s b = Some (Some y) \<and> a \<noteq> b \<and> db = None")
  case True
  then obtain x y where xy: "map_of s a = Some (Some x)" "map_of s b = Some (Some y)" "a \<noteq> b" "db = None" by blast
  assume l: "link_cases db now a b s = (r, s')"
  have "rows_keep {} s (tab_put b (Some y') (tab_put a (Some x') s))" if "kept {} x x'" "kept {} y y'" for x' y'
    using that xy by (auto simp: rows_keep_def row_eq_Some [symmetric])
  then show ?thesis using l xy
    by (auto simp: link_cases_def Let_def split: if_splits)
next
  case False
  assume "link_cases db now a b s = (r, s')"
  with False have "s' = s" by (auto simp: link_cases_def split: option.splits if_splits)
  then show ?thesis by simp
qed

lemma mark_kept: "kept {} c (snd (mark_breach cfg now want_ack want_resolve c))"
  by (auto simp: mark_breach_def mark_clock_def kept_def note_ids_def)

lemma sla_loop_keep: "sla_loop_body cfg now db clk i cs newly s = (r, s') \<Longrightarrow> rows_keep {} s s'"
proof (induction cfg now db clk i cs newly s arbitrary: r rule: sla_loop_body.induct)
  case (2 cfg now db clk i c cs newly s)
  show ?case
  proof (cases "sla_status c cfg now")
    case None
    with 2 show ?thesis by simp
  next
    case (Some status)
    let ?a = "ss_ack_breached status \<and> ''sla:ack'' \<notin> set (cse_tags c)"
      and ?r = "ss_resolve_breached status \<and> ''sla:resolve'' \<notin> set (cse_tags c)"
    show ?thesis
    proof (cases "\<not> ?a \<and> \<not> ?r")
      case True
      with 2 Some show ?thesis by auto
    next
      case False
      obtain q s1 where m: "mutate_case (db i) (clk i) (cse_id c) (mark_breach cfg now ?a ?r) s = (q, s1)" by fastforce
      have k: "rows_keep {} s s1" by (rule mutate_keep [OF m]) (rule mark_kept)
      show ?thesis
      proof (cases q)
        case (Inl e)
        with 2 Some False m k show ?thesis by auto
      next
        case (Inr x)
        with 2 Some False m have "rows_keep {} s1 s'" by auto
        with k show ?thesis using rows_keep_trans by fastforce
      qed
    qed
  qed
qed simp

lemma tick_keep: "sla_tick cfg now dbs clk s = (m, s') \<Longrightarrow> rows_keep {} s s'"
  unfolding sla_tick_def apply_sla_breaches_def
  by (auto split: prod.splits sum.splits if_splits dest: sla_loop_keep)

lemma add_tags_mono: "set tags \<subseteq> set (snd (add_tags ts ch tags))"
  by (induction ts ch tags rule: add_tags.induct) auto

lemma tag_kept: "kept (set remove) c (snd (tag_closure add remove c))"
  using add_tags_mono [of "cse_tags c" add False]
  by (auto simp: tag_closure_def kept_def note_ids_def split_beta Let_def)

lemma found_rows: "snd (found p) = snd p"
  by (auto simp: found_def split: prod.split sum.split option.split)

lemma gated_rows:
  "(\<And>u a. rows_keep D s (snd (f u a))) \<Longrightarrow> rows_keep D s (snd (gated who rec f s))"
  by (auto simp: gated_def split: option.split)

lemma mutate_keep': "(\<And>c. kept D c (snd (f c))) \<Longrightarrow> rows_keep D s (snd (mutate_case db now cid f s))"
  using mutate_keep by (metis prod.collapse)

lemma assign_keep: "rows_keep {} s (snd (assign_case who rec directory t now db case_id assignee s))"
proof -
  have "kept {} c (snd (assign_closure assignee u t c))" for u c
    using case_record_kept [of "c\<lparr>cse_assignee := assignee\<rparr>"] by (simp add: assign_closure_def Let_def kept_def note_ids_def)
  then show ?thesis
    by (auto simp: assign_case_def found_rows intro!: gated_rows mutate_keep' split: option.split)
qed

lemma comment_keep: "rows_keep {} s (snd (comment_case who rec uuid t now db case_id txt s))"
proof -
  have "kept {} c (snd (comment_closure uuid u x t c))" for u x c by (auto simp: comment_closure_def kept_def note_ids_def)
  then show ?thesis by (auto simp: comment_case_def found_rows Let_def intro!: gated_rows mutate_keep' split: option.split)
qed

lemma tag_keep: "rows_keep (set (map (\<lambda>t. lower (trim t)) remove)) s (snd (tag_case lower who rec now db case_id add remove s))"
  unfolding tag_case_def Let_def
  by (auto simp: found_rows simp del: set_map intro!: gated_rows mutate_keep' tag_kept split: option.split)

lemma link_case_keep: "rows_keep {} s (snd (link_case who rec now db case_id other s))"
  unfolding link_case_def
  by (rule gated_rows) (auto split: prod.split sum.split bool.split dest: link_keep)

lemma gated_fst:
  "(\<And>u a. rows_keep D (fst st) (fst (snd (f u a)))) \<Longrightarrow> rows_keep D (fst st) (fst (snd (gated who rec f st)))"
  by (auto simp: gated_def split: option.split)

lemma decision_keep: "rows_keep {} s (fst (snd (submit_decision show_nanos who rec did clk dbs case_id req (s, rs))))"
proof -
  have "kept {} c (snd (close_case u d t t' c))" for u d t t' c
    using case_record_kept [of "c\<lparr>cse_state := CS_Closed, cse_state_changed_at := Some t\<rparr>"]
    by (simp add: close_case_def kept_def note_ids_def)
  then have m: "mutate_case db now cid (close_case u d t t') s = (r, s') \<Longrightarrow> rows_keep {} s s'" for db now cid u d t t' r s'
    using mutate_keep by blast
  show ?thesis unfolding submit_decision_def
    by (rule gated_fst [of _ "(s, rs)", simplified]) (auto simp: Let_def split: prod.split sum.split dest: m)
qed

theorem history_keeps: "case_history rows D s \<Longrightarrow> rows_keep D rows s"
proof (induction rule: case_history.induct)
  case (ch_put D s db now c r s')
  then show ?case using rows_keep_trans put_keep by fastforce
next
  case (ch_bump D s db cid t q s')
  then show ?case using rows_keep_trans bump_keep by fastforce
next
  case (ch_decide D s show_nanos who rec did clk dbs case_id req rs d s' rs')
  with decision_keep [of s show_nanos who rec did clk dbs case_id req rs] have "rows_keep {} s s'" by simp
  with ch_decide(3) rows_keep_trans show ?case by fastforce
next
  case (ch_assign D s who rec directory t now db case_id assignee a s')
  with assign_keep [of s who rec directory t now db case_id assignee] have "rows_keep {} s s'" by simp
  with ch_assign(3) rows_keep_trans show ?case by fastforce
next
  case (ch_comment D s who rec uuid t now db case_id body a s')
  with comment_keep [of s who rec uuid t now db case_id body] have "rows_keep {} s s'" by simp
  with ch_comment(3) rows_keep_trans show ?case by fastforce
next
  case (ch_tag D s lw who rc now db case_id ad rm a s')
  with tag_keep [of lw rm s who rc now db case_id ad] show ?case using rows_keep_trans by fastforce
next
  case (ch_link D s who rec now db case_id other l s')
  with link_case_keep [of s who rec now db case_id other] have "rows_keep {} s s'" by simp
  with ch_link(3) rows_keep_trans show ?case by fastforce
next
  case (ch_tick D s cfg now dbs clk m s')
  then show ?case using rows_keep_trans tick_keep by fastforce
qed simp

section \<open>A tick of the clocks\<close>

text \<open>A case is quiet when every clock that has run out is marked.\<close>

definition quiet :: "SlaConfig \<Rightarrow> int \<Rightarrow> 'f Case \<Rightarrow> bool" where
  "quiet cfg now c \<longleftrightarrow>
     (case sla_status c cfg now of
        None \<Rightarrow> True
      | Some st \<Rightarrow> (ss_ack_breached st \<longrightarrow> ''sla:ack'' \<in> set (cse_tags c)) \<and> (ss_resolve_breached st \<longrightarrow> ''sla:resolve'' \<in> set (cse_tags c)))"

lemma sla_status_cong:
  assumes "cse_state c = cse_state c'" "cse_assignee c = cse_assignee c'" "cse_opened_at c = cse_opened_at c'"
    "cse_state_changed_at c = cse_state_changed_at c'"
  shows "sla_status c cfg n = sla_status c' cfg n"
  unfolding sla_status_def assms ..

lemma sla_status_updated [simp]: "sla_status (c\<lparr>cse_updated_at := t\<rparr>) cfg n = sla_status c cfg n"
  by (rule sla_status_cong) simp_all

lemma sla_status_marks [simp]: "sla_status (c\<lparr>cse_tags := ts, cse_transcript := es\<rparr>) cfg n = sla_status c cfg n"
  by (rule sla_status_cong) simp_all

lemma mark_clock_same:
  "cse_id (snd (mark_clock want tag detail now c)) = cse_id c"
  "sla_status (snd (mark_clock want tag detail now c)) cfg n = sla_status c cfg n"
  "want \<Longrightarrow> tag \<in> set (cse_tags (snd (mark_clock want tag detail now c)))"
  "set (cse_tags c) \<subseteq> set (cse_tags (snd (mark_clock want tag detail now c)))"
  by (auto simp: mark_clock_def)

lemma mark_breach_same:
  "cse_id (snd (mark_breach cfg now wa wr c)) = cse_id c"
  "sla_status (snd (mark_breach cfg now wa wr c)) cfg' n = sla_status c cfg' n"
  "wa \<Longrightarrow> ''sla:ack'' \<in> set (cse_tags (snd (mark_breach cfg now wa wr c)))"
  "wr \<Longrightarrow> ''sla:resolve'' \<in> set (cse_tags (snd (mark_breach cfg now wa wr c)))"
  "set (cse_tags c) \<subseteq> set (cse_tags (snd (mark_breach cfg now wa wr c)))"
proof -
  let ?c1 = "snd (mark_clock wa ''sla:ack'' (ack_detail cfg) now c)"
  have eq: "snd (mark_breach cfg now wa wr c) = snd (mark_clock wr ''sla:resolve'' (resolve_detail cfg) now ?c1)"
    by (simp add: mark_breach_def split_beta Let_def)
  note one = mark_clock_same [where want = wa and tag = "''sla:ack''" and detail = "ack_detail cfg" and now = now and c = c]
    and two = mark_clock_same [where want = wr and tag = "''sla:resolve''" and detail = "resolve_detail cfg" and now = now and c = ?c1]
  show "cse_id (snd (mark_breach cfg now wa wr c)) = cse_id c" "sla_status (snd (mark_breach cfg now wa wr c)) cfg' n = sla_status c cfg' n"
    unfolding eq using one(1,2) two(1,2) by simp_all
  show "wa \<Longrightarrow> ''sla:ack'' \<in> set (cse_tags (snd (mark_breach cfg now wa wr c)))"
    "wr \<Longrightarrow> ''sla:resolve'' \<in> set (cse_tags (snd (mark_breach cfg now wa wr c)))"
    "set (cse_tags c) \<subseteq> set (cse_tags (snd (mark_breach cfg now wa wr c)))"
    unfolding eq using one(3,4) two(3,4) by blast+
qed

lemma mark_breach_changes:
  "wa \<and> ''sla:ack'' \<notin> set (cse_tags c) \<or> wr \<and> ''sla:resolve'' \<notin> set (cse_tags c) \<Longrightarrow> fst (mark_breach cfg now wa wr c)"
  by (auto simp: mark_breach_def mark_clock_def split: if_splits)

lemma loop_quiet: "\<forall>c \<in> set cs. quiet cfg now c \<Longrightarrow> sla_loop_body cfg now db clk i cs newly s = (Ok newly, s)"
  by (induction cs) (auto simp: quiet_def split: option.splits)

definition case_ids :: "'f case_rows \<Rightarrow> bool" where
  "case_ids s \<longleftrightarrow> table_ok s \<and> None \<notin> snd ` set s \<and> (\<forall>k c. tab_row s k = Some c \<longrightarrow> cse_id c = k)"

lemma tab_put_snd: "snd ` set (tab_put k v rows) \<subseteq> insert v (snd ` set rows)"
  by (induction k v rows rule: tab_put.induct) auto

lemma case_ids_put: "case_ids s \<Longrightarrow> cse_id c = k \<Longrightarrow> case_ids (tab_put k (Some c) s)"
  using tab_put_snd [of k "Some c" s] by (auto simp: case_ids_def split: if_splits)

lemma loop_marks:
  assumes "\<And>i. db i = None"
  shows "case_ids s \<Longrightarrow> (\<forall>c \<in> set cs. tab_row s (cse_id c) = Some c) \<Longrightarrow> distinct (map cse_id cs) \<Longrightarrow>
    \<exists>s'. sla_loop_body cfg now db clk i cs newly s =
        (Ok (newly @ map (\<lambda>c. (cse_id c, the (sla_status c cfg now))) (filter (\<lambda>c. \<not> quiet cfg now c) cs)), s') \<and>
      case_ids s' \<and> (\<forall>c \<in> set cs. \<exists>c'. tab_row s' (cse_id c) = Some c' \<and> quiet cfg now c') \<and>
      (\<forall>k. k \<notin> cse_id ` set cs \<longrightarrow> tab_row s' k = tab_row s k)"
proof (induction cs arbitrary: i newly s)
  case (Cons c cs)
  show ?case
  proof (cases "quiet cfg now c")
    case True
    then have "sla_loop_body cfg now db clk i (c # cs) newly s = sla_loop_body cfg now db clk i cs newly s"
      by (auto simp: quiet_def split: option.splits)
    with Cons.IH [of s i newly] Cons.prems True show ?thesis by auto
  next
    case False
    then obtain st where st: "sla_status c cfg now = Some st" by (auto simp: quiet_def split: option.splits)
    define wa where "wa \<longleftrightarrow> ss_ack_breached st \<and> ''sla:ack'' \<notin> set (cse_tags c)"
    define wr where "wr \<longleftrightarrow> ss_resolve_breached st \<and> ''sla:resolve'' \<notin> set (cse_tags c)"
    define c' where "c' = (snd (mark_breach cfg now wa wr c))\<lparr>cse_updated_at := clk i\<rparr>"
    let ?s = "tab_put (cse_id c) (Some c') s"
    have w: "wa \<or> wr" using False st by (auto simp: quiet_def wa_def wr_def)
    have nw: "(\<not> wa \<and> \<not> wr) = False" using w by blast
    have wants: "ss_ack_breached st \<longrightarrow> wa \<or> ''sla:ack'' \<in> set (cse_tags c)" "ss_resolve_breached st \<longrightarrow> wr \<or> ''sla:resolve'' \<in> set (cse_tags c)"
      by (auto simp: wa_def wr_def)
    have row: "map_of s (cse_id c) = Some (Some c)" using Cons.prems(2) by (simp add: row_eq_Some)
    have ch: "fst (mark_breach cfg now wa wr c)" by (rule mark_breach_changes) (use w in \<open>auto simp: wa_def wr_def\<close>)
    have m: "mutate_case (db i) (clk i) (cse_id c) (mark_breach cfg now wa wr) s = (Ok (Some c'), ?s)"
      using ch row assms [of i] by (simp add: mutate_case_def split_beta Let_def c'_def)
    note same = mark_breach_same [where cfg = cfg and now = now and wa = wa and wr = wr and c = c]
    have tags: "ss_ack_breached st \<longrightarrow> ''sla:ack'' \<in> set (cse_tags c')" "ss_resolve_breached st \<longrightarrow> ''sla:resolve'' \<in> set (cse_tags c')"
      using same(3,4,5) wants by (auto simp: c'_def)
    have c': "cse_id c' = cse_id c" "quiet cfg now c'" using same(1,2) st tags by (simp_all add: c'_def quiet_def)
    have step: "sla_loop_body cfg now db clk i (c # cs) newly s = sla_loop_body cfg now db clk (Suc i) cs (newly @ [(cse_id c, st)]) ?s"
      unfolding sla_loop_body.simps(2) st option.case Let_def wa_def [symmetric] wr_def [symmetric] nw by (simp add: m)
    have ok: "case_ids ?s" by (rule case_ids_put [OF Cons.prems(1) c'(1)])
    have rest: "\<forall>d \<in> set cs. tab_row ?s (cse_id d) = Some d"
    proof
      fix d assume d: "d \<in> set cs"
      have "cse_id d \<noteq> cse_id c" using Cons.prems(3) d by (metis distinct.simps(2) image_eqI list.set_map list.simps(9))
      moreover have "tab_row s (cse_id d) = Some d" using bspec [OF Cons.prems(2), of d] d by simp
      ultimately show "tab_row ?s (cse_id d) = Some d" by simp
    qed
    have dist: "distinct (map cse_id cs)" using Cons.prems(3) by simp
    from Cons.IH [OF ok rest dist, of "Suc i" "newly @ [(cse_id c, st)]"] obtain s' where
      s': "sla_loop_body cfg now db clk (Suc i) cs (newly @ [(cse_id c, st)]) ?s =
        (Ok ((newly @ [(cse_id c, st)]) @ map (\<lambda>c. (cse_id c, the (sla_status c cfg now))) (filter (\<lambda>c. \<not> quiet cfg now c) cs)), s')"
      "case_ids s'" "\<forall>c \<in> set cs. \<exists>c'. tab_row s' (cse_id c) = Some c' \<and> quiet cfg now c'"
      "\<forall>k. k \<notin> cse_id ` set cs \<longrightarrow> tab_row s' k = tab_row ?s k" by blast
    have here: "tab_row s' (cse_id c) = Some c'" using s'(4) Cons.prems(3) by simp
    show ?thesis
    proof (intro exI [of _ s'] conjI)
      show "sla_loop_body cfg now db clk i (c # cs) newly s =
          (Ok (newly @ map (\<lambda>c. (cse_id c, the (sla_status c cfg now))) (filter (\<lambda>c. \<not> quiet cfg now c) (c # cs))), s')"
        using s'(1) step False st by simp
      show "\<forall>d \<in> set (c # cs). \<exists>c'. tab_row s' (cse_id d) = Some c' \<and> quiet cfg now c'" using here c'(2) s'(3) by simp
      show "\<forall>k. k \<notin> cse_id ` set (c # cs) \<longrightarrow> tab_row s' k = tab_row s k" using s'(4) by simp
    qed (rule s'(2))
  qed
qed auto

lemma list_cases_rows:
  assumes "case_ids rows"
  shows "\<exists>cs. list_cases None rows = Ok cs \<and> (\<forall>c. c \<in> set cs \<longleftrightarrow> tab_row rows (cse_id c) = Some c) \<and> distinct (map cse_id cs)"
proof -
  have ids: "tab_row rows k = Some c \<Longrightarrow> cse_id c = k" for k c using assms by (simp add: case_ids_def)
  have t: "table_ok rows" using assms by (simp add: case_ids_def)
  let ?cs = "sort_key (\<lambda>c. - cse_opened_at c) (row_values rows)"
  have "list_cases None rows = Ok ?cs" using assms by (simp add: list_cases_def all_rows_def undecodable_rows case_ids_def)
  moreover have "c \<in> set ?cs \<longleftrightarrow> tab_row rows (cse_id c) = Some c" for c
    using table_ok_row [OF t] ids by (auto simp: row_values_mem row_eq_Some dest: map_of_SomeD)
  moreover have "distinct (map cse_id ?cs)" using row_values_distinct [OF t ids] by (simp add: distinct_map)
  ultimately show ?thesis by blast
qed

end
