(* ===== verification/Case_Properties.thy ===== *)
theory Case_Properties
  imports Case_Laws
begin

text \<open>
  Properties of cases: what survives concurrent writers, what a stale snapshot undoes, and when a breach of a service level is
  reported.
\<close>

section \<open>Example cases\<close>

definition ex_q_detection :: "int \<Rightarrow> Detection" where
  "ex_q_detection t =
     \<lparr>dt_rule_id = ''r'', dt_rule_title = ''t'', dt_level = ''high'', dt_attack = [],
      dt_event = \<lparr>ev_ts = t, ev_host = ''h1'', ev_service = ''s'', ev_source = ''j'', ev_environment = ''p'', ev_severity = ''w'',
        ev_log_type = ''auth'', ev_message = ''m'', ev_fields = Map.empty\<rparr>,
      dt_observed_at = t, dt_realert_secs = None\<rparr>"

definition ex_q_case :: "string \<Rightarrow> unit Case" where
  "ex_q_case i = (case_open i (ex_q_detection 0))\<lparr>cse_state := CS_NeedsHuman\<rparr>"

section \<open>Properties\<close>

text \<open>
  C37. Whatever writes follow each other, of the agent's snapshots however stale, of repeats, analysts and the service-level
  clocks, a stored case keeps every note that has an identifier, every link, and every tag that no analyst asked to remove.
\<close>

theorem marked_work_survives:
  assumes "case_history rows D rows'" "map_of rows k = Some (Some c)"
  shows "\<exists>c'. map_of rows' k = Some (Some c') \<and>
    te_entry_id ` set (cse_transcript c) - {[]} \<subseteq> te_entry_id ` set (cse_transcript c') \<and>
    set (cse_linked_cases c) \<subseteq> set (cse_linked_cases c') \<and> set (cse_tags c) - D \<subseteq> set (cse_tags c')"
proof -
  from history_keeps [OF assms(1)] assms(2) obtain c' where "tab_row rows' k = Some c'" "kept D c c'"
    by (auto simp: rows_keep_def row_eq_Some)
  then show ?thesis by (auto simp: kept_def note_ids_def row_eq_Some)
qed

definition ex_q_noted :: "unit Case" where
  "ex_q_noted = snd (comment_closure ''n1'' ''eve'' ''looks bad'' 5 (ex_q_case ''c1''))"

theorem marked_work_survives_witness:
  "''n1'' \<in> te_entry_id ` set (cse_transcript (the (the (map_of (snd (put_case None 9 (ex_q_case ''c1'') [(''c1'', Some ex_q_noted)])) ''c1''))))"
proof -
  let ?s = "snd (put_case None 9 (ex_q_case ''c1'') [(''c1'', Some ex_q_noted)])"
  have "case_history [(''c1'', Some ex_q_noted)] {} ?s"
    by (rule ch_put [OF ch_start, where db = None and now = 9 and c = "ex_q_case ''c1''"]) (rule prod.collapse [symmetric])
  then show ?thesis
    using marked_work_survives [of "[(''c1'', Some ex_q_noted)]" "{}" ?s "''c1''" ex_q_noted]
    by (auto simp: ex_q_noted_def comment_closure_def)
qed

text \<open>
  C38. A stale snapshot still undoes what the merge does not mark: putting it back restores its state and verdict over those
  an analyst's decision had set, its assignee over one an analyst had since chosen, and drops every transcript entry without
  an identifier that it does not have itself, such as the record of an assignment or of a closing decision.
\<close>

theorem stale_snapshot_reverts:
  assumes "map_of rows (cse_id s) = Some (Some prev)" "put_case None now s rows = (Ok (), rows')"
  shows "\<exists>c. map_of rows' (cse_id s) = Some (Some c) \<and> cse_state c = cse_state s \<and> cse_verdict c = cse_verdict s \<and>
    (cse_assignee s \<noteq> None \<longrightarrow> cse_assignee c = cse_assignee s) \<and>
    {e \<in> set (cse_transcript c). te_entry_id e = []} = {e \<in> set (cse_transcript s). te_entry_id e = []}"
proof -
  have "map_of rows' (cse_id s) = Some (Some (merge_case now prev s))"
    using assms by (auto simp: put_case_def append_bytes_def tab_put_map_of)
  moreover have "cse_state (merge_case now prev s) = cse_state s" "cse_verdict (merge_case now prev s) = cse_verdict s"
    "cse_assignee s \<noteq> None \<longrightarrow> cse_assignee (merge_case now prev s) = cse_assignee s"
    by (auto simp: merge_case_def Let_def)
  moreover have "{e \<in> set (cse_transcript (merge_case now prev s)). te_entry_id e = []} = {e \<in> set (cse_transcript s). te_entry_id e = []}"
    unfolding merge_transcript missing_notes_set by auto
  ultimately show ?thesis by blast
qed

text \<open>A case is taken over and closed by a decision while the agent holds an older copy assigned to someone else.\<close>

definition ex_q_snapshot :: "unit Case" where
  "ex_q_snapshot = (ex_q_case ''c1'')\<lparr>cse_assignee := Some ''ann''\<rparr>"

definition ex_q_closed :: "unit Case" where
  "ex_q_closed = snd (close_case ''eve'' DI_Benign 6 6 (snd (assign_closure (Some ''eve'') ''eve'' 5 ex_q_snapshot)))"

theorem stale_snapshot_reverts_witness:
  "cse_state ex_q_closed = CS_Closed \<and> cse_assignee ex_q_closed = Some ''eve'' \<and>
   (\<exists>c. map_of (snd (put_case None 9 ex_q_snapshot [(''c1'', Some ex_q_closed)])) ''c1'' = Some (Some c) \<and>
      cse_state c = CS_NeedsHuman \<and> cse_assignee c = Some ''ann'')"
proof -
  have i: "cse_id ex_q_snapshot = ''c1''" and st: "cse_state ex_q_snapshot = CS_NeedsHuman" "cse_assignee ex_q_snapshot = Some ''ann''"
    by (simp_all add: ex_q_snapshot_def ex_q_case_def case_open_def)
  have "put_case None 9 ex_q_snapshot [(''c1'', Some ex_q_closed)] = (Ok (), snd (put_case None 9 ex_q_snapshot [(''c1'', Some ex_q_closed)]))"
    by (simp add: put_case_def append_bytes_def Let_def)
  from stale_snapshot_reverts [OF _ this, of ex_q_closed] i st show ?thesis
    by (auto simp: ex_q_closed_def close_case_def case_record_def assign_closure_def Let_def)
qed

text \<open>
  C39. A tick of the service-level clocks that no storage fault interrupts reports exactly the cases with a clock that has run
  out and is not yet marked, newest first, marks them, and a second tick at the same moment reports nothing.
\<close>

theorem sla_tick_reports_once:
  assumes "case_ids rows" "\<And>i. db i = None" "\<And>i. db' i = None" "sl_ack_minutes cfg \<noteq> 0 \<or> sl_resolve_minutes cfg \<noteq> 0"
  shows "\<exists>cs rows'. list_cases None rows = Ok cs \<and>
    apply_sla_breaches cfg now db clk rows =
      (Ok (map (\<lambda>c. (cse_id c, the (sla_status c cfg now))) (filter (\<lambda>c. \<not> quiet cfg now c) cs)), rows') \<and>
    apply_sla_breaches cfg now db' clk' rows' = (Ok [], rows')"
proof -
  from list_cases_rows [OF assms(1)] obtain cs where cs: "list_cases None rows = Ok cs"
    "\<And>c. c \<in> set cs \<longleftrightarrow> tab_row rows (cse_id c) = Some c" "distinct (map cse_id cs)" by blast
  from loop_marks [where db = db and cs = cs and s = rows and cfg = cfg and now = now and clk = clk and i = 1 and newly = "[]", OF assms(2,1)] cs
  obtain rows' where r: "sla_loop_body cfg now db clk 1 cs [] rows =
      (Ok (map (\<lambda>c. (cse_id c, the (sla_status c cfg now))) (filter (\<lambda>c. \<not> quiet cfg now c) cs)), rows')"
    "case_ids rows'" "\<forall>c \<in> set cs. \<exists>c'. tab_row rows' (cse_id c) = Some c' \<and> quiet cfg now c'"
    "\<forall>k. k \<notin> cse_id ` set cs \<longrightarrow> tab_row rows' k = tab_row rows k" by auto
  from list_cases_rows [OF r(2)] obtain ds where ds: "list_cases None rows' = Ok ds"
    "\<And>c. c \<in> set ds \<longleftrightarrow> tab_row rows' (cse_id c) = Some c" by blast
  have "quiet cfg now d" if "d \<in> set ds" for d
  proof -
    have d: "tab_row rows' (cse_id d) = Some d" using ds that by blast
    have "cse_id d \<in> cse_id ` set cs"
    proof (rule ccontr)
      assume n: "cse_id d \<notin> cse_id ` set cs"
      with r(4) d have "tab_row rows (cse_id d) = Some d" by metis
      with cs(2) n show False by blast
    qed
    with r(3) d show ?thesis by fastforce
  qed
  then have "apply_sla_breaches cfg now db' clk' rows' = (Ok [], rows')"
    using ds assms(3,4) loop_quiet [of ds cfg now db' clk' 1 "[]" rows'] by (auto simp: apply_sla_breaches_def)
  moreover have "apply_sla_breaches cfg now db clk rows =
      (Ok (map (\<lambda>c. (cse_id c, the (sla_status c cfg now))) (filter (\<lambda>c. \<not> quiet cfg now c) cs)), rows')"
    using cs(1) r(1) assms(2,4) by (auto simp: apply_sla_breaches_def)
  ultimately show ?thesis using cs(1) by blast
qed

definition ex_q_cfg :: SlaConfig where
  "ex_q_cfg = \<lparr>sl_ack_minutes = 60, sl_resolve_minutes = 240\<rparr>"

definition ex_q_rows :: "unit case_rows" where
  "ex_q_rows = [(''c1'', Some (ex_q_case ''c1'')), (''c2'', Some (ex_q_case ''c2''))]"

lemma ex_q_ids: "case_ids ex_q_rows"
  by (auto simp: case_ids_def table_ok_def ex_q_rows_def row_eq_Some ex_q_case_def case_open_def split: if_splits)

theorem sla_tick_reports_once_witness:
  "\<exists>cs rows'. list_cases None ex_q_rows = Ok cs \<and>
     apply_sla_breaches ex_q_cfg (minutes 61) (\<lambda>_. None) (\<lambda>_. 0) ex_q_rows =
       (Ok (map (\<lambda>c. (cse_id c, the (sla_status c ex_q_cfg (minutes 61)))) (filter (\<lambda>c. \<not> quiet ex_q_cfg (minutes 61) c) cs)), rows') \<and>
     apply_sla_breaches ex_q_cfg (minutes 61) (\<lambda>_. None) (\<lambda>_. 0) rows' = (Ok [], rows')"
  by (rule sla_tick_reports_once [OF ex_q_ids]) (simp_all add: ex_q_cfg_def)


end
