(* ===== verification/Response_Actions.thy ===== *)
theory Response_Actions
  imports Case_Work Std_Net
begin

text \<open>
  Response actions, the only part of the program that changes the systems it watches: the proposal and its states
  (\<open>garmr-core/src/action.rs\<close>), the argument checks (\<open>garmr-agent/src/validate.rs\<close>), the operator's configuration
  (\<open>garmr-core/src/config.rs\<close>), the table with its guarded transitions (\<open>garmr-store/src/state/actions.rs\<close>), the
  agent's proposals (\<open>garmr-agent/src/agent.rs\<close>), the human decisions (\<open>garmr-cli/src/api/admin.rs\<close>,
  \<open>garmr-cli/src/cmd/agent.rs\<close>) and the executor (\<open>garmr-agent/src/executor.rs\<close>) in the phases between which other
  tasks run. Identifiers, clocks, answers of the database and of the operating system are arguments.
\<close>

section \<open>Proposals\<close>

datatype ActionKind = AK_BlockIp | AK_IsolateHost

fun ak_as_str :: "ActionKind \<Rightarrow> string" where
  "ak_as_str AK_BlockIp = ''block_ip''"
| "ak_as_str AK_IsolateHost = ''isolate_host''"

fun reversal_hint :: "ActionKind \<Rightarrow> string" where
  "reversal_hint AK_BlockIp = ''unblock the IP (e.g. remove the ipset/nft rule)''"
| "reversal_hint AK_IsolateHost = ''restore the host's network VLAN''"

datatype ActionState = AX_Proposed | AX_Approved | AX_Denied | AX_Executing | AX_Executed | AX_Failed

record ActionEvent =
  ae_at :: int
  ae_actor :: string
  ae_detail :: string

record ActionProposal =
  ap_id :: string
  ap_kind :: ActionKind
  ap_arg :: string
  ap_case_id :: string
  ap_rationale :: string
  ap_state :: ActionState
  ap_created_at :: int
  ap_decided_at :: "int option"
  ap_executed_at :: "int option"
  ap_result :: "string option"
  ap_audit :: "ActionEvent list"

definition ap_record :: "string \<Rightarrow> string \<Rightarrow> int \<Rightarrow> ActionProposal \<Rightarrow> ActionProposal" where
  "ap_record actor detail t a =
     a\<lparr>ap_audit := ap_audit a @ [\<lparr>ae_at = t, ae_actor = actor, ae_detail = detail\<rparr>]\<rparr>"

section \<open>Argument checks\<close>

fun reversible :: "ActionKind \<Rightarrow> bool" where
  "reversible AK_BlockIp = True"
| "reversible AK_IsolateHost = True"

text \<open>The address classes of \<open>std::net\<close> these checks use beyond those of \<open>Std_Net\<close>.\<close>

fun to_canonical :: "IpAddr \<Rightarrow> IpAddr" where
  "to_canonical (V4 a b c d) = V4 a b c d"
| "to_canonical (V6 gs) =
     (if take 6 gs = [0, 0, 0, 0, 0, 0xFFFF]
      then V4 (ucast (drop_bit 8 (gs ! 6))) (ucast (gs ! 6)) (ucast (drop_bit 8 (gs ! 7))) (ucast (gs ! 7))
      else V6 gs)"

fun ip_is_loopback :: "IpAddr \<Rightarrow> bool" where
  "ip_is_loopback (V4 a b c d) = v4_is_loopback a"
| "ip_is_loopback (V6 gs) = v6_is_loopback gs"

fun ip_is_unspecified :: "IpAddr \<Rightarrow> bool" where
  "ip_is_unspecified (V4 a b c d) = (a = 0 \<and> b = 0 \<and> c = 0 \<and> d = 0)"
| "ip_is_unspecified (V6 gs) = (gs = [0, 0, 0, 0, 0, 0, 0, 0])"

fun ip_is_multicast :: "IpAddr \<Rightarrow> bool" where
  "ip_is_multicast (V4 a b c d) = (224 \<le> a \<and> a \<le> 239)"
| "ip_is_multicast (V6 gs) = (gs ! 0 AND 0xFF00 = 0xFF00)"

fun ip_private :: "IpAddr \<Rightarrow> bool" where
  "ip_private (V4 a b c d) =
     (v4_is_private a b \<or> v4_is_link_local a b \<or> (a = 255 \<and> b = 255 \<and> c = 255 \<and> d = 255) \<or>
      a = 100 \<and> b AND 0xC0 = 0x40)"
| "ip_private (V6 gs) = (gs ! 0 AND 0xFE00 = 0xFC00 \<or> gs ! 0 AND 0xFFC0 = 0xFE80)"

definition host_char :: "char \<Rightarrow> bool" where
  "host_char c \<longleftrightarrow>
     (let n = (of_char c :: nat) in 48 \<le> n \<and> n \<le> 57 \<or> 65 \<le> n \<and> n \<le> 90 \<or> 97 \<le> n \<and> n \<le> 122) \<or> c \<in> set ''.-_''"

fun validate_arg :: "ActionKind \<Rightarrow> string \<Rightarrow> string + unit" where
  "validate_arg AK_BlockIp arg =
     (case parse_ip arg of
        None \<Rightarrow> Err (''invalid IP: '' @ arg)
      | Some parsed \<Rightarrow>
          (let ip = to_canonical parsed
           in if ip_is_loopback ip \<or> ip_is_unspecified ip \<or> ip_is_multicast ip
              then Err (''refusing to block loopback/unspecified/multicast: '' @ arg)
              else if ip_private ip then Err (''refusing to block private/CGNAT/RFC1918 address: '' @ arg)
              else Ok ()))"
| "validate_arg AK_IsolateHost arg =
     (if arg = [] \<or> 253 < length arg then Err ''invalid host length''
      else if starts_with arg ''-'' then Err (''host name must not start with '' @ [CHR 0x27, CHR ''-'', CHR 0x27] @ '': '' @ arg)
      else if \<not> list_all host_char arg then Err (''invalid characters in host name: '' @ arg)
      else Ok ())"

section \<open>The operator's configuration\<close>

record ExecutorConfig =
  xc_enabled :: bool
  xc_block_ip :: "string list option"
  xc_isolate_host :: "string list option"
  xc_never_block :: "string list"

fun template :: "ExecutorConfig \<Rightarrow> ActionKind \<Rightarrow> string list option" where
  "template cfg AK_BlockIp = xc_block_ip cfg"
| "template cfg AK_IsolateHost = xc_isolate_host cfg"

definition parse_u32 :: "string \<Rightarrow> nat option" where
  "parse_u32 s = (case parse_u64 s of Some w \<Rightarrow> if unat w < 2 ^ 32 then Some (unat w) else None | None \<Rightarrow> None)"

definition v4_word :: "u8 \<Rightarrow> u8 \<Rightarrow> u8 \<Rightarrow> u8 \<Rightarrow> u32" where
  "v4_word a b c d = push_bit 24 (ucast a) OR push_bit 16 (ucast b) OR push_bit 8 (ucast c) OR ucast d"

definition v6_word :: "u16 list \<Rightarrow> 128 word" where
  "v6_word gs = foldl (\<lambda>acc g. push_bit 16 acc OR ucast g) 0 gs"

definition net_mask :: "nat \<Rightarrow> nat \<Rightarrow> 'a::len word" where
  "net_mask width bits = (if bits = 0 then 0 else push_bit (width - bits) (- 1))"

definition cidr_contains :: "string \<Rightarrow> string \<Rightarrow> IpAddr \<Rightarrow> bool" where
  "cidr_contains net bits target =
     (case (parse_ip net, parse_u32 bits) of
        (Some n, Some k) \<Rightarrow>
          (case (to_canonical n, target) of
             (V4 a b c d, V4 a' b' c' d') \<Rightarrow>
               k \<le> 32 \<and> v4_word a b c d AND net_mask 32 k = v4_word a' b' c' d' AND net_mask 32 k
           | (V6 gs, V6 gs') \<Rightarrow> k \<le> 128 \<and> v6_word gs AND net_mask 128 k = v6_word gs' AND net_mask 128 k
           | _ \<Rightarrow> False)
      | _ \<Rightarrow> False)"

definition is_never_block :: "ExecutorConfig \<Rightarrow> string \<Rightarrow> bool" where
  "is_never_block cfg ip =
     (case parse_ip ip of
        None \<Rightarrow> False
      | Some t \<Rightarrow>
          (let target = to_canonical t
           in list_ex (\<lambda>entry.
                case split_once CHR ''/'' entry of
                  None \<Rightarrow> map_option to_canonical (parse_ip entry) = Some target
                | Some (net, bits) \<Rightarrow> cidr_contains net bits target) (xc_never_block cfg)))"

section \<open>The table of actions\<close>

type_synonym action_rows = "(string \<times> ActionProposal option) list"

definition put_action_proposal :: "db_answer \<Rightarrow> ActionProposal \<Rightarrow> action_rows \<Rightarrow> (Error + unit) \<times> action_rows" where
  "put_action_proposal db a rows =
     (if ap_state a \<noteq> AX_Proposed then (Err (StoreError ''new action proposals must be Proposed''), rows)
      else
        (case db of Some m \<Rightarrow> (Err (StoreError m), rows) | None \<Rightarrow>
           if map_of rows (ap_id a) \<noteq> None then (Err (StoreError ''action id already exists''), rows)
           else (Ok (), tab_put (ap_id a) (Some a) rows)))"

text \<open>An exact identifier, else a unique prefix of one.\<close>

definition get_action :: "db_answer \<Rightarrow> string \<Rightarrow> action_rows \<Rightarrow> Error + ActionProposal option" where
  "get_action db ident rows =
     (if trim ident = [] then Err (StoreError ''empty action id'')
      else db_run db
        (case map_of rows ident of
           Some None \<Rightarrow> Err undecodable
         | Some (Some a) \<Rightarrow> Ok (Some a)
         | None \<Rightarrow>
             (case filter (\<lambda>(k, _). starts_with k ident) rows of
                [] \<Rightarrow> Ok None
              | (_, None) # _ \<Rightarrow> Err undecodable
              | [(_, Some a)] \<Rightarrow> Ok (Some a)
              | _ \<Rightarrow> Err (StoreError (''multiple actions match the prefix '' @ ident)))))"

definition list_actions :: "db_answer \<Rightarrow> action_rows \<Rightarrow> Error + ActionProposal list" where
  "list_actions db rows =
     (case all_rows db rows of Err e \<Rightarrow> Err e | Ok as \<Rightarrow> Ok (sort_key (\<lambda>a. - ap_created_at a) as))"

definition actions_in_state :: "db_answer \<Rightarrow> ActionState \<Rightarrow> action_rows \<Rightarrow> Error + ActionProposal list" where
  "actions_in_state db st rows =
     (case list_actions db rows of Err e \<Rightarrow> Err e | Ok as \<Rightarrow> Ok (filter (\<lambda>a. ap_state a = st) as))"

definition advanced ::
  "ActionState \<Rightarrow> string \<Rightarrow> string \<Rightarrow> string option \<Rightarrow> int \<Rightarrow> ActionProposal \<Rightarrow> ActionProposal" where
  "advanced to actor detail result t a =
     (let a' = ap_record actor detail t (a\<lparr>ap_state := to\<rparr>)
      in case to of
           AX_Approved \<Rightarrow> a'\<lparr>ap_decided_at := Some t\<rparr>
         | AX_Denied \<Rightarrow> a'\<lparr>ap_decided_at := Some t\<rparr>
         | AX_Executed \<Rightarrow> (let a'' = a'\<lparr>ap_executed_at := Some t\<rparr> in if result = None then a'' else a''\<lparr>ap_result := result\<rparr>)
         | AX_Failed \<Rightarrow> (let a'' = a'\<lparr>ap_executed_at := Some t\<rparr> in if result = None then a'' else a''\<lparr>ap_result := result\<rparr>)
         | AX_Proposed \<Rightarrow> a'
         | AX_Executing \<Rightarrow> a')"

fun show_state :: "ActionState \<Rightarrow> string" where
  "show_state AX_Proposed = ''Proposed''"
| "show_state AX_Approved = ''Approved''"
| "show_state AX_Denied = ''Denied''"
| "show_state AX_Executing = ''Executing''"
| "show_state AX_Executed = ''Executed''"
| "show_state AX_Failed = ''Failed''"

fun show_states :: "ActionState list \<Rightarrow> string" where
  "show_states [] = []"
| "show_states [s] = show_state s"
| "show_states (s # ss) = show_state s @ '', '' @ show_states ss"

definition transition_refused :: "ActionProposal \<Rightarrow> ActionState list \<Rightarrow> Error" where
  "transition_refused a from =
     StoreError (''action '' @ ap_id a @ '' is '' @ show_state (ap_state a) @ '', not ['' @ show_states from @ ''] '' @ em_dash @
       '' transition refused'')"

text \<open>
  A transition reads the identifier in a transaction of its own, which sees \<open>rows0\<close> and answers \<open>db0\<close>, and then checks and
  writes in one that finds \<open>rows\<close>.
\<close>

definition transition_action ::
  "db_answer \<Rightarrow> action_rows \<Rightarrow> db_answer \<Rightarrow> string \<Rightarrow> ActionState list \<Rightarrow> ActionState \<Rightarrow> string \<Rightarrow> string \<Rightarrow> string option
     \<Rightarrow> int \<Rightarrow> action_rows \<Rightarrow> (Error + ActionProposal) \<times> action_rows" where
  "transition_action db0 rows0 db ident from to actor detail result t rows =
     (case get_action db0 ident rows0 of
        Err e \<Rightarrow> (Err e, rows)
      | Ok None \<Rightarrow> (Err (StoreError (''no action matches '' @ ident)), rows)
      | Ok (Some resolved) \<Rightarrow>
          (case db of Some m \<Rightarrow> (Err (StoreError m), rows) | None \<Rightarrow>
          (case map_of rows (ap_id resolved) of
             None \<Rightarrow> (Err (StoreError (''no action '' @ ap_id resolved)), rows)
           | Some None \<Rightarrow> (Err undecodable, rows)
           | Some (Some a) \<Rightarrow>
               if ap_state a \<notin> set from then (Err (transition_refused a from), rows)
               else (let a' = advanced to actor detail result t a in (Ok a', tab_put (ap_id a') (Some a') rows)))))"

section \<open>Who proposes and who decides\<close>

definition new_proposal ::
  "string \<Rightarrow> ActionKind \<Rightarrow> string \<Rightarrow> string \<Rightarrow> string \<Rightarrow> int \<Rightarrow> int \<Rightarrow> string \<Rightarrow> ActionProposal" where
  "new_proposal uuid kind arg case_id rationale t t' actor =
     \<lparr>ap_id = uuid, ap_kind = kind, ap_arg = arg, ap_case_id = case_id, ap_rationale = rationale, ap_state = AX_Proposed,
      ap_created_at = t, ap_decided_at = None, ap_executed_at = None, ap_result = None,
      ap_audit = [\<lparr>ae_at = t', ae_actor = actor, ae_detail = ''proposed '' @ ak_as_str kind @ '' '' @ arg\<rparr>]\<rparr>"

fun action_kind :: "string \<Rightarrow> ActionKind option" where
  "action_kind s = (if s = ''block_ip'' then Some AK_BlockIp else if s = ''isolate_host'' then Some AK_IsolateHost else None)"

text \<open>
  The tool call of the agent: the three members of its input, each a string or absent. The answer to the model is reduced
  to whether it is an error.
\<close>

definition propose_action ::
  "string \<Rightarrow> int \<Rightarrow> int \<Rightarrow> db_answer \<Rightarrow> 'f Case \<Rightarrow> string option \<Rightarrow> string option \<Rightarrow> string option \<Rightarrow> action_rows
     \<Rightarrow> bool \<times> action_rows" where
  "propose_action uuid t t' db c kind arg rationale rows =
     (case Option.bind kind action_kind of
        None \<Rightarrow> (True, rows)
      | Some k \<Rightarrow>
          (let a = trim (unwrap_or arg [])
           in case validate_arg k a of
                Err _ \<Rightarrow> (True, rows)
              | Ok _ \<Rightarrow>
                  (let (r, rows') = put_action_proposal db
                     (new_proposal uuid k a (cse_id c) (unwrap_or rationale []) t t' ''agent'') rows
                   in (\<not> is_ok r, rows'))))"

text \<open>The operator's own proposal; the case may be given by a prefix of its identifier.\<close>

definition cli_propose ::
  "string \<Rightarrow> int \<Rightarrow> int \<Rightarrow> (nat \<Rightarrow> db_answer) \<Rightarrow> 'f case_rows \<Rightarrow> string \<Rightarrow> string \<Rightarrow> string \<Rightarrow> string \<Rightarrow> action_rows
     \<Rightarrow> bool \<times> action_rows" where
  "cli_propose uuid t t' db cases kind arg case_arg rationale rows =
     (case action_kind kind of
        None \<Rightarrow> (False, rows)
      | Some k \<Rightarrow>
          (case validate_arg k arg of
             Err _ \<Rightarrow> (False, rows)
           | Ok _ \<Rightarrow>
               (case get_case (db 0) case_arg cases of
                  Err _ \<Rightarrow> (False, rows)
                | Ok found \<Rightarrow>
                    (let by_prefix =
                       (case list_cases (db 1) cases of
                          Err _ \<Rightarrow> None
                        | Ok cs \<Rightarrow> find (\<lambda>i. starts_with i case_arg) (map cse_id cs))
                     in case or_else (map_option cse_id found) by_prefix of
                          None \<Rightarrow> (False, rows)
                        | Some case_id \<Rightarrow>
                            (let (r, rows') = put_action_proposal (db 2)
                               (new_proposal uuid k arg case_id rationale t t' ''operator'') rows
                             in (is_ok r, rows'))))))"

text \<open>
  The human gate. \<open>who\<close> is the authenticated administrator, \<open>recorded\<close> whether the ledger took the record that precedes the
  transition. The local command line is the same gate for the operator.
\<close>

datatype api_error = Api_Auth | Api_Bad string | Api_Audit | Api_Store Error

definition missing_id :: string where
  "missing_id = ''body must be {'' @ [CHR 0x22] @ ''id'' @ [CHR 0x22] @ '': '' @ [CHR 0x22, CHR 0xE2, CHR 0x80, CHR 0xA6, CHR 0x22] @ ''}''"

definition admin_decide ::
  "ActionState list \<Rightarrow> ActionState \<Rightarrow> string \<Rightarrow> string option \<Rightarrow> string option \<Rightarrow> bool \<Rightarrow> db_answer \<Rightarrow> action_rows \<Rightarrow> db_answer \<Rightarrow> int
     \<Rightarrow> action_rows \<Rightarrow> (api_error + ActionProposal) \<times> action_rows" where
  "admin_decide from to detail who ident recorded db0 rows0 db t rows =
     (case who of
        None \<Rightarrow> (Err Api_Auth, rows)
      | Some user \<Rightarrow>
          (case ident of
             None \<Rightarrow> (Err (Api_Bad missing_id), rows)
           | Some i \<Rightarrow>
               if \<not> recorded then (Err Api_Audit, rows)
               else (case transition_action db0 rows0 db i from to user detail None t rows of
                       (Err e, rows') \<Rightarrow> (Err (Api_Store e), rows')
                     | (Ok a, rows') \<Rightarrow> (Ok a, rows'))))"

definition admin_action_approve ::
  "string option \<Rightarrow> string option \<Rightarrow> bool \<Rightarrow> db_answer \<Rightarrow> action_rows \<Rightarrow> db_answer \<Rightarrow> int \<Rightarrow> action_rows
     \<Rightarrow> (api_error + ActionProposal) \<times> action_rows" where
  "admin_action_approve = admin_decide [AX_Proposed] AX_Approved ''approved via API''"

definition admin_action_deny ::
  "string option \<Rightarrow> string option \<Rightarrow> string option \<Rightarrow> bool \<Rightarrow> db_answer \<Rightarrow> action_rows \<Rightarrow> db_answer \<Rightarrow> int \<Rightarrow> action_rows
     \<Rightarrow> (api_error + ActionProposal) \<times> action_rows" where
  "admin_action_deny reason = admin_decide [AX_Proposed, AX_Approved] AX_Denied (unwrap_or reason ''denied via API'')"

definition cli_approve ::
  "string \<Rightarrow> bool \<Rightarrow> db_answer \<Rightarrow> action_rows \<Rightarrow> db_answer \<Rightarrow> int \<Rightarrow> action_rows \<Rightarrow> (api_error + ActionProposal) \<times> action_rows" where
  "cli_approve ident = admin_decide [AX_Proposed] AX_Approved ''approved via CLI'' (Some ''operator'') (Some ident)"

definition cli_deny ::
  "string \<Rightarrow> string \<Rightarrow> bool \<Rightarrow> db_answer \<Rightarrow> action_rows \<Rightarrow> db_answer \<Rightarrow> int \<Rightarrow> action_rows
     \<Rightarrow> (api_error + ActionProposal) \<times> action_rows" where
  "cli_deny ident reason =
     admin_decide [AX_Proposed, AX_Approved] AX_Denied (if reason = [] then ''denied via CLI'' else reason)
       (Some ''operator'') (Some ident)"

end
