(* ===== verification/Response_Executor.thy ===== *)
theory Response_Executor
  imports Response_Actions
begin

text \<open>
  The executor of response actions (\<open>garmr-agent/src/executor.rs\<close>): its own validation of an approved action, the argument
  vector, the claim before the side effect, the recording of the result, and the loops that drive it
  (\<open>garmr-cli/src/pipeline.rs\<close>, \<open>garmr-cli/src/cmd/agent.rs\<close>). At the end, the interleaving of any number of executors with the
  agent and the people who decide, as a step relation.
\<close>

section \<open>Validation\<close>

record 'f soar_store =
  so_actions :: action_rows
  so_cases :: "'f case_rows"
  so_records :: "'f record_store"

fun show_error :: "Error \<Rightarrow> string" where
  "show_error (StoreError m) = ''storage error: '' @ m"
| "show_error (ConfigError m) = ''configuration error: '' @ m"

definition case_attests_ip :: "'f Case \<Rightarrow> string \<Rightarrow> bool" where
  "case_attests_ip c ip =
     (let target = parse_ip ip;
          same = (\<lambda>candidate. case (target, parse_ip candidate) of (Some t, Some x) \<Rightarrow> t = x | _ \<Rightarrow> candidate = ip);
          ev = dt_event (cse_trigger c)
      in (case src_ip ev of Some v \<Rightarrow> same v | None \<Rightarrow> False) \<or> (\<exists>v \<in> ran (ev_fields ev). same v))"

text \<open>The judgement the executor goes by: the outcome, else the analyst's decision, else the verdict of the agent.\<close>

definition effective_disposition ::
  "AnalystDecision list \<Rightarrow> IncidentOutcome list \<Rightarrow> 'f Case \<Rightarrow> Disposition option" where
  "effective_disposition decisions outcomes c =
     or_else (or_else (map_option oc_disposition (current_outcome outcomes))
                      (map_option ad_disposition (current_decision decisions)))
             (map_option ve_disposition (cse_verdict c))"

fun evidence_supports :: "ActionKind \<Rightarrow> 'f Case \<Rightarrow> string \<Rightarrow> string + unit" where
  "evidence_supports AK_IsolateHost c arg =
     (if ev_host (dt_event (cse_trigger c)) \<noteq> arg then Err ''the host does not match the case's host'' else Ok ())"
| "evidence_supports AK_BlockIp c arg =
     (if \<not> case_attests_ip c arg
      then Err (''IP '' @ arg @ '' does not appear in the case's evidence '' @ em_dash @ '' refusing to block an unrelated address'')
      else Ok ())"

definition revalidate ::
  "ExecutorConfig \<Rightarrow> (nat \<Rightarrow> db_answer) \<Rightarrow> 'f soar_store \<Rightarrow> ActionProposal \<Rightarrow> string + unit" where
  "revalidate cfg db st a =
     (if \<not> reversible (ap_kind a) then Err ''the action is not reversible''
      else
        (case validate_arg (ap_kind a) (ap_arg a) of Err why \<Rightarrow> Err why | Ok _ \<Rightarrow>
           if ap_kind a = AK_BlockIp \<and> is_never_block cfg (ap_arg a)
           then Err (ap_arg a @ '' is on the never_block list'')
           else
             (case get_case (db 0) (ap_case_id a) (so_cases st) of
                Err e \<Rightarrow> Err (''could not read the case: '' @ show_error e)
              | Ok None \<Rightarrow> Err ''the case no longer exists''
              | Ok (Some c) \<Rightarrow>
                  (case decisions_for (db 1) (so_records st) (ap_case_id a) of
                     Err e \<Rightarrow> Err (''could not read the case's decisions: '' @ show_error e)
                   | Ok decisions \<Rightarrow>
                       (case outcomes_for_case (db 2) (so_records st) (ap_case_id a) of
                          Err e \<Rightarrow> Err (''could not read the case's incident outcomes: '' @ show_error e)
                        | Ok outcomes \<Rightarrow>
                            (case effective_disposition decisions outcomes c of
                               None \<Rightarrow> Err (''the case is not yet triaged '' @ em_dash @ '' no action authorized'')
                             | Some d \<Rightarrow>
                                 if d = DI_Benign
                                 then Err (''the case was judged benign '' @ em_dash @ '' the action is no longer warranted'')
                                 else evidence_supports (ap_kind a) c (ap_arg a)))))))"

section \<open>One action\<close>

datatype Outcome = XO_Executed | XO_Refused string | XO_Failed string

fun replace_arg :: "string \<Rightarrow> string \<Rightarrow> string" where
  "replace_arg v [] = []"
| "replace_arg v (c # s) =
     (if starts_with (c # s) ''{arg}'' then v @ replace_arg v (drop 4 s) else c # replace_arg v s)"

definition argv_of :: "string list \<Rightarrow> string \<Rightarrow> string list" where
  "argv_of tmpl arg = map (replace_arg arg) tmpl"

definition manual_command :: "ActionProposal \<Rightarrow> string" where
  "manual_command a =
     ''no executor template for '' @ ak_as_str (ap_kind a) @ '' '' @ em_dash @ '' run the action manually (arg: '' @ ap_arg a @
     ''). Undo with: '' @ reversal_hint (ap_kind a)"

datatype plan = Plan_Fail string | Plan_Run "string list"

definition prepare ::
  "ExecutorConfig \<Rightarrow> (nat \<Rightarrow> db_answer) \<Rightarrow> 'f soar_store \<Rightarrow> ActionProposal \<Rightarrow> plan" where
  "prepare cfg db st a =
     (case revalidate cfg db st a of
        Err why \<Rightarrow> Plan_Fail (''re-validation rejected: '' @ why)
      | Ok _ \<Rightarrow>
          (case template cfg (ap_kind a) of
             None \<Rightarrow> Plan_Fail (manual_command a)
           | Some tmpl \<Rightarrow>
               (let argv = argv_of tmpl (ap_arg a)
                in if argv = [] then Plan_Fail ''empty executor template'' else Plan_Run argv)))"

definition exec_transition ::
  "db_answer \<Rightarrow> db_answer \<Rightarrow> ActionProposal \<Rightarrow> ActionState \<Rightarrow> ActionState \<Rightarrow> string \<Rightarrow> string option \<Rightarrow> int \<Rightarrow> action_rows
     \<Rightarrow> (Error + ActionProposal) \<times> action_rows" where
  "exec_transition db0 db a from to detail result t rows =
     transition_action db0 rows db (ap_id a) [from] to ''executor'' detail result t rows"

definition fail_action ::
  "db_answer \<Rightarrow> db_answer \<Rightarrow> ActionProposal \<Rightarrow> string \<Rightarrow> int \<Rightarrow> action_rows \<Rightarrow> Outcome \<times> action_rows" where
  "fail_action db0 db a reason t rows =
     (let refused = starts_with reason ''re-validation'' \<or> starts_with reason ''no executor template'' \<or>
                    contains_str reason ''not reversible'';
          rows' = snd (exec_transition db0 db a AX_Approved AX_Failed reason (Some reason) t rows)
      in (if refused then XO_Refused reason else XO_Failed reason, rows'))"

definition claim_action ::
  "db_answer \<Rightarrow> db_answer \<Rightarrow> ActionProposal \<Rightarrow> int \<Rightarrow> action_rows \<Rightarrow> (Error + ActionProposal) \<times> action_rows" where
  "claim_action db0 db a t rows = exec_transition db0 db a AX_Approved AX_Executing ''running action'' None t rows"

datatype cmd_result = CR_Success string | CR_Exit string string | CR_NotStarted string | CR_Timeout

text \<open>\<open>chars().take(n)\<close> on UTF-8 bytes.\<close>

fun take_chars :: "nat \<Rightarrow> string \<Rightarrow> string" where
  "take_chars n [] = []"
| "take_chars n (c # s) =
     (if 0x80 \<le> (of_char c :: nat) \<and> (of_char c :: nat) < 0xC0 then c # take_chars n s
      else (case n of 0 \<Rightarrow> [] | Suc m \<Rightarrow> c # take_chars m s))"

fun join_space :: "string list \<Rightarrow> string" where
  "join_space [] = []"
| "join_space [x] = x"
| "join_space (x # xs) = x @ '' '' @ join_space xs"

definition failure_reason :: "cmd_result \<Rightarrow> string" where
  "failure_reason r =
     (case r of
        CR_Success _ \<Rightarrow> []
      | CR_Exit status err \<Rightarrow> ''the command exited '' @ status @ '': '' @ take_chars 1000 err
      | CR_NotStarted e \<Rightarrow> ''could not start the command: '' @ e
      | CR_Timeout \<Rightarrow> ''the command exceeded 30s and was aborted'')"

definition finish_action ::
  "db_answer \<Rightarrow> db_answer \<Rightarrow> ActionProposal \<Rightarrow> string list \<Rightarrow> cmd_result \<Rightarrow> int \<Rightarrow> action_rows \<Rightarrow> Outcome \<times> action_rows" where
  "finish_action db0 db a argv r t rows =
     (case r of
        CR_Success out \<Rightarrow>
          (let summary = ''ran: '' @ hd argv @ '' '' @ join_space (tl argv) @ [CHR 0x0A] @ take_chars 1000 out
           in case exec_transition db0 db a AX_Executing AX_Executed ''action executed'' (Some summary) t rows of
                (Ok _, rows') \<Rightarrow> (XO_Executed, rows')
              | (Err e, rows') \<Rightarrow> (XO_Failed (''could not save result: '' @ show_error e), rows'))
      | _ \<Rightarrow>
          (let reason = failure_reason r
           in (XO_Failed reason,
               snd (exec_transition db0 db a AX_Executing AX_Failed reason (Some reason) t rows))))"

text \<open>
  The whole of one execution when nobody interferes: \<open>ans_db\<close> are the answers of the database in the order the code asks,
  \<open>ans_clock\<close> the clock at the two transitions, \<open>ans_run\<close> what running the command gives.
\<close>

record exec_answers =
  ans_db :: "nat \<Rightarrow> db_answer"
  ans_clock :: "nat \<Rightarrow> int"
  ans_run :: "string list \<Rightarrow> cmd_result"

definition execute :: "ExecutorConfig \<Rightarrow> exec_answers \<Rightarrow> ActionProposal \<Rightarrow> 'f soar_store \<Rightarrow> Outcome \<times> 'f soar_store" where
  "execute cfg n a st =
     (case prepare cfg (ans_db n) st a of
        Plan_Fail reason \<Rightarrow>
          (let (r, rows) = fail_action (ans_db n 3) (ans_db n 4) a reason (ans_clock n 0) (so_actions st)
           in (r, st\<lparr>so_actions := rows\<rparr>))
      | Plan_Run argv \<Rightarrow>
          (case claim_action (ans_db n 3) (ans_db n 4) a (ans_clock n 0) (so_actions st) of
             (Err e, rows) \<Rightarrow> (XO_Failed (''could not claim action: '' @ show_error e), st\<lparr>so_actions := rows\<rparr>)
           | (Ok _, rows) \<Rightarrow>
               (let (r, rows') = finish_action (ans_db n 5) (ans_db n 6) a argv (ans_run n argv) (ans_clock n 1) rows
                in (r, st\<lparr>so_actions := rows'\<rparr>))))"

fun run_actions ::
  "ExecutorConfig \<Rightarrow> (nat \<Rightarrow> exec_answers) \<Rightarrow> nat \<Rightarrow> ActionProposal list \<Rightarrow> 'f soar_store
     \<Rightarrow> (string \<times> Outcome) list \<times> 'f soar_store" where
  "run_actions cfg n i [] st = ([], st)"
| "run_actions cfg n i (a # as) st =
     (let (r, st') = execute cfg (n i) a st; (rs, st'') = run_actions cfg n (Suc i) as st'
      in ((ap_id a, r) # rs, st''))"

definition run_once ::
  "ExecutorConfig \<Rightarrow> db_answer \<Rightarrow> (nat \<Rightarrow> exec_answers) \<Rightarrow> 'f soar_store
     \<Rightarrow> (Error + (string \<times> Outcome) list) \<times> 'f soar_store" where
  "run_once cfg db n st =
     (case actions_in_state db AX_Approved (so_actions st) of
        Err e \<Rightarrow> (Err e, st)
      | Ok approved \<Rightarrow> (let (rs, st') = run_actions cfg n 0 approved st in (Ok rs, st')))"

section \<open>Interleaving\<close>

text \<open>
  An executor holds the approved actions it read, then the plan of the first, then the claim, then the result. The log is
  what an observer sees: the audit record, the decision, the passed validation with the judgement it went by, and every
  command that ran.
\<close>

datatype exec_pc =
    PC_Todo "ActionProposal list"
  | PC_Claim ActionProposal "string list" "ActionProposal list"
  | PC_Run ActionProposal "string list" "ActionProposal list"
  | PC_Finish ActionProposal "string list" cmd_result "ActionProposal list"

datatype soar_event =
    LA_Audited string string
  | LA_Approved string string
  | LA_Denied string string
  | LA_Checked string "string list" Disposition
  | LA_Ran string "string list"

record 'f soar_world =
  wd_store :: "'f soar_store"
  wd_pc :: "nat \<Rightarrow> exec_pc"
  wd_log :: "soar_event list"

definition set_actions :: "action_rows \<Rightarrow> 'f soar_world \<Rightarrow> 'f soar_world" where
  "set_actions rows w = w\<lparr>wd_store := (wd_store w)\<lparr>so_actions := rows\<rparr>\<rparr>"

definition set_pc :: "nat \<Rightarrow> exec_pc \<Rightarrow> 'f soar_world \<Rightarrow> 'f soar_world" where
  "set_pc i p w = w\<lparr>wd_pc := (wd_pc w)(i := p)\<rparr>"

definition log_events :: "soar_event list \<Rightarrow> 'f soar_world \<Rightarrow> 'f soar_world" where
  "log_events es w = w\<lparr>wd_log := wd_log w @ es\<rparr>"

definition keys_ok :: "action_rows \<Rightarrow> bool" where
  "keys_ok rows \<longleftrightarrow> (\<forall>k a. map_of rows k = Some (Some a) \<longrightarrow> ap_id a = k)"

text \<open>Who decided on what; \<open>rows0\<close> is what the reading transaction of the gate saw.\<close>

definition decision_events :: "(string \<Rightarrow> string \<Rightarrow> soar_event) \<Rightarrow> string option \<Rightarrow> string option \<Rightarrow> bool \<Rightarrow>
    (api_error + ActionProposal) \<Rightarrow> soar_event list" where
  "decision_events ev who ident recorded r =
     (case (who, ident) of
        (Some user, Some i) \<Rightarrow>
          if recorded then [LA_Audited user i] @ (case r of Ok a \<Rightarrow> [ev user (ap_id a)] | Err _ \<Rightarrow> []) else []
      | _ \<Rightarrow> [])"

inductive soar_step :: "ExecutorConfig \<Rightarrow> 'f soar_world \<Rightarrow> 'f soar_world \<Rightarrow> bool" for cfg where
  agent_proposes:
    "propose_action uuid t t' db (c :: 'f Case) kind arg rationale (so_actions (wd_store w)) = (r, rows) \<Longrightarrow>
     soar_step cfg w (set_actions rows w)"
| operator_proposes:
    "cli_propose uuid t t' dbs (so_cases (wd_store w)) kind arg case_arg rationale (so_actions (wd_store w)) = (r, rows) \<Longrightarrow>
     soar_step cfg w (set_actions rows w)"
| approves:
    "keys_ok rows0 \<Longrightarrow>
     admin_action_approve who ident recorded db0 rows0 db t (so_actions (wd_store w)) = (r, rows) \<Longrightarrow>
     soar_step cfg w (log_events (decision_events LA_Approved who ident recorded r) (set_actions rows w))"
| denies:
    "keys_ok rows0 \<Longrightarrow>
     admin_action_deny reason who ident recorded db0 rows0 db t (so_actions (wd_store w)) = (r, rows) \<Longrightarrow>
     soar_step cfg w (log_events (decision_events LA_Denied who ident recorded r) (set_actions rows w))"
| operator_approves:
    "keys_ok rows0 \<Longrightarrow>
     cli_approve ident recorded db0 rows0 db t (so_actions (wd_store w)) = (r, rows) \<Longrightarrow>
     soar_step cfg w (log_events (decision_events LA_Approved (Some ''operator'') (Some ident) recorded r) (set_actions rows w))"
| operator_denies:
    "keys_ok rows0 \<Longrightarrow>
     cli_deny ident why recorded db0 rows0 db t (so_actions (wd_store w)) = (r, rows) \<Longrightarrow>
     soar_step cfg w (log_events (decision_events LA_Denied (Some ''operator'') (Some ident) recorded r) (set_actions rows w))"
| others_write:
    "soar_step cfg w (w\<lparr>wd_store := (wd_store w)\<lparr>so_cases := cases, so_records := records\<rparr>\<rparr>)"
| executor_reads:
    "wd_pc w i = PC_Todo [] \<Longrightarrow> actions_in_state db AX_Approved (so_actions (wd_store w)) = Ok as \<Longrightarrow>
     soar_step cfg w (set_pc i (PC_Todo as) w)"
| executor_refuses:
    "wd_pc w i = PC_Todo (a # as) \<Longrightarrow> prepare cfg dbs (wd_store w) a = Plan_Fail reason \<Longrightarrow>
     fail_action db0 db a reason t (so_actions (wd_store w)) = (out, rows) \<Longrightarrow>
     soar_step cfg w (set_pc i (PC_Todo as) (set_actions rows w))"
| executor_checks:
    "wd_pc w i = PC_Todo (a # as) \<Longrightarrow> prepare cfg dbs (wd_store w) a = Plan_Run argv \<Longrightarrow>
     get_case (dbs 0) (ap_case_id a) (so_cases (wd_store w)) = Ok (Some c) \<Longrightarrow>
     decisions_for (dbs 1) (so_records (wd_store w)) (ap_case_id a) = Ok ds \<Longrightarrow>
     outcomes_for_case (dbs 2) (so_records (wd_store w)) (ap_case_id a) = Ok ocs \<Longrightarrow>
     effective_disposition ds ocs c = Some d \<Longrightarrow>
     soar_step cfg w (log_events [LA_Checked (ap_id a) argv d] (set_pc i (PC_Claim a argv as) w))"
| executor_claims:
    "wd_pc w i = PC_Claim a argv as \<Longrightarrow> claim_action db0 db a t (so_actions (wd_store w)) = (r, rows) \<Longrightarrow>
     soar_step cfg w (set_pc i (if is_ok r then PC_Run a argv as else PC_Todo as) (set_actions rows w))"
| executor_runs:
    "wd_pc w i = PC_Run a argv as \<Longrightarrow>
     soar_step cfg w (log_events [LA_Ran (ap_id a) argv] (set_pc i (PC_Finish a argv r as) w))"
| executor_finishes:
    "wd_pc w i = PC_Finish a argv r as \<Longrightarrow> finish_action db0 db a argv r t (so_actions (wd_store w)) = (out, rows) \<Longrightarrow>
     soar_step cfg w (set_pc i (PC_Todo as) (set_actions rows w))"
| executor_crashes:
    "soar_step cfg w (set_pc i (PC_Todo []) w)"

inductive soar_run :: "ExecutorConfig \<Rightarrow> 'f soar_world \<Rightarrow> 'f soar_world \<Rightarrow> bool" for cfg w where
  soar_start: "soar_run cfg w w"
| soar_more: "soar_run cfg w w' \<Longrightarrow> soar_step cfg w' w'' \<Longrightarrow> soar_run cfg w w''"

definition soar_init :: "'f soar_store \<Rightarrow> 'f soar_world" where
  "soar_init st = \<lparr>wd_store = st\<lparr>so_actions := []\<rparr>, wd_pc = (\<lambda>_. PC_Todo []), wd_log = []\<rparr>"

end
