(* ===== verification/Response_Laws.thy ===== *)
theory Response_Laws
  imports Response_Executor "HOL-Library.Sublist"
begin

text \<open>
  The contract of response actions: an abstract machine over the decoded rows, in which every change of an action is one of
  seven moves, its invariant, and the simulation that the program's steps refine it.
\<close>

section \<open>The abstract machine\<close>

definition same_request :: "ActionProposal \<Rightarrow> ActionProposal \<Rightarrow> bool" where
  "same_request a b \<longleftrightarrow> ap_id a = ap_id b \<and> ap_kind a = ap_kind b \<and> ap_arg a = ap_arg b \<and> ap_case_id a = ap_case_id b"

lemma same_request_refl [simp]: "same_request a a"
  by (simp add: same_request_def)

lemma same_request_trans: "same_request a b \<Longrightarrow> same_request b c \<Longrightarrow> same_request a c"
  by (simp add: same_request_def)

type_synonym action_map = "string \<Rightarrow> ActionProposal option"

definition action_move :: "action_map \<Rightarrow> string \<Rightarrow> ActionState \<Rightarrow> ActionState \<Rightarrow> action_map \<Rightarrow> bool" where
  "action_move R k from to R' \<longleftrightarrow>
     (\<exists>b b'. R k = Some b \<and> ap_state b = from \<and> ap_state b' = to \<and> same_request b b' \<and>
             prefix (ap_audit b) (ap_audit b') \<and> R' = R(k := Some b'))"

text \<open>What the executor established about an action before it claims it.\<close>

definition planned :: "ExecutorConfig \<Rightarrow> ActionProposal \<Rightarrow> string list \<Rightarrow> bool" where
  "planned cfg a argv \<longleftrightarrow>
     argv \<noteq> [] \<and> validate_arg (ap_kind a) (ap_arg a) = Ok () \<and> \<not> (ap_kind a = AK_BlockIp \<and> is_never_block cfg (ap_arg a)) \<and>
     (\<exists>tmpl. template cfg (ap_kind a) = Some tmpl \<and> argv = argv_of tmpl (ap_arg a))"

type_synonym action_world = "action_map \<times> (nat \<Rightarrow> exec_pc) \<times> soar_event list"

inductive action_step :: "ExecutorConfig \<Rightarrow> action_world \<Rightarrow> action_world \<Rightarrow> bool" for cfg where
  as_idle: "action_step cfg w w"
| as_propose: "R (ap_id a) = None \<Longrightarrow> ap_state a = AX_Proposed \<Longrightarrow> action_step cfg (R, pc, L) (R(ap_id a := Some a), pc, L)"
| as_audit: "action_step cfg (R, pc, L) (R, pc, L @ [LA_Audited u j])"
| as_approve: "action_move R k AX_Proposed AX_Approved R' \<Longrightarrow>
    action_step cfg (R, pc, L) (R', pc, L @ [LA_Audited u j, LA_Approved u k])"
| as_deny: "action_move R k AX_Proposed AX_Denied R' \<or> action_move R k AX_Approved AX_Denied R' \<Longrightarrow>
    action_step cfg (R, pc, L) (R', pc, L @ [LA_Audited u j, LA_Denied u k])"
| as_read: "pc i = PC_Todo [] \<Longrightarrow> (\<And>a. a \<in> set as \<Longrightarrow> R (ap_id a) = Some a) \<Longrightarrow>
    action_step cfg (R, pc, L) (R, pc(i := PC_Todo as), L)"
| as_refuse: "pc i = PC_Todo (a # as) \<Longrightarrow> R' = R \<or> action_move R (ap_id a) AX_Approved AX_Failed R' \<Longrightarrow>
    action_step cfg (R, pc, L) (R', pc(i := PC_Todo as), L)"
| as_check: "pc i = PC_Todo (a # as) \<Longrightarrow> planned cfg a argv \<Longrightarrow> d \<noteq> DI_Benign \<Longrightarrow>
    action_step cfg (R, pc, L) (R, pc(i := PC_Claim a argv as), L @ [LA_Checked (ap_id a) argv d])"
| as_claim: "pc i = PC_Claim a argv as \<Longrightarrow> action_move R (ap_id a) AX_Approved AX_Executing R' \<Longrightarrow>
    action_step cfg (R, pc, L) (R', pc(i := PC_Run a argv as), L)"
| as_lost: "pc i = PC_Claim a argv as \<Longrightarrow> action_step cfg (R, pc, L) (R, pc(i := PC_Todo as), L)"
| as_run: "pc i = PC_Run a argv as \<Longrightarrow>
    action_step cfg (R, pc, L) (R, pc(i := PC_Finish a argv r as), L @ [LA_Ran (ap_id a) argv])"
| as_finish: "pc i = PC_Finish a argv r as \<Longrightarrow>
    R' = R \<or> action_move R (ap_id a) AX_Executing AX_Executed R' \<or> action_move R (ap_id a) AX_Executing AX_Failed R' \<Longrightarrow>
    action_step cfg (R, pc, L) (R', pc(i := PC_Todo as), L)"
| as_crash: "action_step cfg (R, pc, L) (R, pc(i := PC_Todo []), L)"

section \<open>Its invariant\<close>

fun held :: "exec_pc \<Rightarrow> ActionProposal set" where
  "held (PC_Todo as) = set as"
| "held (PC_Claim a argv as) = insert a (set as)"
| "held (PC_Run a argv as) = insert a (set as)"
| "held (PC_Finish a argv r as) = insert a (set as)"

definition rows_inv :: "action_map \<Rightarrow> (nat \<Rightarrow> exec_pc) \<Rightarrow> bool" where
  "rows_inv R pc \<longleftrightarrow> (\<forall>k a. R k = Some a \<longrightarrow> ap_id a = k) \<and> (\<forall>i. \<forall>a \<in> held (pc i). \<exists>b. R (ap_id a) = Some b \<and> same_request a b)"

fun past_approval :: "ActionState \<Rightarrow> bool" where
  "past_approval AX_Proposed = False"
| "past_approval AX_Denied = False"
| "past_approval _ = True"

definition approved_in :: "soar_event list \<Rightarrow> string \<Rightarrow> bool" where
  "approved_in L k \<longleftrightarrow> (\<exists>u j. LA_Audited u j \<in> set L \<and> LA_Approved u k \<in> set L)"

lemma approved_in_append: "approved_in L k \<Longrightarrow> approved_in (L @ es) k"
  by (auto simp: approved_in_def)

lemma approved_in_new: "approved_in (L @ [LA_Audited u j, LA_Approved u k]) k"
  by (auto simp: approved_in_def)

definition decided_inv :: "action_map \<Rightarrow> soar_event list \<Rightarrow> bool" where
  "decided_inv R L \<longleftrightarrow>
     (\<forall>k b. R k = Some b \<longrightarrow> past_approval (ap_state b) \<longrightarrow> approved_in L k) \<and>
     (\<forall>u k. LA_Denied u k \<in> set L \<longrightarrow> (\<exists>b. R k = Some b \<and> ap_state b = AX_Denied))"

definition state_of :: "action_map \<Rightarrow> string \<Rightarrow> ActionState option" where
  "state_of R k = map_option ap_state (R k)"

definition ran_in :: "soar_event list \<Rightarrow> string \<Rightarrow> bool" where
  "ran_in L k \<longleftrightarrow> (\<exists>v. LA_Ran k v \<in> set L)"

lemma ran_in_append [simp]: "ran_in (L @ es) k \<longleftrightarrow> ran_in L k \<or> ran_in es k"
  by (auto simp: ran_in_def)

lemma ran_in_simps [simp]: "\<not> ran_in [] k" "ran_in (e # es) k \<longleftrightarrow> (\<exists>v. e = LA_Ran k v) \<or> ran_in es k"
  by (auto simp: ran_in_def)

fun run_of :: "exec_pc \<Rightarrow> string option" where
  "run_of (PC_Run a v as) = Some (ap_id a)"
| "run_of _ = None"

fun finish_of :: "exec_pc \<Rightarrow> string option" where
  "finish_of (PC_Finish a v r as) = Some (ap_id a)"
| "finish_of _ = None"

definition claim_inv :: "action_map \<Rightarrow> (nat \<Rightarrow> exec_pc) \<Rightarrow> soar_event list \<Rightarrow> bool" where
  "claim_inv R pc L \<longleftrightarrow>
     (\<forall>i k. run_of (pc i) = Some k \<longrightarrow>
        state_of R k = Some AX_Executing \<and> \<not> ran_in L k \<and> (\<forall>j. run_of (pc j) = Some k \<longrightarrow> j = i)) \<and>
     (\<forall>i k. finish_of (pc i) = Some k \<longrightarrow> ran_in L k) \<and>
     (\<forall>k. ran_in L k \<longrightarrow> state_of R k \<in> {Some AX_Executing, Some AX_Executed, Some AX_Failed})"

fun plan_of :: "exec_pc \<Rightarrow> (ActionProposal \<times> string list) option" where
  "plan_of (PC_Claim a v as) = Some (a, v)"
| "plan_of (PC_Run a v as) = Some (a, v)"
| "plan_of _ = None"

definition checked_inv :: "ExecutorConfig \<Rightarrow> (nat \<Rightarrow> exec_pc) \<Rightarrow> soar_event list \<Rightarrow> bool" where
  "checked_inv cfg pc L \<longleftrightarrow>
     (\<forall>i a v. plan_of (pc i) = Some (a, v) \<longrightarrow>
        planned cfg a v \<and> (\<exists>d. d \<noteq> DI_Benign \<and> LA_Checked (ap_id a) v d \<in> set L))"

text \<open>What holds of the log before a command that ran, and that the stored action still asks for that command.\<close>

definition justified :: "soar_event list \<Rightarrow> string \<Rightarrow> string list \<Rightarrow> bool" where
  "justified xs k v \<longleftrightarrow>
     approved_in xs k \<and> (\<exists>d. d \<noteq> DI_Benign \<and> LA_Checked k v d \<in> set xs) \<and>
     (\<forall>v'. LA_Ran k v' \<notin> set xs) \<and> (\<forall>u. LA_Denied u k \<notin> set xs)"

definition ran_inv :: "ExecutorConfig \<Rightarrow> action_map \<Rightarrow> soar_event list \<Rightarrow> bool" where
  "ran_inv cfg R L \<longleftrightarrow>
     (\<forall>xs k v ys. L = xs @ LA_Ran k v # ys \<longrightarrow> justified xs k v \<and> (\<exists>a. R k = Some a \<and> planned cfg a v))"

definition action_inv :: "ExecutorConfig \<Rightarrow> action_world \<Rightarrow> bool" where
  "action_inv cfg w \<longleftrightarrow>
     (case w of (R, pc, L) \<Rightarrow>
        rows_inv R pc \<and> decided_inv R L \<and> claim_inv R pc L \<and> checked_inv cfg pc L \<and> ran_inv cfg R L)"

lemma planned_cong: "same_request a b \<Longrightarrow> planned cfg a v \<longleftrightarrow> planned cfg b v"
  by (simp add: planned_def same_request_def)

lemma action_moveE:
  assumes "action_move R k from to R'"
  obtains b b' where "R k = Some b" "ap_state b = from" "ap_state b' = to" "same_request b b'"
    "prefix (ap_audit b) (ap_audit b')" "R' = R(k := Some b')"
  using assms by (auto simp: action_move_def)

lemma ran_inv_snoc:
  assumes "ran_inv cfg R L" "\<And>k v. e \<noteq> LA_Ran k v"
  shows "ran_inv cfg R (L @ [e])"
  unfolding ran_inv_def
proof (intro allI impI)
  fix xs k v ys assume eq: "L @ [e] = xs @ LA_Ran k v # ys"
  with assms(2) obtain zs where "ys = zs @ [e]" by (cases ys rule: rev_cases) auto
  with eq have "L = xs @ LA_Ran k v # zs" by simp
  with assms(1) show "justified xs k v \<and> (\<exists>a. R k = Some a \<and> planned cfg a v)" unfolding ran_inv_def by blast
qed

lemma ran_inv_run:
  assumes "ran_inv cfg R L" "justified L k v" "R k = Some a" "planned cfg a v"
  shows "ran_inv cfg R (L @ [LA_Ran k v])"
  unfolding ran_inv_def
proof (intro allI impI)
  fix xs k' v' ys assume eq: "L @ [LA_Ran k v] = xs @ LA_Ran k' v' # ys"
  show "justified xs k' v' \<and> (\<exists>a. R k' = Some a \<and> planned cfg a v')"
  proof (cases ys rule: rev_cases)
    case Nil
    with eq assms show ?thesis by auto
  next
    case (snoc zs z)
    with eq have "L = xs @ LA_Ran k' v' # zs" by simp
    with assms(1) show ?thesis unfolding ran_inv_def by blast
  qed
qed

text \<open>Rows only ever advance, so what was held or ran stays on record.\<close>

definition grows :: "action_map \<Rightarrow> action_map \<Rightarrow> bool" where
  "grows R R' \<longleftrightarrow>
     (\<forall>k a. R k = Some a \<longrightarrow> (\<exists>b. R' k = Some b \<and> same_request a b)) \<and>
     (\<forall>k b. R' k = Some b \<longrightarrow> R k = None \<longrightarrow> ap_id b = k)"

lemma grows_refl [simp]: "grows R R"
  by (simp add: grows_def)

lemma grows_move: "action_move R k from to R' \<Longrightarrow> grows R R'"
  by (auto simp: grows_def elim!: action_moveE split: if_splits)

lemma grows_propose: "R (ap_id a) = None \<Longrightarrow> grows R (R(ap_id a := Some a))"
  by (auto simp: grows_def)

lemma growsD: "grows R R' \<Longrightarrow> R k = Some a \<Longrightarrow> \<exists>b. R' k = Some b \<and> same_request a b"
  by (simp add: grows_def)

lemma step_grows: "action_step cfg (R, pc, L) (R', pc', L') \<Longrightarrow> grows R R'"
  by (erule action_step.cases) (auto intro: grows_move grows_propose)

lemma step_held: "action_step cfg (R, pc, L) (R', pc', L') \<Longrightarrow> held (pc' i) \<subseteq> held (pc i) \<union> {a. R (ap_id a) = Some a}"
  by (erule action_step.cases) auto

lemma rows_inv_ids: "rows_inv R pc \<Longrightarrow> R k = Some a \<Longrightarrow> ap_id a = k"
  by (simp add: rows_inv_def)

lemma rows_inv_step:
  assumes step: "action_step cfg (R, pc, L) (R', pc', L')" and inv: "rows_inv R pc"
  shows "rows_inv R' pc'"
proof -
  have g: "grows R R'" by (rule step_grows [OF step])
  have "ap_id b = k" if "R' k = Some b" for k b
  proof (cases "R k")
    case None
    with g that show ?thesis by (simp add: grows_def)
  next
    case (Some a)
    with growsD [OF g Some] that rows_inv_ids [OF inv Some] show ?thesis by (simp add: same_request_def)
  qed
  moreover have "\<exists>b. R' (ap_id a) = Some b \<and> same_request a b" if "a \<in> held (pc' i)" for i a
  proof -
    from step_held [OF step, of i] that inv obtain b where "R (ap_id a) = Some b" "same_request a b"
      unfolding rows_inv_def by (metis (mono_tags, lifting) UnE in_mono mem_Collect_eq same_request_refl)
    with growsD [OF g] same_request_trans show ?thesis by metis
  qed
  ultimately show ?thesis by (simp add: rows_inv_def)
qed

lemma ran_inv_rows: "ran_inv cfg R L \<Longrightarrow> grows R R' \<Longrightarrow> ran_inv cfg R' L"
  unfolding ran_inv_def grows_def using planned_cong by metis

lemma decided_denied: "decided_inv R L \<Longrightarrow> LA_Denied u k \<in> set L \<Longrightarrow> \<exists>b. R k = Some b \<and> ap_state b = AX_Denied"
  unfolding decided_inv_def by blast

lemma decided_inv_move:
  assumes "decided_inv R L" "action_move R k from to R'" "from \<noteq> AX_Denied" "past_approval to \<Longrightarrow> approved_in (L @ es) k"
    and "\<And>u j. LA_Denied u j \<in> set es \<Longrightarrow> j = k \<and> to = AX_Denied"
  shows "decided_inv R' (L @ es)"
  using assms(2)
proof (rule action_moveE)
  fix b b' assume m: "R k = Some b" "ap_state b = from" "ap_state b' = to" "R' = R(k := Some b')"
  have "approved_in (L @ es) j" if "R' j = Some c" "past_approval (ap_state c)" for j c
    using that m assms(1,4) approved_in_append by (cases "j = k") (auto simp: decided_inv_def)
  moreover have "\<exists>c. R' j = Some c \<and> ap_state c = AX_Denied" if d: "LA_Denied u j \<in> set (L @ es)" for u j
  proof (cases "LA_Denied u j \<in> set L")
    case True
    from decided_denied [OF assms(1) True] m assms(3) show ?thesis by auto
  next
    case False
    with d assms(5) [of u j] m show ?thesis by simp
  qed
  ultimately show ?thesis by (simp add: decided_inv_def)
qed

lemma decided_inv_append: "decided_inv R L \<Longrightarrow> (\<And>u j. LA_Denied u j \<notin> set es) \<Longrightarrow> decided_inv R (L @ es)"
  using approved_in_append by (auto simp: decided_inv_def)

lemma decided_past: "decided_inv R L \<Longrightarrow> action_move R k from to R' \<Longrightarrow> past_approval from \<Longrightarrow> approved_in L k"
  by (auto simp: decided_inv_def elim!: action_moveE)

lemma decided_inv_advance:
  assumes "decided_inv R L" "action_move R k from to R'" "past_approval from"
  shows "decided_inv R' L"
  using decided_inv_move [OF assms(1,2), of "[]"] decided_past [OF assms] assms(3) by (cases "from") auto

lemma decided_inv_step: "action_step cfg (R, pc, L) (R', pc', L') \<Longrightarrow> decided_inv R L \<Longrightarrow> decided_inv R' L'"
proof (induction "(R, pc, L)" "(R', pc', L')" rule: action_step.induct)
  case (as_propose a)
  then have "LA_Denied u (ap_id a) \<notin> set L" for u using decided_denied [of R L u "ap_id a"] by auto
  with as_propose show ?case by (auto simp: decided_inv_def split: if_splits)
next
  case (as_approve k u j)
  then show ?case using approved_in_new by (auto intro!: decided_inv_move)
next
  case (as_deny k u j)
  then show ?case by (elim disjE) (auto intro!: decided_inv_move)
qed (auto intro: decided_inv_append decided_inv_advance)

lemma state_move: "action_move R k from to R' \<Longrightarrow> state_of R k = Some from \<and> state_of R' = (state_of R)(k := Some to)"
  by (auto simp: state_of_def fun_eq_iff elim!: action_moveE)

lemma state_propose: "R (ap_id a) = None \<Longrightarrow> state_of (R(ap_id a := Some a)) k = (if k = ap_id a then Some (ap_state a) else state_of R k)"
  "R (ap_id a) = None \<Longrightarrow> state_of R (ap_id a) = None"
  by (simp_all add: state_of_def)

text \<open>An executor that lets go of an action keeps the invariant, whatever became of the rows nobody runs.\<close>

lemma claim_inv_frame:
  assumes "claim_inv R pc L"
    and "\<And>k. state_of R k \<in> {Some AX_Executing, Some AX_Executed, Some AX_Failed} \<Longrightarrow> state_of R' k = state_of R k"
    and "\<And>i. run_of (pc' i) = None \<or> pc' i = pc i" "\<And>i k. finish_of (pc' i) = Some k \<Longrightarrow> finish_of (pc i) = Some k"
    and "\<And>k. ran_in L' k \<longleftrightarrow> ran_in L k"
  shows "claim_inv R' pc' L'"
proof -
  have same: "state_of R' k = state_of R k" if "run_of (pc i) = Some k \<or> ran_in L k" for i k
    using assms(1,2) that unfolding claim_inv_def by (metis insertCI)
  have "run_of (pc i) = Some k" if "run_of (pc' i) = Some k" for i k using assms(3) [of i] that by auto
  with assms(1,4,5) same show ?thesis unfolding claim_inv_def by metis
qed

lemma claim_invD:
  assumes "claim_inv R pc L"
  shows "run_of (pc i) = Some k \<Longrightarrow> state_of R k = Some AX_Executing"
    "run_of (pc i) = Some k \<Longrightarrow> \<not> ran_in L k"
    "run_of (pc i) = Some k \<Longrightarrow> run_of (pc j) = Some k \<Longrightarrow> j = i"
    "finish_of (pc i) = Some k \<Longrightarrow> ran_in L k"
    "ran_in L k \<Longrightarrow> state_of R k \<in> {Some AX_Executing, Some AX_Executed, Some AX_Failed}"
  using assms unfolding claim_inv_def by blast+

lemma claim_inv_claim:
  assumes inv: "claim_inv R pc L" and pc: "pc i = PC_Claim a v as" and m: "action_move R (ap_id a) AX_Approved AX_Executing R'"
  shows "claim_inv R' (pc(i := PC_Run a v as)) L"
proof -
  from state_move [OF m] have st: "state_of R (ap_id a) = Some AX_Approved" "state_of R' = (state_of R)(ap_id a := Some AX_Executing)"
    by auto
  have free: "run_of (pc j) \<noteq> Some (ap_id a)" "\<not> ran_in L (ap_id a)" for j
    using claim_invD(1) [OF inv, of j "ap_id a"] claim_invD(5) [OF inv, of "ap_id a"] st(1) by auto
  show ?thesis unfolding claim_inv_def
  proof (intro conjI allI impI)
    fix j k assume r: "run_of ((pc(i := PC_Run a v as)) j) = Some k"
    show "state_of R' k = Some AX_Executing" using r st claim_invD(1) [OF inv, of j k] by (cases "j = i") auto
    show "\<not> ran_in L k" using r free claim_invD(2) [OF inv, of j k] by (cases "j = i") auto
    fix j' assume "run_of ((pc(i := PC_Run a v as)) j') = Some k"
    with r free claim_invD(3) [OF inv, of j k j'] show "j' = j" by (cases "j = i"; cases "j' = i") auto
  next
    fix j k assume "finish_of ((pc(i := PC_Run a v as)) j) = Some k"
    with claim_invD(4) [OF inv, of j k] show "ran_in L k" by (cases "j = i") auto
  next
    fix k assume "ran_in L k"
    with claim_invD(5) [OF inv, of k] st free show "state_of R' k \<in> {Some AX_Executing, Some AX_Executed, Some AX_Failed}"
      by auto
  qed
qed

lemma claim_inv_run:
  assumes inv: "claim_inv R pc L" and pc: "pc i = PC_Run a v as"
  shows "claim_inv R (pc(i := PC_Finish a v r as)) (L @ [LA_Ran (ap_id a) v])"
proof -
  have r: "run_of (pc i) = Some (ap_id a)" using pc by simp
  have sole: "run_of (pc j) \<noteq> Some (ap_id a)" if "j \<noteq> i" for j using claim_invD(3) [OF inv r] that by blast
  show ?thesis unfolding claim_inv_def
  proof (intro conjI allI impI)
    fix j k assume q: "run_of ((pc(i := PC_Finish a v r as)) j) = Some k"
    then have j: "run_of (pc j) = Some k" "j \<noteq> i" by (auto split: if_splits)
    with claim_invD(1,2) [OF inv j(1)] sole show "state_of R k = Some AX_Executing" "\<not> ran_in (L @ [LA_Ran (ap_id a) v]) k"
      by auto
    fix j' assume "run_of ((pc(i := PC_Finish a v r as)) j') = Some k"
    then show "j' = j" using claim_invD(3) [OF inv j(1), of j'] by (auto split: if_splits)
  next
    fix j k assume "finish_of ((pc(i := PC_Finish a v r as)) j) = Some k"
    then show "ran_in (L @ [LA_Ran (ap_id a) v]) k" using claim_invD(4) [OF inv, of j k] by (auto split: if_splits)
  next
    fix k assume "ran_in (L @ [LA_Ran (ap_id a) v]) k"
    then show "state_of R k \<in> {Some AX_Executing, Some AX_Executed, Some AX_Failed}"
      using claim_invD(5) [OF inv, of k] claim_invD(1) [OF inv r] by auto
  qed
qed

lemma claim_inv_finish:
  assumes inv: "claim_inv R pc L" and pc: "pc i = PC_Finish a v r as"
    and m: "action_move R (ap_id a) AX_Executing to R'" "to \<in> {AX_Executed, AX_Failed}"
  shows "claim_inv R' (pc(i := PC_Todo as)) L"
proof -
  from state_move [OF m(1)] have st: "state_of R' = (state_of R)(ap_id a := Some to)" by auto
  have ran: "ran_in L (ap_id a)" using claim_invD(4) [OF inv, of i] pc by simp
  have before: "run_of (pc j) = Some k" if "run_of ((pc(i := PC_Todo as)) j) = Some k" for j k using that by (auto split: if_splits)
  show ?thesis unfolding claim_inv_def
  proof (intro conjI allI impI)
    fix j k assume q: "run_of ((pc(i := PC_Todo as)) j) = Some k"
    from claim_invD(1,2) [OF inv before [OF q]] ran st show "state_of R' k = Some AX_Executing" "\<not> ran_in L k" by auto
    fix j' assume "run_of ((pc(i := PC_Todo as)) j') = Some k"
    then show "j' = j" using claim_invD(3) [OF inv before [OF q] before] by blast
  next
    fix j k assume "finish_of ((pc(i := PC_Todo as)) j) = Some k"
    then show "ran_in L k" using claim_invD(4) [OF inv, of j k] by (auto split: if_splits)
  next
    fix k assume "ran_in L k"
    then show "state_of R' k \<in> {Some AX_Executing, Some AX_Executed, Some AX_Failed}"
      using claim_invD(5) [OF inv, of k] st m(2) by auto
  qed
qed

lemma claim_inv_quiet:
  assumes "claim_inv R pc L" "\<And>k. ran_in es k = False" "run_of p = None" "finish_of p = None"
  shows "claim_inv R (pc(i := p)) (L @ es)"
  by (rule claim_inv_frame [OF assms(1)]) (use assms in \<open>auto split: if_splits\<close>)

lemma claim_inv_log: "claim_inv R pc L \<Longrightarrow> (\<And>k. \<not> ran_in es k) \<Longrightarrow> claim_inv R pc (L @ es)"
  by (rule claim_inv_frame [of R pc L]) auto

lemma claim_inv_early:
  assumes "claim_inv R pc L" "action_move R k from to R'" "from \<in> {AX_Proposed, AX_Approved}"
  shows "claim_inv R' pc L"
  by (rule claim_inv_frame [OF assms(1)]) (use state_move [OF assms(2)] assms(3) in auto)

lemma claim_inv_step: "action_step cfg (R, pc, L) (R', pc', L') \<Longrightarrow> claim_inv R pc L \<Longrightarrow> claim_inv R' pc' L'"
proof (induction "(R, pc, L)" "(R', pc', L')" rule: action_step.induct)
  case (as_propose a)
  have "claim_inv (R(ap_id a := Some a)) pc L"
    by (rule claim_inv_frame [OF as_propose(6)]) (use as_propose(1) in \<open>auto simp: state_propose\<close>)
  with as_propose show ?case by simp
next
  case (as_approve k u j)
  then show ?case using claim_inv_log [OF claim_inv_early, of R pc L k] by auto
next
  case (as_deny k u j)
  then show ?case using claim_inv_log [OF claim_inv_early, of R pc L k] by auto
next
  case (as_refuse i a as)
  then show ?case
    using claim_inv_quiet [of _ pc L "[]" "PC_Todo as" i] claim_inv_early [of R pc L "ap_id a"] by auto
next
  case (as_claim i a v as)
  then show ?case by (auto intro: claim_inv_claim)
next
  case (as_run i a v as r)
  then show ?case by (auto intro: claim_inv_run)
next
  case (as_finish i a v r as)
  then show ?case using claim_inv_quiet [of R pc L "[]" "PC_Todo as" i] claim_inv_finish [of R pc L i a v r as] by auto
next
  case (as_check i a as v d)
  then show ?case using claim_inv_quiet [of R pc L _ "PC_Claim a v as" i] by auto
next
  case (as_read i as)
  then show ?case using claim_inv_quiet [of R pc L "[]" "PC_Todo as" i] by auto
next
  case (as_lost i a v as)
  then show ?case using claim_inv_quiet [of R pc L "[]" "PC_Todo as" i] by auto
next
  case (as_crash i)
  then show ?case using claim_inv_quiet [of R pc L "[]" "PC_Todo []" i] by auto
qed (auto intro: claim_inv_log)

lemma checked_invD:
  assumes "checked_inv cfg pc L" "plan_of (pc i) = Some (a, v)"
  shows "planned cfg a v" "\<exists>d. d \<noteq> DI_Benign \<and> LA_Checked (ap_id a) v d \<in> set L"
  using assms unfolding checked_inv_def by blast+

lemma checked_inv_upd:
  assumes "checked_inv cfg pc L"
    and "\<And>a v. plan_of p = Some (a, v) \<Longrightarrow> planned cfg a v \<and> (\<exists>d. d \<noteq> DI_Benign \<and> LA_Checked (ap_id a) v d \<in> set (L @ es))"
  shows "checked_inv cfg (pc(i := p)) (L @ es)"
  unfolding checked_inv_def
proof (intro allI impI)
  fix j a v assume q: "plan_of ((pc(i := p)) j) = Some (a, v)"
  show "planned cfg a v \<and> (\<exists>d. d \<noteq> DI_Benign \<and> LA_Checked (ap_id a) v d \<in> set (L @ es))"
  proof (cases "j = i")
    case True
    with q assms(2) show ?thesis by simp
  next
    case False
    with q checked_invD [OF assms(1), of j a v] show ?thesis by auto
  qed
qed

lemma checked_inv_log: "checked_inv cfg pc L \<Longrightarrow> checked_inv cfg pc (L @ es)"
  using checked_inv_upd [of cfg pc L "pc i" es i for i] checked_invD [of cfg pc L] by fastforce

lemma checked_inv_step: "action_step cfg (R, pc, L) (R', pc', L') \<Longrightarrow> checked_inv cfg pc L \<Longrightarrow> checked_inv cfg pc' L'"
proof (induction "(R, pc, L)" "(R', pc', L')" rule: action_step.induct)
  case (as_check i a as v d)
  then show ?case using checked_inv_upd [of cfg pc L "PC_Claim a v as" "[LA_Checked (ap_id a) v d]" i] by auto
next
  case (as_claim i a v as)
  then show ?case using checked_inv_upd [of cfg pc L "PC_Run a v as" "[]" i] checked_invD [of cfg pc L i a v] by auto
next
  case (as_run i a v as r)
  then show ?case using checked_inv_upd [of cfg pc L "PC_Finish a v r as" _ i] by auto
next
  case (as_read i as)
  then show ?case using checked_inv_upd [of cfg pc L "PC_Todo as" "[]" i] by auto
next
  case (as_refuse i a as)
  then show ?case using checked_inv_upd [of cfg pc L "PC_Todo as" "[]" i] by auto
next
  case (as_lost i a v as)
  then show ?case using checked_inv_upd [of cfg pc L "PC_Todo as" "[]" i] by auto
next
  case (as_finish i a v r as)
  then show ?case using checked_inv_upd [of cfg pc L "PC_Todo as" "[]" i] by auto
next
  case (as_crash i)
  then show ?case using checked_inv_upd [of cfg pc L "PC_Todo []" "[]" i] by auto
qed (auto intro: checked_inv_log)

lemma ran_inv_quiet: "ran_inv cfg R L \<Longrightarrow> (\<And>k. \<not> ran_in es k) \<Longrightarrow> ran_inv cfg R (L @ es)"
proof (induction es rule: rev_induct)
  case (snoc e es)
  then have "ran_inv cfg R (L @ es)" "e \<noteq> LA_Ran k v" for k v by auto
  then show ?case using ran_inv_snoc [of cfg R "L @ es" e] by simp
qed simp

lemma step_log:
  "action_step cfg (R, pc, L) (R', pc', L') \<Longrightarrow>
   (\<exists>es. L' = L @ es \<and> (\<forall>k. \<not> ran_in es k)) \<or> (\<exists>i a v as. pc i = PC_Run a v as \<and> L' = L @ [LA_Ran (ap_id a) v])"
  by (erule action_step.cases) auto

lemma ran_inv_step:
  assumes step: "action_step cfg (R, pc, L) (R', pc', L')"
    and inv: "rows_inv R pc" "decided_inv R L" "claim_inv R pc L" "checked_inv cfg pc L" "ran_inv cfg R L"
  shows "ran_inv cfg R' L'"
proof -
  have base: "ran_inv cfg R' L" by (rule ran_inv_rows [OF inv(5) step_grows [OF step]])
  from step_log [OF step] show ?thesis
  proof (elim disjE exE conjE)
    fix es assume "L' = L @ es" "\<forall>k. \<not> ran_in es k"
    with base show ?thesis by (simp add: ran_inv_quiet)
  next
    fix i a v as assume run: "pc i = PC_Run a v as" "L' = L @ [LA_Ran (ap_id a) v]"
    have st: "state_of R (ap_id a) = Some AX_Executing" "\<not> ran_in L (ap_id a)"
      using claim_invD(1,2) [OF inv(3), of i] run(1) by auto
    then obtain b where b: "R (ap_id a) = Some b" "ap_state b = AX_Executing" by (auto simp: state_of_def)
    obtain c where c: "R' (ap_id a) = Some c" "same_request b c" using growsD [OF step_grows [OF step] b(1)] by blast
    have ck: "planned cfg a v" "\<exists>d. d \<noteq> DI_Benign \<and> LA_Checked (ap_id a) v d \<in> set L"
      using checked_invD [OF inv(4), of i a v] run(1) by auto
    have "a \<in> held (pc i)" using run(1) by simp
    with inv(1) b(1) have "same_request a b" unfolding rows_inv_def by fastforce
    with ck(1) c(2) have "planned cfg c v" using planned_cong same_request_trans by blast
    moreover have "approved_in L (ap_id a)" using inv(2) b by (simp add: decided_inv_def)
    moreover have "LA_Denied u (ap_id a) \<notin> set L" for u using decided_denied [OF inv(2), of u "ap_id a"] b by auto
    ultimately have "justified L (ap_id a) v" using ck(2) st(2) by (auto simp: justified_def ran_in_def)
    with base c(1) \<open>planned cfg c v\<close> run(2) show ?thesis by (simp add: ran_inv_run)
  qed
qed

theorem action_inv_step: "action_step cfg w w' \<Longrightarrow> action_inv cfg w \<Longrightarrow> action_inv cfg w'"
  by (cases w; cases w')
    (auto simp: action_inv_def intro: rows_inv_step decided_inv_step claim_inv_step checked_inv_step ran_inv_step)

text \<open>What a step does to one row.\<close>

lemma move_row:
  assumes "action_move R j from to R'" "from \<in> {AX_Proposed, AX_Approved, AX_Executing}" "R k = Some b"
  shows "\<exists>c. R' k = Some c \<and> same_request b c \<and> prefix (ap_audit b) (ap_audit c) \<and>
    (ap_state b \<in> {AX_Denied, AX_Executed, AX_Failed} \<longrightarrow> c = b)"
  using assms(1) by (rule action_moveE) (use assms(2,3) in \<open>cases "k = j"; auto\<close>)

lemma step_row:
  assumes "action_step cfg (R, pc, L) (R', pc', L')" "R k = Some b"
  shows "\<exists>c. R' k = Some c \<and> same_request b c \<and> prefix (ap_audit b) (ap_audit c) \<and>
    (ap_state b \<in> {AX_Denied, AX_Executed, AX_Failed} \<longrightarrow> c = b)"
  using assms(1)
proof cases
  case (as_approve j u i)
  with move_row [OF as_approve(3) _ assms(2)] show ?thesis by simp
next
  case (as_deny j u i)
  with move_row [of R j _ _ R' k b] assms(2) show ?thesis by blast
next
  case (as_refuse i a as)
  with move_row [of R "ap_id a" _ _ R' k b] assms(2) show ?thesis by (cases "R' = R") auto
next
  case (as_claim i a v as)
  with move_row [of R "ap_id a" _ _ R' k b] assms(2) show ?thesis by blast
next
  case (as_finish i a v r as)
  with move_row [of R "ap_id a" _ _ R' k b] assms(2) show ?thesis by (cases "R' = R") auto
qed (use assms(2) in auto)

section \<open>The program refines it\<close>

definition abs_world :: "'f soar_world \<Rightarrow> action_world" where
  "abs_world w = (tab_row (so_actions (wd_store w)), wd_pc w, wd_log w)"

lemma advanced_fields [simp]:
  "ap_id (advanced to actor detail result t a) = ap_id a" "ap_kind (advanced to actor detail result t a) = ap_kind a"
  "ap_arg (advanced to actor detail result t a) = ap_arg a" "ap_case_id (advanced to actor detail result t a) = ap_case_id a"
  "ap_state (advanced to actor detail result t a) = to"
  "ap_audit (advanced to actor detail result t a) = ap_audit a @ [\<lparr>ae_at = t, ae_actor = actor, ae_detail = detail\<rparr>]"
  by (cases to; simp add: advanced_def ap_record_def Let_def)+

lemma advanced_move:
  assumes "tab_row rows k = Some a"
  shows "action_move (tab_row rows) k (ap_state a) to (tab_row (tab_put k (Some (advanced to actor detail result t a)) rows))"
proof -
  let ?b = "advanced to actor detail result t a"
  have "same_request a ?b" "prefix (ap_audit a) (ap_audit ?b)" by (simp_all add: same_request_def)
  with assms show ?thesis unfolding action_move_def by (intro exI [of _ a] exI [of _ ?b]) simp
qed

lemma transition_effect:
  fixes db0 rows0 db ident "from" to actor detail result t rows
  defines "res \<equiv> transition_action db0 rows0 db ident from to actor detail result t rows"
  shows "(\<exists>e. res = (Err e, rows)) \<or>
     (\<exists>b a. get_action db0 ident rows0 = Ok (Some b) \<and> tab_row rows (ap_id b) = Some a \<and> ap_state a \<in> set from \<and>
        res = (Ok (advanced to actor detail result t a), tab_put (ap_id a) (Some (advanced to actor detail result t a)) rows))"
proof (cases "get_action db0 ident rows0")
  case (Inr found)
  show ?thesis
  proof (cases "\<exists>b a. found = Some b \<and> db = None \<and> map_of rows (ap_id b) = Some (Some a) \<and> ap_state a \<in> set from")
    case True
    with Inr show ?thesis by (auto simp: res_def transition_action_def row_eq_Some Let_def)
  next
    case False
    with Inr have "\<exists>e. res = (Err e, rows)"
      by (auto simp: res_def transition_action_def split: option.split)
    then show ?thesis ..
  qed
qed (simp add: res_def transition_action_def)

lemma transition_cases:
  assumes "transition_action db0 rows0 db ident from to actor detail result t rows = (r, rows')"
  obtains e where "r = Err e" "rows' = rows"
    | b a where "get_action db0 ident rows0 = Ok (Some b)" "tab_row rows (ap_id b) = Some a" "ap_state a \<in> set from"
        "r = Ok (advanced to actor detail result t a)" "rows' = tab_put (ap_id a) (Some (advanced to actor detail result t a)) rows"
  using transition_effect [of db0 rows0 db ident "from" to actor detail result t rows] assms by auto

lemma transition_move:
  assumes "transition_action db0 rows0 db ident from to actor detail result t rows = (r, rows')"
    and ids: "\<And>k a. tab_row rows k = Some a \<Longrightarrow> ap_id a = k"
  shows "(rows' = rows \<and> \<not> is_ok r) \<or> (\<exists>a f. r = Ok a \<and> f \<in> set from \<and> action_move (tab_row rows) (ap_id a) f to (tab_row rows'))"
  using assms(1)
proof (cases rule: transition_cases)
  case (2 b a)
  with ids [OF 2(2)] advanced_move [OF 2(2), of to actor detail result t] show ?thesis by auto
qed simp

lemma get_action_exact: "tab_row rows ident = Some b \<Longrightarrow> get_action db ident rows = Ok (Some c) \<Longrightarrow> c = b"
  by (auto simp: get_action_def row_eq_Some split: if_splits)

lemma exec_transition_move:
  assumes "exec_transition db0 db a from to detail result t rows = (r, rows')"
    and ids: "\<And>k a. tab_row rows k = Some a \<Longrightarrow> ap_id a = k" and row: "tab_row rows (ap_id a) = Some b"
  shows "(rows' = rows \<and> \<not> is_ok r) \<or> (is_ok r \<and> action_move (tab_row rows) (ap_id a) from to (tab_row rows'))"
  using assms(1) unfolding exec_transition_def
proof (cases rule: transition_cases)
  case (2 c d)
  with get_action_exact [OF row] have "c = b" by blast
  with 2 ids [OF row] row have "d = b" "ap_state b = from" by auto
  with 2 ids [OF row] advanced_move [OF row, of to "''executor''" detail result t] show ?thesis by auto
qed simp

lemma transition_table: "table_ok rows \<Longrightarrow> table_ok (snd (transition_action db0 rows0 db ident from to actor detail result t rows))"
  using transition_effect [of db0 rows0 db ident "from" to actor detail result t rows] by auto

lemma decide_effect:
  "(\<exists>e. admin_decide from to detail who ident ok db0 rows0 db t rows = (Err e, rows)) \<or>
   (\<exists>u j a rows'. who = Some u \<and> ident = Some j \<and> ok \<and>
      transition_action db0 rows0 db j from to u detail None t rows = (Ok a, rows') \<and>
      admin_decide from to detail who ident ok db0 rows0 db t rows = (Ok a, rows'))"
proof (cases "\<exists>u j. who = Some u \<and> ident = Some j \<and> ok")
  case True
  then obtain u j where "who = Some u" "ident = Some j" ok by blast
  with transition_effect [of db0 rows0 db j "from" to u detail None t rows] show ?thesis
    by (auto simp: admin_decide_def)
qed (auto simp: admin_decide_def split: option.split)

lemma propose_cases:
  assumes "put_action_proposal db a rows = (r, rows')"
  shows "rows' = rows \<or> (tab_row rows (ap_id a) = None \<and> ap_state a = AX_Proposed \<and> rows' = tab_put (ap_id a) (Some a) rows)"
  using assms by (auto simp: put_action_proposal_def tab_row_def split: if_splits option.splits)

lemma agent_propose_put:
  "snd (propose_action uuid t t' db c kind arg rationale rows) = rows \<or>
   (\<exists>a. snd (propose_action uuid t t' db c kind arg rationale rows) = snd (put_action_proposal db a rows))"
proof (cases "Option.bind kind action_kind")
  case (Some k)
  then show ?thesis
    by (cases "validate_arg k (trim (unwrap_or arg []))") (auto simp: propose_action_def Let_def split_beta)
qed (simp add: propose_action_def)

lemma cli_propose_put:
  "snd (cli_propose uuid t t' dbs cases kind arg case_arg rationale rows) = rows \<or>
   (\<exists>a. snd (cli_propose uuid t t' dbs cases kind arg case_arg rationale rows) = snd (put_action_proposal (dbs 2) a rows))"
proof (cases "action_kind kind")
  case (Some k)
  show ?thesis
  proof (cases "validate_arg k arg")
    case (Inr u)
    with Some show ?thesis
      by (cases "get_case (dbs 0) case_arg cases") (simp_all add: cli_propose_def Let_def split: option.split prod.split, metis snd_conv)
  qed (simp add: cli_propose_def Some del: action_kind.simps)
qed (simp add: cli_propose_def del: action_kind.simps)

lemma propose_simulated:
  assumes "rows' = rows \<or> (\<exists>a. rows' = snd (put_action_proposal db a rows))"
  shows "action_step cfg (tab_row rows, pc, L) (tab_row rows', pc, L)" "table_ok rows \<Longrightarrow> table_ok rows'"
  using assms propose_cases [of db _ rows] as_propose [of "tab_row rows"] as_idle
  by (metis prod.collapse row_put, metis prod.collapse table_ok_put)

lemma decide_table:
  assumes "admin_decide from to detail who ident ok db0 rows0 db t rows = (r, rows')" "table_ok rows"
  shows "table_ok rows'"
  using decide_effect [of "from" to detail who ident ok db0 rows0 db t rows] assms
    transition_table [OF assms(2), of db0 rows0 db _ "from" to _ detail None t] by (metis prod.inject snd_conv)

lemma decide_simulated:
  assumes "admin_decide from to detail who ident ok db0 rows0 db t rows = (r, rows')"
    and ids: "\<And>k a. tab_row rows k = Some a \<Longrightarrow> ap_id a = k"
    and step: "\<And>f k u j R'. f \<in> set from \<Longrightarrow> action_move (tab_row rows) k f to R' \<Longrightarrow>
      action_step cfg (tab_row rows, pc, L) (R', pc, L @ [LA_Audited u j, ev u k])"
  shows "action_step cfg (tab_row rows, pc, L) (tab_row rows', pc, L @ decision_events ev who ident ok r)"
  using decide_effect [of "from" to detail who ident ok db0 rows0 db t rows]
proof (elim disjE exE conjE)
  fix e assume "admin_decide from to detail who ident ok db0 rows0 db t rows = (Err e, rows)"
  with assms(1) have "rows' = rows" "r = Err e" by auto
  then show ?thesis
    by (auto simp: decision_events_def as_idle split: option.split intro: as_audit)
next
  fix u j a rows2
  assume w: "who = Some u" "ident = Some j" ok "admin_decide from to detail who ident ok db0 rows0 db t rows = (Ok a, rows2)"
    and t: "transition_action db0 rows0 db j from to u detail None t rows = (Ok a, rows2)"
  with assms(1) have "r = Ok a" "rows2 = rows'" by auto
  with transition_move [OF t ids] w step show ?thesis by (auto simp: decision_events_def)
qed

lemma approve_simulated:
  assumes "admin_decide [AX_Proposed] AX_Approved detail who ident ok db0 rows0 db t rows = (r, rows')"
    and "\<And>k a. tab_row rows k = Some a \<Longrightarrow> ap_id a = k"
  shows "action_step cfg (tab_row rows, pc, L) (tab_row rows', pc, L @ decision_events LA_Approved who ident ok r)"
  by (rule decide_simulated [OF assms]) (auto intro: as_approve)

lemma deny_simulated:
  assumes "admin_decide [AX_Proposed, AX_Approved] AX_Denied detail who ident ok db0 rows0 db t rows = (r, rows')"
    and "\<And>k a. tab_row rows k = Some a \<Longrightarrow> ap_id a = k"
  shows "action_step cfg (tab_row rows, pc, L) (tab_row rows', pc, L @ decision_events LA_Denied who ident ok r)"
  by (rule decide_simulated [OF assms]) (auto intro: as_deny)

lemma revalidate_Ok:
  assumes "revalidate cfg db st a = Ok u"
  shows "validate_arg (ap_kind a) (ap_arg a) = Ok ()" "\<not> (ap_kind a = AK_BlockIp \<and> is_never_block cfg (ap_arg a))"
    "get_case (db 0) (ap_case_id a) (so_cases st) = Ok (Some c) \<Longrightarrow>
     decisions_for (db 1) (so_records st) (ap_case_id a) = Ok ds \<Longrightarrow>
     outcomes_for_case (db 2) (so_records st) (ap_case_id a) = Ok ocs \<Longrightarrow>
     \<exists>d. effective_disposition ds ocs c = Some d \<and> d \<noteq> DI_Benign"
  using assms by (auto simp: revalidate_def split: if_splits sum.splits option.splits)

lemma prepare_planned:
  assumes "prepare cfg db st a = Plan_Run argv"
  shows "planned cfg a argv" "\<exists>u. revalidate cfg db st a = Ok u"
proof -
  from assms obtain u where u: "revalidate cfg db st a = Ok u" by (auto simp: prepare_def split: sum.splits)
  then show "\<exists>u. revalidate cfg db st a = Ok u" ..
  from assms u obtain tmpl where "template cfg (ap_kind a) = Some tmpl" "argv = argv_of tmpl (ap_arg a)" "argv \<noteq> []"
    by (auto simp: prepare_def Let_def split: option.splits if_splits)
  with revalidate_Ok(1,2) [OF u] show "planned cfg a argv" by (auto simp: planned_def)
qed

lemma exec_table: "table_ok rows \<Longrightarrow> table_ok (snd (exec_transition db0 db a from to detail result t rows))"
  unfolding exec_transition_def by (rule transition_table)

lemma fail_rows: "snd (fail_action db0 db a reason t rows) = snd (exec_transition db0 db a AX_Approved AX_Failed reason (Some reason) t rows)"
  by (simp add: fail_action_def Let_def)

lemma finish_rows:
  "\<exists>to detail. to \<in> {AX_Executed, AX_Failed} \<and> (\<exists>result. snd (finish_action db0 db a argv r t rows) =
     snd (exec_transition db0 db a AX_Executing to detail result t rows))"
proof (cases r)
  case (CR_Success out)
  then show ?thesis
    by (auto simp: finish_action_def Let_def split: prod.split sum.split intro!: exI [of _ AX_Executed]) (metis snd_conv)+
qed (auto simp: finish_action_def Let_def intro!: exI [of _ AX_Failed])

lemma actions_in_state_rows:
  assumes "actions_in_state db st rows = Ok as" "table_ok rows" "a \<in> set as"
  shows "\<exists>k. tab_row rows k = Some a" "ap_state a = st"
proof -
  from assms(1,3) have "a \<in> set (row_values rows)" "ap_state a = st"
    by (auto simp: actions_in_state_def list_actions_def all_rows_def split: sum.splits if_splits)
  then show "ap_state a = st" "\<exists>k. tab_row rows k = Some a"
    using table_ok_row [OF assms(2)] by (auto simp: row_values_mem)
qed

theorem soar_refines:
  assumes "soar_step cfg w w'" "table_ok (so_actions (wd_store w))" "rows_inv (tab_row (so_actions (wd_store w))) (wd_pc w)"
  shows "action_step cfg (abs_world w) (abs_world w')" "table_ok (so_actions (wd_store w'))"
proof -
  have ids: "tab_row (so_actions (wd_store w)) k = Some a \<Longrightarrow> ap_id a = k" for k a using assms(3) by (rule rows_inv_ids)
  have held: "\<exists>b. tab_row (so_actions (wd_store w)) (ap_id a) = Some b" if "a \<in> held (wd_pc w i)" for a i
    using assms(3) that unfolding rows_inv_def by blast
  note frame = abs_world_def set_actions_def set_pc_def log_events_def
  have "action_step cfg (abs_world w) (abs_world w') \<and> table_ok (so_actions (wd_store w'))"
    using assms(1)
  proof cases
    case (agent_proposes uuid t t' db c kind arg rationale r rows)
    with agent_propose_put [of uuid t t' db c kind arg rationale "so_actions (wd_store w)"] assms(2)
    show ?thesis using propose_simulated [of rows "so_actions (wd_store w)" db] by (auto simp: frame)
  next
    case (operator_proposes uuid t t' dbs kind arg case_arg rationale r rows)
    with cli_propose_put [of uuid t t' dbs "so_cases (wd_store w)" kind arg case_arg rationale "so_actions (wd_store w)"] assms(2)
    show ?thesis using propose_simulated [of rows "so_actions (wd_store w)" "dbs 2"] by (auto simp: frame)
  next
    case (approves rows0 who ident ok db0 db t r rows)
    with approve_simulated [OF approves(3) [unfolded admin_action_approve_def] ids] decide_table [OF approves(3) [unfolded admin_action_approve_def] assms(2)] show ?thesis
      by (simp add: frame)
  next
    case (denies rows0 reason who ident ok db0 db t r rows)
    with deny_simulated [OF denies(3) [unfolded admin_action_deny_def] ids] decide_table [OF denies(3) [unfolded admin_action_deny_def] assms(2)] show ?thesis
      by (simp add: frame)
  next
    case (operator_approves rows0 ident ok db0 db t r rows)
    with approve_simulated [OF operator_approves(3) [unfolded cli_approve_def] ids] decide_table [OF operator_approves(3) [unfolded cli_approve_def] assms(2)] show ?thesis
      by (simp add: frame)
  next
    case (operator_denies rows0 ident why ok db0 db t r rows)
    with deny_simulated [OF operator_denies(3) [unfolded cli_deny_def] ids] decide_table [OF operator_denies(3) [unfolded cli_deny_def] assms(2)] show ?thesis
      by (simp add: frame)
  next
    case (others_write cases records)
    with assms(2) show ?thesis by (simp add: frame as_idle)
  next
    case (executor_reads i db as)
    have "tab_row (so_actions (wd_store w)) (ap_id a) = Some a" if "a \<in> set as" for a
      using actions_in_state_rows(1) [OF executor_reads(3) assms(2) that] ids by blast
    with executor_reads assms(2) show ?thesis by (auto simp: frame intro: as_read)
  next
    case (executor_refuses i a as dbs reason db0 db t out rows)
    obtain b where b: "tab_row (so_actions (wd_store w)) (ap_id a) = Some b" using held [of a i] executor_refuses(2) by auto
    obtain r where r: "exec_transition db0 db a AX_Approved AX_Failed reason (Some reason) t (so_actions (wd_store w)) = (r, rows)"
      using fail_rows [of db0 db a reason t "so_actions (wd_store w)"] executor_refuses(4) by (metis prod.collapse snd_conv)
    with exec_transition_move [OF r ids b] exec_table [OF assms(2), of db0 db a AX_Approved AX_Failed reason "Some reason" t]
      executor_refuses(1,2) show ?thesis by (auto simp: frame intro: as_refuse)
  next
    case (executor_checks i a as dbs argv c ds ocs d)
    from prepare_planned [OF executor_checks(3)] revalidate_Ok(3) executor_checks(4-7) have "planned cfg a argv" "d \<noteq> DI_Benign"
      by (metis option.sel)+
    with executor_checks(1,2) assms(2) show ?thesis by (auto simp: frame intro: as_check)
  next
    case (executor_claims i a argv as db0 db t r rows)
    obtain b where b: "tab_row (so_actions (wd_store w)) (ap_id a) = Some b" using held [of a i] executor_claims(2) by auto
    note r = executor_claims(3) [unfolded claim_action_def]
    with exec_transition_move [OF r ids b] exec_table [OF assms(2), of db0 db a AX_Approved AX_Executing "''running action''" None t]
      executor_claims(1,2) show ?thesis by (auto simp: frame intro: as_claim as_lost)
  next
    case (executor_runs i a argv as r)
    with assms(2) show ?thesis by (auto simp: frame intro: as_run)
  next
    case (executor_finishes i a argv r as db0 db t out rows)
    obtain b where b: "tab_row (so_actions (wd_store w)) (ap_id a) = Some b" using held [of a i] executor_finishes(2) by auto
    obtain to detail result q where to: "to \<in> {AX_Executed, AX_Failed}"
      and q: "exec_transition db0 db a AX_Executing to detail result t (so_actions (wd_store w)) = (q, rows)"
      using finish_rows [of db0 db a argv r t "so_actions (wd_store w)"] executor_finishes(3) by (metis prod.collapse snd_conv)
    with exec_transition_move [OF q ids b] exec_table [OF assms(2), of db0 db a AX_Executing to detail result t]
      executor_finishes(1,2) show ?thesis by (auto simp: frame intro: as_finish)
  next
    case (executor_crashes i)
    with assms(2) show ?thesis by (auto simp: frame intro: as_crash)
  qed
  then show "action_step cfg (abs_world w) (abs_world w')" "table_ok (so_actions (wd_store w'))" by auto
qed

definition soar_inv :: "ExecutorConfig \<Rightarrow> 'f soar_world \<Rightarrow> bool" where
  "soar_inv cfg w \<longleftrightarrow> table_ok (so_actions (wd_store w)) \<and> action_inv cfg (abs_world w)"

lemma soar_inv_step: "soar_step cfg w w' \<Longrightarrow> soar_inv cfg w \<Longrightarrow> soar_inv cfg w'"
  using soar_refines [of cfg w w'] action_inv_step [of cfg "abs_world w" "abs_world w'"]
  by (auto simp: soar_inv_def action_inv_def abs_world_def)

lemma soar_inv_init: "soar_inv cfg (soar_init st)"
  by (simp add: soar_inv_def soar_init_def abs_world_def action_inv_def rows_inv_def decided_inv_def claim_inv_def
      checked_inv_def ran_inv_def table_ok_def tab_row_def ran_in_def)

lemma soar_inv_run: "soar_run cfg w w' \<Longrightarrow> soar_inv cfg w \<Longrightarrow> soar_inv cfg w'"
  by (induction rule: soar_run.induct) (auto intro: soar_inv_step)

section \<open>The executor alone\<close>

lemma soar_run_trans: "soar_run cfg w w' \<Longrightarrow> soar_run cfg w' w'' \<Longrightarrow> soar_run cfg w w''"
  by (rotate_tac, induction rule: soar_run.induct) (auto intro: soar_more)

lemma soar_run_one: "soar_step cfg w w' \<Longrightarrow> soar_run cfg w w'"
  by (rule soar_more [OF soar_start])

lemma revalidate_evidence:
  assumes "revalidate cfg db st a = Ok u"
  obtains c ds ocs d where "get_case (db 0) (ap_case_id a) (so_cases st) = Ok (Some c)"
    "decisions_for (db 1) (so_records st) (ap_case_id a) = Ok ds" "outcomes_for_case (db 2) (so_records st) (ap_case_id a) = Ok ocs"
    "effective_disposition ds ocs c = Some d"
  using assms by (auto simp: revalidate_def split: if_splits sum.splits option.splits)

text \<open>One execution without interference is a run of the steps, and so is a whole pass over the approved actions.\<close>

lemma execute_run:
  assumes pc: "wd_pc w i = PC_Todo (a # as)" and ex: "execute cfg n a (wd_store w) = (out, st')"
  shows "\<exists>w'. soar_run cfg w w' \<and> wd_store w' = st' \<and> wd_pc w' = (wd_pc w)(i := PC_Todo as)"
proof (cases "prepare cfg (ans_db n) (wd_store w) a")
  case (Plan_Fail reason)
  obtain r rows where f: "fail_action (ans_db n 3) (ans_db n 4) a reason (ans_clock n 0) (so_actions (wd_store w)) = (r, rows)"
    by fastforce
  let ?w = "set_pc i (PC_Todo as) (set_actions rows w)"
  have "soar_run cfg w ?w" by (rule soar_run_one, rule executor_refuses [OF pc Plan_Fail f])
  moreover have "wd_store ?w = st'" "wd_pc ?w = (wd_pc w)(i := PC_Todo as)"
    using ex f Plan_Fail by (auto simp: execute_def set_pc_def set_actions_def)
  ultimately show ?thesis by blast
next
  case (Plan_Run argv)
  obtain u where "revalidate cfg (ans_db n) (wd_store w) a = Ok u" using prepare_planned(2) [OF Plan_Run] by blast
  then obtain c ds ocs d where ev: "get_case (ans_db n 0) (ap_case_id a) (so_cases (wd_store w)) = Ok (Some c)"
    "decisions_for (ans_db n 1) (so_records (wd_store w)) (ap_case_id a) = Ok ds"
    "outcomes_for_case (ans_db n 2) (so_records (wd_store w)) (ap_case_id a) = Ok ocs" "effective_disposition ds ocs c = Some d"
    by (rule revalidate_evidence)
  define w1 where "w1 = log_events [LA_Checked (ap_id a) argv d] (set_pc i (PC_Claim a argv as) w)"
  have r1: "soar_run cfg w w1" unfolding w1_def by (rule soar_run_one, rule executor_checks [OF pc Plan_Run ev])
  have w1: "wd_store w1 = wd_store w" "wd_pc w1 = (wd_pc w)(i := PC_Claim a argv as)"
    by (simp_all add: w1_def log_events_def set_pc_def)
  obtain r rows where c: "claim_action (ans_db n 3) (ans_db n 4) a (ans_clock n 0) (so_actions (wd_store w)) = (r, rows)" by fastforce
  define w2 where "w2 = set_pc i (if is_ok r then PC_Run a argv as else PC_Todo as) (set_actions rows w1)"
  have r2: "soar_run cfg w w2" unfolding w2_def
    by (rule soar_more [OF r1], rule executor_claims [of w1 i a argv as "ans_db n 3" "ans_db n 4" "ans_clock n 0"]) (simp_all add: w1 c)
  have w2: "wd_store w2 = (wd_store w)\<lparr>so_actions := rows\<rparr>" "wd_pc w2 = (wd_pc w)(i := (if is_ok r then PC_Run a argv as else PC_Todo as))"
    by (simp_all add: w2_def set_pc_def set_actions_def w1)
  show ?thesis
  proof (cases r)
    case (Inl e)
    with ex c Plan_Run w2 r2 show ?thesis by (auto simp: execute_def)
  next
    case (Inr b)
    define w3 where "w3 = log_events [LA_Ran (ap_id a) argv] (set_pc i (PC_Finish a argv (ans_run n argv) as) w2)"
    have r3: "soar_run cfg w w3" unfolding w3_def by (rule soar_more [OF r2], rule executor_runs) (simp add: w2 Inr)
    have w3: "wd_store w3 = wd_store w2" "wd_pc w3 = (wd_pc w)(i := PC_Finish a argv (ans_run n argv) as)"
      by (simp_all add: w3_def log_events_def set_pc_def w2)
    obtain q rows' where f: "finish_action (ans_db n 5) (ans_db n 6) a argv (ans_run n argv) (ans_clock n 1) rows = (q, rows')" by fastforce
    let ?w = "set_pc i (PC_Todo as) (set_actions rows' w3)"
    have "soar_run cfg w ?w"
      by (rule soar_more [OF r3], rule executor_finishes [of w3 i a argv "ans_run n argv" as "ans_db n 5" "ans_db n 6" "ans_clock n 1" q])
        (simp_all add: w3 w2 f [simplified])
    moreover have "wd_store ?w = st'" "wd_pc ?w = (wd_pc w)(i := PC_Todo as)"
      using ex c f Plan_Run Inr by (auto simp: execute_def set_pc_def set_actions_def w3 w2)
    ultimately show ?thesis by blast
  qed
qed

lemma run_actions_run:
  "wd_pc w i = PC_Todo as \<Longrightarrow> run_actions cfg n j as (wd_store w) = (rs, st') \<Longrightarrow>
   \<exists>w'. soar_run cfg w w' \<and> wd_store w' = st' \<and> wd_pc w' = (wd_pc w)(i := PC_Todo [])"
proof (induction as arbitrary: w j rs)
  case Nil
  then show ?case by (auto intro!: exI [of _ w] soar_start)
next
  case (Cons a as)
  obtain out st1 where e: "execute cfg (n j) a (wd_store w) = (out, st1)" by fastforce
  with execute_run [OF Cons.prems(1)] obtain w1
    where w1: "soar_run cfg w w1" "wd_store w1 = st1" "wd_pc w1 = (wd_pc w)(i := PC_Todo as)" by blast
  from Cons.prems(2) e obtain rs' where "run_actions cfg n (Suc j) as st1 = (rs', st')" by (auto split: prod.splits)
  with Cons.IH [of w1 "Suc j" rs'] w1 obtain w2 where "soar_run cfg w1 w2" "wd_store w2 = st'" "wd_pc w2 = (wd_pc w1)(i := PC_Todo [])"
    by (metis fun_upd_same)
  with w1 soar_run_trans show ?case by fastforce
qed

lemma run_once_run:
  assumes "wd_pc w i = PC_Todo []" "run_once cfg db n (wd_store w) = (r, st')"
  shows "\<exists>w'. soar_run cfg w w' \<and> wd_store w' = st' \<and> wd_pc w' = wd_pc w"
proof (cases "actions_in_state db AX_Approved (so_actions (wd_store w))")
  case (Inl e)
  with assms show ?thesis by (auto simp: run_once_def intro!: exI [of _ w] soar_start)
next
  case (Inr as)
  obtain rs st1 where e: "run_actions cfg n 0 as (wd_store w) = (rs, st1)" by fastforce
  let ?w = "set_pc i (PC_Todo as) w"
  have "soar_run cfg w ?w" by (rule soar_run_one, rule executor_reads [OF assms(1) Inr])
  moreover have "\<exists>w'. soar_run cfg ?w w' \<and> wd_store w' = st1 \<and> wd_pc w' = (wd_pc ?w)(i := PC_Todo [])"
    by (rule run_actions_run [of ?w i as cfg n 0 rs]) (simp_all add: set_pc_def e)
  moreover have "(wd_pc ?w)(i := PC_Todo []) = wd_pc w" using assms(1) by (auto simp: set_pc_def)
  ultimately show ?thesis using assms(2) Inr e soar_run_trans by (fastforce simp: run_once_def)
qed

subsection \<open>A pass settles\<close>

lemma exec_transition_ok:
  assumes row: "tab_row rows (ap_id a) = Some b" and "ap_id b = ap_id a" "ap_state b = from" "trim (ap_id a) \<noteq> []"
  shows "exec_transition None None a from to detail result t rows =
    (Ok (advanced to ''executor'' detail result t b), tab_put (ap_id a) (Some (advanced to ''executor'' detail result t b)) rows)"
  using assms by (simp add: exec_transition_def transition_action_def get_action_def row_eq_Some Let_def)

definition settles :: "action_map \<Rightarrow> string \<Rightarrow> action_map \<Rightarrow> bool" where
  "settles R k R' \<longleftrightarrow> (\<exists>b. ap_id b = k \<and> ap_state b \<in> {AX_Executed, AX_Failed} \<and> R' = R(k := Some b))"

lemma settles_advanced:
  "ap_id b = k \<Longrightarrow> to \<in> {AX_Executed, AX_Failed} \<Longrightarrow> settles (tab_row rows) k (tab_row (tab_put k (Some (advanced to actor detail result t b)) rows))"
  unfolding settles_def row_put by (rule exI [of _ "advanced to actor detail result t b"]) simp

lemma execute_settles:
  assumes row: "tab_row (so_actions st) (ap_id a) = Some b" "ap_id b = ap_id a" "ap_state b = AX_Approved" "trim (ap_id a) \<noteq> []"
    and db: "ans_db n = (\<lambda>_. None)"
  shows "settles (tab_row (so_actions st)) (ap_id a) (tab_row (so_actions (snd (execute cfg n a st))))"
proof (cases "prepare cfg (ans_db n) st a")
  case (Plan_Fail reason)
  have "settles (tab_row (so_actions st)) (ap_id a) (tab_row (snd (fail_action None None a reason (ans_clock n 0) (so_actions st))))"
    unfolding fail_rows exec_transition_ok [OF row] using row(2) by (simp add: settles_advanced del: row_put)
  with Plan_Fail db show ?thesis by (simp add: execute_def split_beta)
next
  case (Plan_Run argv)
  define c where "c = advanced AX_Executing ''executor'' ''running action'' None (ans_clock n 0) b"
  let ?rows = "tab_put (ap_id a) (Some c) (so_actions st)"
  have claim: "claim_action None None a (ans_clock n 0) (so_actions st) = (Ok c, ?rows)"
    unfolding claim_action_def c_def by (rule exec_transition_ok [OF row])
  have c: "tab_row ?rows (ap_id a) = Some c" "ap_id c = ap_id a" "ap_state c = AX_Executing" by (simp_all add: c_def row(2))
  obtain to detail result where to: "to \<in> {AX_Executed, AX_Failed}"
    and f: "snd (finish_action None None a argv (ans_run n argv) (ans_clock n 1) ?rows) =
      snd (exec_transition None None a AX_Executing to detail result (ans_clock n 1) ?rows)"
    using finish_rows [of None None a argv "ans_run n argv" "ans_clock n 1" ?rows] by blast
  have "settles (tab_row ?rows) (ap_id a) (tab_row (snd (finish_action None None a argv (ans_run n argv) (ans_clock n 1) ?rows)))"
    unfolding f exec_transition_ok [OF c row(4)] using settles_advanced [OF c(2) to, of ?rows] by simp
  then have "settles (tab_row (so_actions st)) (ap_id a) (tab_row (snd (finish_action None None a argv (ans_run n argv) (ans_clock n 1) ?rows)))"
    by (simp add: settles_def)
  with Plan_Run db claim show ?thesis by (simp add: execute_def split_beta)
qed

lemma run_actions_settles:
  assumes "\<And>a. a \<in> set as \<Longrightarrow> \<exists>b. tab_row (so_actions st) (ap_id a) = Some b \<and> ap_id b = ap_id a \<and> ap_state b = AX_Approved \<and> trim (ap_id a) \<noteq> []"
    and "distinct (map ap_id as)" "\<And>i. ans_db (n i) = (\<lambda>_. None)"
  shows "(\<forall>a \<in> set as. state_of (tab_row (so_actions (snd (run_actions cfg n i as st)))) (ap_id a) \<in> {Some AX_Executed, Some AX_Failed}) \<and>
    (\<forall>k. k \<notin> ap_id ` set as \<longrightarrow> tab_row (so_actions (snd (run_actions cfg n i as st))) k = tab_row (so_actions st) k)"
  using assms(1,2)
proof (induction as arbitrary: st i)
  case (Cons a as)
  obtain out st1 where e: "execute cfg (n i) a st = (out, st1)" by fastforce
  obtain b where b: "tab_row (so_actions st) (ap_id a) = Some b" "ap_id b = ap_id a" "ap_state b = AX_Approved" "trim (ap_id a) \<noteq> []"
    using Cons.prems(1) [of a] by auto
  have s: "settles (tab_row (so_actions st)) (ap_id a) (tab_row (so_actions st1))" using execute_settles [OF b assms(3), of cfg i] e by simp
  then obtain c where c: "ap_state c \<in> {AX_Executed, AX_Failed}" "tab_row (so_actions st1) = (tab_row (so_actions st))(ap_id a := Some c)"
    by (auto simp: settles_def)
  have "tab_row (so_actions st1) (ap_id a') = tab_row (so_actions st) (ap_id a')" if "a' \<in> set as" for a'
    using c Cons.prems(2) that by (metis (mono_tags, lifting) distinct.simps(2) fun_upd_apply image_eqI list.set_map list.simps(9))
  with Cons.prems(1) have "\<exists>b. tab_row (so_actions st1) (ap_id a') = Some b \<and> ap_id b = ap_id a' \<and> ap_state b = AX_Approved \<and> trim (ap_id a') \<noteq> []"
    if "a' \<in> set as" for a' using that by simp
  from Cons.IH [OF this, of "Suc i"] Cons.prems(2) c
  show ?case by (auto simp: e split_beta state_of_def)
qed simp

lemma actions_in_state_mem:
  assumes "actions_in_state db st rows = Ok as" "table_ok rows"
  shows "a \<in> set as \<longleftrightarrow> (\<exists>k. tab_row rows k = Some a) \<and> ap_state a = st"
proof -
  have "a \<in> set as \<longleftrightarrow> a \<in> set (row_values rows) \<and> ap_state a = st"
    using assms(1) by (auto simp: actions_in_state_def list_actions_def all_rows_def split: sum.splits if_splits)
  moreover have "a \<in> set (row_values rows) \<longleftrightarrow> (\<exists>k. tab_row rows k = Some a)"
    using table_ok_row [OF assms(2)] by (auto simp: row_values_mem row_eq_Some dest: map_of_SomeD)
  ultimately show ?thesis by simp
qed

lemma actions_in_state_distinct:
  assumes "actions_in_state db st rows = Ok as" "table_ok rows" "\<And>k a. tab_row rows k = Some a \<Longrightarrow> ap_id a = k"
  shows "distinct (map ap_id as)"
proof -
  have "as = filter (\<lambda>a. ap_state a = st) (sort_key (\<lambda>a. - ap_created_at a) (row_values rows))"
    using assms(1) by (auto simp: actions_in_state_def list_actions_def all_rows_def split: sum.splits if_splits)
  moreover have "distinct (map ap_id (sort_key (\<lambda>a. - ap_created_at a) (row_values rows)))"
    using row_values_distinct [OF assms(2,3)] by (simp add: distinct_map)
  ultimately show ?thesis using distinct_map_filter by simp
qed

lemma revalidate_cong:
  assumes "so_cases st = so_cases st'"
    and "decisions_for (db 1) (so_records st) (ap_case_id a) = decisions_for (db 1) (so_records st') (ap_case_id a)"
    and "outcomes_for_case (db 2) (so_records st) (ap_case_id a) = outcomes_for_case (db 2) (so_records st') (ap_case_id a)"
  shows "revalidate cfg db st a = revalidate cfg db st' a"
  unfolding revalidate_def assms ..

end
