(* ===== verification/Response_Properties.thy ===== *)
theory Response_Properties
  imports Response_Laws
begin

text \<open>
  Properties of response actions: what precedes a command, that a pass of the executor settles what was approved, what an
  analyst's decision does to a pending action, and what an unreadable one does. A concrete deployment is at the start.
\<close>

section \<open>A deployment\<close>

definition ex_x_event :: "int Event" where
  "ex_x_event = \<lparr>ev_ts = 0, ev_host = ''h1'', ev_service = ''sshd'', ev_source = ''j'', ev_environment = ''p'',
     ev_severity = ''w'', ev_log_type = ''auth'', ev_message = ''m'', ev_fields = Map.empty\<rparr>"

definition ex_x_case :: "unit Case" where
  "ex_x_case = (case_open ''c1'' \<lparr>dt_rule_id = ''r'', dt_rule_title = ''t'', dt_level = ''high'', dt_attack = [],
     dt_event = ex_x_event, dt_observed_at = 0, dt_realert_secs = None\<rparr>)
     \<lparr>cse_verdict := Some \<lparr>ve_disposition = DI_Malicious, ve_severity = 8, ve_confidence = (), ve_rationale = [],
        ve_proposed_action = None\<rparr>\<rparr>"

definition ex_x_records :: "unit record_store" where
  "ex_x_records = \<lparr>rs_predictions = [], rs_decisions = [], rs_outcomes = [], rs_feedback = [], rs_false_negatives = [],
     rs_mistakes = []\<rparr>"

definition ex_x_action :: ActionProposal where
  "ex_x_action = new_proposal ''a1'' AK_IsolateHost ''h1'' ''c1'' [] 0 0 ''agent''"

definition ex_x_approved :: ActionProposal where
  "ex_x_approved = advanced AX_Approved ''eve'' ''approved via API'' None 1 ex_x_action"

definition ex_x_store :: "unit soar_store" where
  "ex_x_store = \<lparr>so_actions = [], so_cases = [(''c1'', Some ex_x_case)], so_records = ex_x_records\<rparr>"

definition ex_x_cfg :: ExecutorConfig where
  "ex_x_cfg = \<lparr>xc_enabled = True, xc_block_ip = None, xc_isolate_host = Some [''iso'', ''--host={arg}''], xc_never_block = []\<rparr>"

definition ex_x_argv :: "string list" where
  "ex_x_argv = [''iso'', ''--host=h1'']"

lemmas ex_x_defs = ex_x_event_def ex_x_case_def ex_x_records_def ex_x_action_def ex_x_approved_def ex_x_store_def
  ex_x_cfg_def ex_x_argv_def

lemmas ex_x_eval = ex_x_defs advanced_def ap_record_def new_proposal_def get_case_def get_row_def decisions_for_def
  list_decisions_def scan_tolerant_def outcomes_for_case_def list_incident_outcomes_def row_values_def map_filter_simps
  effective_disposition_def current_outcome_def current_decision_def case_open_def argv_of_def starts_with_def host_char_def Let_def

lemma ex_x_prepare: "prepare ex_x_cfg (\<lambda>_. None) (ex_x_store\<lparr>so_actions := rows\<rparr>) ex_x_approved = Plan_Run ex_x_argv"
  by (simp add: prepare_def revalidate_def ex_x_eval)

text \<open>The agent proposes, an administrator approves, the executor reads, checks, claims and runs.\<close>

definition ex_x_world :: "action_rows \<Rightarrow> exec_pc \<Rightarrow> soar_event list \<Rightarrow> unit soar_world" where
  "ex_x_world rows pc es = \<lparr>wd_store = ex_x_store\<lparr>so_actions := rows\<rparr>, wd_pc = (\<lambda>_. PC_Todo [])(0 := pc), wd_log = es\<rparr>"

definition ex_x_gate :: "soar_event list" where
  "ex_x_gate = [LA_Audited ''eve'' ''a1'', LA_Approved ''eve'' ''a1'']"

lemma ex_x_world_frame [simp]:
  "set_actions rows' (ex_x_world rows pc es) = ex_x_world rows' pc es" "set_pc 0 pc' (ex_x_world rows pc es) = ex_x_world rows pc' es"
  "log_events es' (ex_x_world rows pc es) = ex_x_world rows pc (es @ es')" "wd_store (ex_x_world rows pc es) = ex_x_store\<lparr>so_actions := rows\<rparr>"
  "wd_pc (ex_x_world rows pc es) 0 = pc"
  by (simp_all add: ex_x_world_def set_actions_def set_pc_def log_events_def fun_eq_iff)

definition ex_x_claimed :: ActionProposal where
  "ex_x_claimed = advanced AX_Executing ''executor'' ''running action'' None 2 ex_x_approved"

lemma ex_x_propose:
  "propose_action ''a1'' 0 0 None ex_x_case (Some ''isolate_host'') (Some ''h1'') None [] = (False, [(''a1'', Some ex_x_action)])"
  by code_simp

lemma ex_x_approve:
  "admin_action_approve (Some ''eve'') (Some ''a1'') True None [(''a1'', Some ex_x_action)] None 1 [(''a1'', Some ex_x_action)]
     = (Ok ex_x_approved, [(''a1'', Some ex_x_approved)])"
  by code_simp

lemma ex_x_read: "actions_in_state None AX_Approved [(''a1'', Some ex_x_approved)] = Ok [ex_x_approved]"
  by code_simp

lemma ex_x_claim: "claim_action None None ex_x_approved 2 [(''a1'', Some ex_x_approved)] = (Ok ex_x_claimed, [(''a1'', Some ex_x_claimed)])"
  by code_simp

lemma ex_x_evidence:
  "get_case None (ap_case_id ex_x_approved) (so_cases ex_x_store) = Ok (Some ex_x_case)"
  "decisions_for None (so_records ex_x_store) (ap_case_id ex_x_approved) = Ok []"
  "outcomes_for_case None (so_records ex_x_store) (ap_case_id ex_x_approved) = Ok []"
  "effective_disposition [] [] ex_x_case = Some DI_Malicious"
  by (simp_all add: ex_x_eval)

lemma ex_x_keys: "keys_ok [(''a1'', Some ex_x_action)]"
  by (simp add: keys_ok_def ex_x_action_def new_proposal_def)

definition ex_x_log :: "soar_event list" where
  "ex_x_log = ex_x_gate @ [LA_Checked ''a1'' ex_x_argv DI_Malicious]"

lemma ex_x_id: "ap_id ex_x_approved = ''a1''"
  by code_simp

lemma ex_x_run_approved:
  "soar_run ex_x_cfg (soar_init ex_x_store) (ex_x_world [(''a1'', Some ex_x_approved)] (PC_Todo []) ex_x_gate)"
proof -
  let ?C = ex_x_cfg and ?A = "[(''a1'', Some ex_x_approved)]"
  have start: "soar_init ex_x_store = ex_x_world [] (PC_Todo []) []"
    by (simp add: soar_init_def ex_x_world_def fun_eq_iff)
  have "soar_run ?C (soar_init ex_x_store) (ex_x_world [(''a1'', Some ex_x_action)] (PC_Todo []) [])"
    unfolding start by (rule soar_more [OF soar_start]) (use agent_proposes [of _ _ _ _ _ _ _ _ "ex_x_world [] (PC_Todo []) []"] ex_x_propose in auto)
  then show ?thesis
    by (rule soar_more)
      (use approves [OF ex_x_keys, where w = "ex_x_world [(''a1'', Some ex_x_action)] (PC_Todo []) []" and cfg = ?C, simplified]
         ex_x_approve ex_x_id in \<open>fastforce simp: decision_events_def ex_x_gate_def\<close>)
qed

lemma ex_x_run:
  "soar_run ex_x_cfg (soar_init ex_x_store)
     (ex_x_world [(''a1'', Some ex_x_claimed)] (PC_Finish ex_x_approved ex_x_argv CR_Timeout []) (ex_x_log @ [LA_Ran ''a1'' ex_x_argv]))"
proof -
  let ?C = ex_x_cfg and ?A = "[(''a1'', Some ex_x_approved)]"
  from ex_x_run_approved have "soar_run ?C (soar_init ex_x_store) (ex_x_world ?A (PC_Todo [ex_x_approved]) ex_x_gate)"
    by (rule soar_more) (use executor_reads [of "ex_x_world ?A (PC_Todo []) ex_x_gate" 0 None] ex_x_read in auto)
  then have "soar_run ?C (soar_init ex_x_store) (ex_x_world ?A (PC_Claim ex_x_approved ex_x_argv []) ex_x_log)"
    by (rule soar_more)
      (use executor_checks [of "ex_x_world ?A (PC_Todo [ex_x_approved]) ex_x_gate" 0 ex_x_approved "[]" ?C "\<lambda>_. None" ex_x_argv]
         ex_x_prepare ex_x_evidence ex_x_id in \<open>auto simp: ex_x_log_def\<close>)
  then have "soar_run ?C (soar_init ex_x_store) (ex_x_world [(''a1'', Some ex_x_claimed)] (PC_Run ex_x_approved ex_x_argv []) ex_x_log)"
    by (rule soar_more)
      (use executor_claims [of "ex_x_world ?A (PC_Claim ex_x_approved ex_x_argv []) ex_x_log" 0 ex_x_approved ex_x_argv "[]" None None 2]
         ex_x_claim in fastforce)
  then show ?thesis
    by (rule soar_more)
      (use executor_runs [of "ex_x_world [(''a1'', Some ex_x_claimed)] (PC_Run ex_x_approved ex_x_argv []) ex_x_log" 0 ex_x_approved ex_x_argv "[]"]
         ex_x_id in auto)
qed

section \<open>Properties\<close>



text \<open>
  C33. An action moves only along its lifecycle: whatever the agent, the operators and the executors do, its request never
  changes, its audit trail only grows, and one that was denied, executed or failed stays exactly as it is.
\<close>

theorem terminal_actions_are_final:
  assumes "soar_run cfg (soar_init st) w" "soar_run cfg w w'" "map_of (so_actions (wd_store w)) k = Some (Some a)"
  shows "\<exists>b. map_of (so_actions (wd_store w')) k = Some (Some b) \<and> same_request a b \<and> prefix (ap_audit a) (ap_audit b) \<and>
    (ap_state a \<in> {AX_Denied, AX_Executed, AX_Failed} \<longrightarrow> b = a)"
  using assms(2)
proof (induction rule: soar_run.induct)
  case soar_start
  with assms(3) show ?case by simp
next
  case (soar_more w1 w2)
  then obtain b where b: "tab_row (so_actions (wd_store w1)) k = Some b" "same_request a b" "prefix (ap_audit a) (ap_audit b)"
    "ap_state a \<in> {AX_Denied, AX_Executed, AX_Failed} \<longrightarrow> b = a" by (auto simp: row_eq_Some)
  have "soar_inv cfg w1" using soar_inv_run [OF soar_run_trans [OF assms(1) soar_more(1)] soar_inv_init] .
  then have st: "action_step cfg (abs_world w1) (abs_world w2)"
    using soar_refines(1) [OF soar_more(2)] by (auto simp: soar_inv_def abs_world_def action_inv_def)
  obtain c where c: "tab_row (so_actions (wd_store w2)) k = Some c" "same_request b c" "prefix (ap_audit b) (ap_audit c)"
    "ap_state b \<in> {AX_Denied, AX_Executed, AX_Failed} \<longrightarrow> c = b"
    using step_row [OF st [unfolded abs_world_def] b(1)] by blast
  have "map_of (so_actions (wd_store w2)) k = Some (Some c)" using c(1) by (simp add: row_eq_Some)
  moreover have "same_request a c" by (rule same_request_trans [OF b(2) c(2)])
  moreover have "prefix (ap_audit a) (ap_audit c)" by (rule prefix_order.trans [OF b(3) c(3)])
  moreover have "ap_state a \<in> {AX_Denied, AX_Executed, AX_Failed} \<longrightarrow> c = a" using b(4) c(4) by blast
  ultimately show ?case by blast
qed

theorem terminal_actions_are_final_witness:
  "\<exists>b. map_of (so_actions (wd_store (ex_x_world [(''a1'', Some ex_x_claimed)] (PC_Todo []) (ex_x_log @ [LA_Ran ''a1'' ex_x_argv])))) ''a1'' = Some (Some b) \<and>
     same_request ex_x_claimed b"
  using terminal_actions_are_final [OF ex_x_run, of _ "''a1''" ex_x_claimed]
    soar_run_one [OF executor_crashes [of ex_x_cfg "ex_x_world [(''a1'', Some ex_x_claimed)] (PC_Finish ex_x_approved ex_x_argv CR_Timeout []) (ex_x_log @ [LA_Ran ''a1'' ex_x_argv])" 0]]
  by fastforce

text \<open>
  C34. A pass of the executor that no storage fault interrupts settles every approved action: it is executed or failed
  afterwards, whatever the commands do, and no other action is touched.
\<close>

theorem run_once_settles:
  assumes "soar_run cfg (soar_init st) w" "None \<notin> snd ` set (so_actions (wd_store w))"
    and "\<And>k. k \<in> fst ` set (so_actions (wd_store w)) \<Longrightarrow> trim k \<noteq> []" "\<And>i. ans_db (n i) = (\<lambda>_. None)"
  shows "\<exists>rs. fst (run_once cfg None n (wd_store w)) = Ok rs \<and>
    (\<forall>k a. map_of (so_actions (wd_store w)) k = Some (Some a) \<longrightarrow>
       (\<exists>b. map_of (so_actions (snd (run_once cfg None n (wd_store w)))) k = Some (Some b) \<and>
          (if ap_state a = AX_Approved then ap_state b \<in> {AX_Executed, AX_Failed} else b = a)))"
proof -
  let ?rows = "so_actions (wd_store w)"
  have inv: "table_ok ?rows" "rows_inv (tab_row ?rows) (wd_pc w)"
    using soar_inv_run [OF assms(1) soar_inv_init] by (auto simp: soar_inv_def abs_world_def action_inv_def)
  note ids = rows_inv_ids [OF inv(2)]
  obtain as where as: "actions_in_state None AX_Approved ?rows = Ok as"
    using assms(2) by (simp add: actions_in_state_def list_actions_def all_rows_def undecodable_rows)
  have mem: "a \<in> set as \<longleftrightarrow> tab_row ?rows (ap_id a) = Some a \<and> ap_state a = AX_Approved" for a
    using actions_in_state_mem [OF as inv(1)] ids by metis
  have ok: "\<exists>b. tab_row ?rows (ap_id a) = Some b \<and> ap_id b = ap_id a \<and> ap_state b = AX_Approved \<and> trim (ap_id a) \<noteq> []" if "a \<in> set as" for a
    using mem [of a] that assms(3) [of "ap_id a"] by (force simp: row_eq_Some dest: map_of_SomeD)
  have d: "distinct (map ap_id as)" by (rule actions_in_state_distinct [OF as inv(1) ids])
  let ?st = "snd (run_actions cfg n 0 as (wd_store w))"
  have run: "run_once cfg None n (wd_store w) = (Ok (fst (run_actions cfg n 0 as (wd_store w))), ?st)"
    by (simp add: run_once_def as split_beta)
  note s = run_actions_settles [of as "wd_store w" n cfg 0, OF ok d assms(4)]
  have "\<exists>b. tab_row (so_actions ?st) k = Some b \<and> (if ap_state a = AX_Approved then ap_state b \<in> {AX_Executed, AX_Failed} else b = a)"
    if a: "tab_row ?rows k = Some a" for k a
  proof (cases "ap_state a = AX_Approved")
    case True
    with a ids [OF a] mem [of a] s show ?thesis by (auto simp: state_of_def)
  next
    case False
    have "k \<notin> ap_id ` set as" using False a mem by force
    with s a False show ?thesis by auto
  qed
  then show ?thesis by (simp add: run row_eq_Some)
qed

definition ex_x_ans :: "nat \<Rightarrow> exec_answers" where
  "ex_x_ans i = \<lparr>ans_db = (\<lambda>_. None), ans_clock = (\<lambda>_. 5), ans_run = (\<lambda>_. CR_Success ''ok'')\<rparr>"

theorem run_once_settles_witness:
  "\<exists>b. map_of (so_actions (snd (run_once ex_x_cfg None ex_x_ans (ex_x_store\<lparr>so_actions := [(''a1'', Some ex_x_approved)]\<rparr>)))) ''a1''
     = Some (Some b) \<and> ap_state b \<in> {AX_Executed, AX_Failed}"
proof -
  have "trim ''a1'' \<noteq> []" by code_simp
  moreover have "ap_state ex_x_approved = AX_Approved" by code_simp
  ultimately show ?thesis
    using run_once_settles [OF ex_x_run_approved, of ex_x_ans] by (fastforce simp: ex_x_ans_def split: if_splits)
qed

text \<open>
  C35. An analyst's benign decision recalls a pending action: once it is stored, if it is the newest of its case, nothing
  supersedes it and no incident outcome overrides it, the executor refuses the action whatever the agent's verdict was.
\<close>

theorem benign_decision_deauthorizes:
  assumes "append_decision show_nanos None d (so_records st) = (Ok (), rs)"
    and "ad_case_id d = ap_case_id a" "ad_disposition d = DI_Benign"
    and "table_ok (rs_decisions (so_records st))" "outcomes_for_case None (so_records st) (ap_case_id a) = Ok []"
    and "ad_supersedes d \<noteq> Some (ad_decision_id d)"
    and "\<And>e. e \<in> set (row_values (rs_decisions (so_records st))) \<Longrightarrow> ad_case_id e = ap_case_id a \<Longrightarrow>
           ad_created_at e < ad_created_at d \<and> ad_supersedes e \<noteq> Some (ad_decision_id d)"
  shows "\<exists>why. prepare cfg db (st\<lparr>so_records := rs\<rparr>) a = Plan_Fail why"
proof -
  let ?old = "rs_decisions (so_records st)"
  obtain k where rs: "rs = (so_records st)\<lparr>rs_decisions := tab_put k (Some d) ?old\<rparr>"
    using assms(1) by (auto simp: append_decision_def append_bytes_def Let_def)
  let ?ds = "sort_key ad_created_at (filter (\<lambda>e. ad_case_id e = ap_case_id a) (row_values (tab_put k (Some d) ?old)))"
  have mem: "set (row_values (tab_put k (Some d) ?old)) \<subseteq> insert d (set (row_values ?old))"
    by (rule row_values_put) (use assms(4) in \<open>simp add: table_ok_def\<close>)
  have new: "d \<in> set ?ds"
    using assms(2,4) tab_put_set [of ?old k "Some d"] by (auto simp: row_values_mem table_ok_def)
  have old: "e = d \<or> ad_created_at e < ad_created_at d \<and> ad_supersedes e \<noteq> Some (ad_decision_id d)" if "e \<in> set ?ds" for e
    using that mem assms(7) [of e] by auto
  have cur: "current_decision ?ds = Some d" unfolding current_decision_def
    by (rule max_by_key_strict) (use new old assms(6) in \<open>auto simp: list_ex_iff\<close>)
  have "\<not> is_ok (revalidate cfg db (st\<lparr>so_records := rs\<rparr>) a)"
  proof
    assume "is_ok (revalidate cfg db (st\<lparr>so_records := rs\<rparr>) a)"
    then obtain u where u: "revalidate cfg db (st\<lparr>so_records := rs\<rparr>) a = Ok u" by (auto elim: is_okE)
    then obtain c ds ocs e where ev: "get_case (db 0) (ap_case_id a) (so_cases (st\<lparr>so_records := rs\<rparr>)) = Ok (Some c)"
      "decisions_for (db 1) rs (ap_case_id a) = Ok ds" "outcomes_for_case (db 2) rs (ap_case_id a) = Ok ocs"
      "effective_disposition ds ocs c = Some e" by (rule revalidate_evidence) simp_all
    have "ds = ?ds" "ocs = []"
      using ev(2,3) assms(5) rs
      by (auto simp: decisions_for_def list_decisions_def scan_tolerant_def outcomes_for_case_def list_incident_outcomes_def split: sum.splits)
    then have "effective_disposition ds ocs c = Some DI_Benign"
      using cur assms(3) by (simp add: effective_disposition_def current_outcome_def)
    with revalidate_Ok(3) [OF u, of c ds ocs] ev show False by simp
  qed
  then show ?thesis by (auto simp: prepare_def split: sum.splits)
qed

definition ex_x_decision :: AnalystDecision where
  "ex_x_decision = \<lparr>ad_decision_id = ''d1'', ad_case_id = ''c1'', ad_principal = ''eve'', ad_disposition = DI_Benign, ad_severity = 0,
     ad_reason_codes = [], ad_narrative = [], ad_accepted_evidence = [], ad_rejected_evidence = [], ad_prediction_correct = None,
     ad_important_evidence_missed = None, ad_proposed_action_justified = None, ad_supersedes = None, ad_created_at = 3,
     ad_audit_id = None\<rparr>"

theorem benign_decision_deauthorizes_witness:
  "\<exists>why. prepare ex_x_cfg (\<lambda>_. None) (ex_x_store\<lparr>so_records := snd (append_decision (\<lambda>_. ''0'') None ex_x_decision ex_x_records)\<rparr>)
     ex_x_approved = Plan_Fail why"
  by (rule benign_decision_deauthorizes [of "\<lambda>_. ''0''" ex_x_decision])
    (simp_all add: ex_x_eval ex_x_decision_def append_decision_def append_bytes_def table_ok_def)

text \<open>
  C36. An override that cannot be read does not count: the executor treats a stored decision or outcome that does not decode
  as if it were not there, so an action that an analyst's benign decision had recalled is authorized again when that row is
  damaged, although the code says it refuses when the overrides cannot be read.
\<close>

theorem unreadable_override_is_ignored:
  "(\<forall>cfg db st a ds es os ps k.
      revalidate cfg db (st\<lparr>so_records := (so_records st)\<lparr>rs_decisions := ds @ (k, None) # es, rs_outcomes := os @ (k, None) # ps\<rparr>\<rparr>) a =
      revalidate cfg db (st\<lparr>so_records := (so_records st)\<lparr>rs_decisions := ds @ es, rs_outcomes := os @ ps\<rparr>\<rparr>) a) \<and>
   (let with_row = (\<lambda>r. ex_x_store\<lparr>so_records := ex_x_records\<lparr>rs_decisions := [(''c1|0|d1'', r)]\<rparr>\<rparr>)
    in \<not> is_ok (revalidate ex_x_cfg (\<lambda>_. None) (with_row (Some ex_x_decision)) ex_x_approved) \<and>
       is_ok (revalidate ex_x_cfg (\<lambda>_. None) (with_row None) ex_x_approved))"
proof (intro conjI allI)
  show "revalidate cfg db (st\<lparr>so_records := (so_records st)\<lparr>rs_decisions := ds @ (k, None) # es, rs_outcomes := os @ (k, None) # ps\<rparr>\<rparr>) a =
      revalidate cfg db (st\<lparr>so_records := (so_records st)\<lparr>rs_decisions := ds @ es, rs_outcomes := os @ ps\<rparr>\<rparr>) a"
    for cfg db and st :: "'a soar_store" and a ds es os ps k
    by (rule revalidate_cong) (simp_all add: decisions_for_def list_decisions_def scan_tolerant_def outcomes_for_case_def
        list_incident_outcomes_def row_values_skip)
next
  show "let with_row = (\<lambda>r. ex_x_store\<lparr>so_records := ex_x_records\<lparr>rs_decisions := [(''c1|0|d1'', r)]\<rparr>\<rparr>)
    in \<not> is_ok (revalidate ex_x_cfg (\<lambda>_. None) (with_row (Some ex_x_decision)) ex_x_approved) \<and>
       is_ok (revalidate ex_x_cfg (\<lambda>_. None) (with_row None) ex_x_approved)"
    by (simp add: revalidate_def ex_x_eval ex_x_decision_def max_by_key_def)
qed

end
