(* ===== verification/Spec2Isabelle.thy ===== *)
theory Spec2Isabelle
  imports Audit_Examples Access_Properties Governance_Properties Boundary_Properties Ingest_Properties Ha_Properties Sql_Guard
    Env_Properties Catalog_Properties Monitor_Properties Case_Properties Response_Properties
begin

text \<open>
  Garmr is a security event platform: collectors ship events to one writer, which stores them, evaluates detections and
  access policies, lets governed changes take effect, and records every security-relevant act in a tamper-evident ledger.
  This development verifies the parts that decide something and whose mistakes would be silent. Paths are under
  \<open>src/crates/\<close>.

  \<^bold>\<open>The audit ledger\<close> (\<open>garmr-audit\<close>). \<open>Audit_Record\<close> has the record, its builder and the content policy
  (\<open>event.rs\<close>, \<open>content.rs\<close>); \<open>Audit_Canonical\<close> the bytes a record hash covers (\<open>canonical.rs\<close>); \<open>Audit_Checkpoint\<close>
  signing and checkpoints (\<open>sign.rs\<close>, \<open>checkpoint.rs\<close>, \<open>error.rs\<close>); \<open>Audit_Segment\<close> the segment files (\<open>segment.rs\<close>);
  \<open>Audit_Ledger\<close> the writer with every answer of the operating system (\<open>ledger.rs\<close>); \<open>Audit_Verify\<close> the offline
  verifier (\<open>verify.rs\<close>). Over these, \<open>Audit_Spec\<close> states what a sound ledger is and that the verifier decides it;
  \<open>Audit_Honest\<close> and \<open>Audit_Run\<close> have the writer's invariant, its step relation and recovery; \<open>Audit_Faults\<close> what a caller
  may conclude from a result; \<open>Audit_Tamper\<close> what a checkpoint pins; \<open>Audit_Examples\<close> a concrete run. Their properties,
  C1 to C9, are below.

  \<^bold>\<open>Access audit and policy.\<close> \<open>App_Audit\<close> is the typed record read from and written to event fields and the access
  projection (\<open>garmr-core/src/app_audit.rs\<close>, \<open>event.rs\<close>, \<open>domain.rs\<close>), \<open>App_Roundtrip\<close> its round trip; \<open>Access_Policy\<close>
  is the policy engine (\<open>garmr-policy/src/lib.rs\<close>) and \<open>Policy_Laws\<close> its laws, where the fold of \<open>evaluate\<close> is an
  interpretation of the locale of folds that keep the first greatest element. Properties: \<open>Access_Properties\<close>, C10 to C12.

  \<^bold>\<open>Governance.\<close> \<open>Registry\<close> is the registry of governed records and promotions (\<open>garmr-core/src/registry.rs\<close>) and
  \<open>Retention\<close> the expiry of archives and the pruning of backups (\<open>retention.rs\<close>, \<open>backup_retention.rs\<close>). Properties:
  \<open>Governance_Properties\<close>, C13 to C15.

  \<^bold>\<open>Boundaries.\<close> \<open>Egress\<close> is the policy every outgoing connection asks (\<open>egress.rs\<close>, over the addresses of \<open>Std_Net\<close>),
  \<open>Auth\<close> user tokens, roles and data scopes (\<open>auth.rs\<close>), \<open>Collector\<close> the credentials of collectors (\<open>collector.rs\<close>).
  Properties: \<open>Boundary_Properties\<close>, C16 to C18.

  \<^bold>\<open>Delivery.\<close> \<open>Ingest_Seq\<close> is the tracking of batch numbers per collector and epoch
  (\<open>garmr-store/src/state/ingest_seq.rs\<close>) and the aggregation of gap audits (\<open>garmr-cli/src/ingest_seq.rs\<close>). Its
  invariant \<open>tracks\<close> relates the state to the whole history of observations and the set of numbers given up. Properties:
  \<open>Ingest_Properties\<close>, C19 and C20.

  \<^bold>\<open>Replication.\<close> \<open>Ha_Replica\<close> is the lease, shipping and pulling (\<open>garmr-retention/src/ha.rs\<close>) with the loops of the
  daemon that drive them (\<open>garmr-cli/src/serve.rs\<close>). \<open>Ha_Laws\<close> states the contract of the object store as a locale,
  interprets it on an in-memory store, and proves over it the invariant of interleaved promotions, by rule induction
  on \<open>lease_run\<close>, and what a ship leaves. Properties: \<open>Ha_Properties\<close>, C21 to C23.

  \<^bold>\<open>SQL guard.\<close> \<open>Sql_Guard\<close> is the read-only check and the confinement of source-scoped queries
  (\<open>garmr-store/src/sql_guard.rs\<close>), with its property, C24.

  \<^bold>\<open>Environment model.\<close> \<open>Env_Facts\<close> has the facts Garmr observes about its surroundings, their states, sources, digests
  and identifiers (\<open>garmr-core/src/environment.rs\<close>, with the asset roles of \<open>domain.rs\<close> and the case vocabulary of
  \<open>case.rs\<close> and \<open>dataset.rs\<close>); \<open>Env_Gate\<close> the gate a candidate passes before it is promoted; \<open>Env_Store\<close> the store with
  its candidates, pinned versions, blocked sources and history (\<open>garmr-store/src/state/environment.rs\<close>), the operator's
  handlers (\<open>garmr-cli/src/api/env.rs\<close>) and the daemon's loops that feed and promote (\<open>pipeline.rs\<close>). \<open>Env_Laws\<close> has
  the step relation over these operations and its invariants by rule induction. Properties: \<open>Env_Properties\<close>, C25 to C28.

  \<^bold>\<open>Catalog.\<close> \<open>Catalog\<close> is the catalog of applications, data stores and identities with its validation, indices and
  lookups (\<open>garmr-catalog/src/lib.rs\<close>); its property, C29, is in \<open>Catalog_Properties\<close>.

  \<^bold>\<open>Monitoring.\<close> \<open>Monitor\<close> is the monitoring of subjects, its scopes, its restrictions and its event log
  (\<open>garmr-monitor/src/lib.rs\<close>); its properties, C30 and C31, are in \<open>Monitor_Properties\<close>.

  \<^bold>\<open>Response actions.\<close> \<open>Response_Actions\<close> has proposals, the checks of their arguments, the operator's configuration, the
  guarded transitions of the table and who may propose and decide (\<open>garmr-core/src/action.rs\<close>, \<open>config.rs\<close>,
  \<open>garmr-agent/src/validate.rs\<close>, \<open>agent.rs\<close>, \<open>garmr-store/src/state/actions.rs\<close>, \<open>garmr-cli/src/api/admin.rs\<close>,
  \<open>cmd/agent.rs\<close>); \<open>Response_Executor\<close> the executor (\<open>garmr-agent/src/executor.rs\<close>), first as one call and then cut at
  every point where other tasks can run, as the step relation \<open>soar_step\<close> over any number of executors. \<open>Response_Laws\<close> has the
  abstract lifecycle of an action, its invariant, and the simulation by which every step of the program is a step of
  it. Properties: \<open>Response_Properties\<close>, C32 to C36.

  \<^bold>\<open>Cases.\<close> \<open>Case_Records\<close> has what agent and analysts said about a case and the tables that keep it
  (\<open>garmr-core/src/decision.rs\<close>, \<open>garmr-store/src/state/records.rs\<close>); \<open>Case_Work\<close> detections, cases, the merge of
  concurrent writers and the service-level clocks (\<open>detection.rs\<close>, \<open>case.rs\<close>, \<open>sla.rs\<close>, \<open>garmr-store/src/state/cases.rs\<close>);
  \<open>Case_Api\<close> the handlers of analysts (\<open>garmr-cli/src/api/feedback.rs\<close>) and \<open>case_history\<close>, any sequence of all these writes;
  \<open>Case_Laws\<close> what every write keeps. Properties: \<open>Case_Properties\<close>, C37 to C40.

  How they interact: a collector credential (\<open>Collector\<close>) authenticates a batch, whose number delivery tracking observes;
  the events become access records (\<open>App_Audit\<close>) that policies (\<open>Access_Policy\<close>) decide on; policies are governed records
  (\<open>Registry\<close>); queries of a user token with a data scope (\<open>Auth\<close>) go through the SQL guard; replication asks the egress
  policy for its store; the environment model learns from the events of collectors it has not blocked and is reported
  with the roles of assets, catalog entries give an access record its application and data class, and a monitoring
  window raises the attention a policy decision gets; a detection opens a case, the agent proposes an action for it, people
  decide, and the executor acts by the records of the case; refusals, promotions, gaps and retention runs end in the audit ledger.

  \<^bold>\<open>Conventions.\<close> A \<open>u64\<close> is a 64-bit word with the wrapping of the release profile, and saturating where the source
  saturates; times that are only compared are integers; strings are their UTF-8 bytes; a \<open>Result\<close> is a sum. What is not in
  the repository is an argument: BLAKE3, Ed25519, JSON, the SQL parser, the object store, the database, floating-point
  arithmetic and text, calendars, clocks, randomness and the answers of the operating system. What a theorem needs of an argument is a
premise of it, and its witness has a concrete instance. All functions are total; the only bounds are counters: fewer
  than \<open>2 ^ 64\<close> stored lines (C1), lost batches (C20) or lease writes (C21), beyond which a word would wrap.

  \<^bold>\<open>Shared lemmas.\<close> \<open>Garmr_Prelude\<close> has words, bytes, results and the locale of prefix codes that every framed encoder
  interprets; \<open>Garmr_Strings\<close> and \<open>Garmr_Text\<close> the string functions of the sources with trimming, splitting, decimal
  numbers and their round trips; \<open>Garmr_Tables\<close> the tables of the embedded database, rows in key order.

  \<^bold>\<open>Not modelled.\<close> Silences and routing, and the remaining core data types, are serialised data and delivery. Detection, baselines and analytics compute floating-point statistics or run queries of an embedded
  database; storage, search and graph call such engines; the agent and the language-model clients orchestrate external
  services; listeners, parsers of vendor formats, the command line, the HTTP interface and the web interface are input,
  output and presentation. Of the ledger, the hexadecimal form of digests is part of the JSON argument.
\<close>

section \<open>The audit ledger\<close>

text \<open>
  C1. The offline verifier decides soundness: for a directory of fewer than \<open>2 ^ 64\<close> stored lines it
  reports success exactly when the stored lines are records that form one chain from the genesis hash with
  sequence numbers 1, 2, 3, \<open>\<dots>\<close>, every signature present is by a trusted key and valid, and every
  checkpoint is authentic and met by the records.
\<close>

theorem verify_dir_decides_soundness:
  assumes "length (ledger_items D dk) < 2 ^ 64"
  shows "verifies D dk trust \<longleftrightarrow> (\<exists>ps. ledger_sound D dk trust ps)"
proof -
  have "(\<exists>rep. verify_dir D dk trust = Ok rep \<and> vr_ok rep) \<longleftrightarrow> (\<exists>ps. ledger_sound D dk trust ps)"
    by (rule verify_dir_decides) (use assms in \<open>simp add: ledger_items_def\<close>)
  then show ?thesis
    by (cases "verify_dir D dk trust") (simp_all add: verifies_def)
qed

theorem verify_dir_decides_soundness_witness:
  "\<exists>ps. ledger_sound ex_env (al_disk ex_L2) ex_trust ps"
  using verify_dir_decides_soundness [of ex_env "al_disk ex_L2" ex_trust] ex_verifies ex_items by simp







text \<open>
  The bytes a checkpoint signature covers commit to every field of the checkpoint but the signature.
\<close>

lemma signed_body_commits:
  assumes "chrono_ok D" "cp_ok D c" "cp_ok D c'"
  shows "signed_body D c = signed_body D c' \<longleftrightarrow> c\<lparr>cp_signature := Sig []\<rparr> = c'\<lparr>cp_signature := Sig []\<rparr>"
  by (rule signed_body_inj [OF assms])

lemma signed_body_commits_example:
  "signed_body ex_env ex_cp \<noteq> signed_body ex_env (ex_cp\<lparr>cp_sealed := False\<rparr>)"
proof -
  have "cp_ok ex_env ex_cp" "cp_sealed ex_cp"
    by (simp_all add: cp_ok_def ex_cp_def Checkpoint_create_def Let_def str_ok_def ex_signer_def ex_now_def ts_ok_def)
      (simp_all add: ex_ext_def ex_pre_def)
  moreover have "cp_sealed (ex_cp\<lparr>cp_signature := Sig []\<rparr>) \<noteq> cp_sealed (ex_cp\<lparr>cp_sealed := False, cp_signature := Sig []\<rparr>)"
    using calculation(2) by simp
  ultimately show ?thesis
    using signed_body_commits [OF ex_chrono(1), of ex_cp "ex_cp\<lparr>cp_sealed := False\<rparr>"]
    by (auto simp: cp_ok_def dest: arg_cong [where f = cp_sealed])
qed

text \<open>No checkpoint signature can be passed off as covering an audit record, nor the other way round.\<close>

lemma signatures_are_domain_separated: "signed_body D c \<noteq> canonical_body D r"
  by (rule magic_separates)



text \<open>
  C6. When the periodic checkpoint that follows a durable append cannot be written, \<open>append\<close> returns an
  error although the record is on disk and is the new head of the chain.
\<close>

theorem append_reports_error_for_durable_record:
  assumes "\<not> segment_full L" "io_random i = Some rid" "rec_to_json D (stamp D L (io_now i) rid r0) = Some js"
    and "io_write i = WriteOk" "lc_checkpoint_every (al_cfg L) \<le> in_records_since_ckpt (al_inner L) + 1"
    and "io_ckpt i = FileFailed n"
  shows "linked D L (stamp D L (io_now i) rid r0) (snd (ledger_append D L i r0)) \<and>
    \<not> is_ok (fst (ledger_append D L i r0))"
  using append_checkpoint_failure [OF assms, of "fst (ledger_append D L i r0)" "snd (ledger_append D L i r0)"]
  by auto

theorem append_reports_error_for_durable_record_witness:
  "\<not> is_ok (fst (ledger_append ex_env (ex_L0\<lparr>al_cfg := ex_cfg\<lparr>lc_checkpoint_every := 1\<rparr>\<rparr>)
      (ex_io\<lparr>io_ckpt := FileFailed None\<rparr>) ex_r))"
proof -
  have "stamp ex_env (ex_L0\<lparr>al_cfg := ex_cfg\<lparr>lc_checkpoint_every := 1\<rparr>\<rparr>) ex_now ''id'' ex_r = ex_rec1"
    by (simp add: ex_rec1_def stamp_def Let_def ex_L0_def fresh_ledger_def)
  then show ?thesis
    using append_reports_error_for_durable_record
      [of "ex_L0\<lparr>al_cfg := ex_cfg\<lparr>lc_checkpoint_every := 1\<rparr>\<rparr>" "ex_io\<lparr>io_ckpt := FileFailed None\<rparr>" "''id''" ex_env
        ex_r "[65]" None]
    by (simp add: segment_full_def ex_L0_def fresh_ledger_def ex_cfg_def ex_io_def)
qed

text \<open>
  C7. A restart is transparent while the ledger is in its first segment or has just rolled: reopening the
  directory recovers the same segment, sequence number, chain head and record count.
\<close>

theorem reopen_recovers_state:
  assumes "ledger_reach D (fresh_ledger cfg sg pid) n L" "Suc n < 2 ^ 64"
    and "signer_ok D sg" "serde_ok D" "0 < lc_segment_max_records cfg" "oi_mkdir oi" "oi_open oi"
    and "in_segment_id (al_inner L) = 1 \<or> in_records_in_segment (al_inner L) = 0"
  shows "fst (open_ledger D (al_disk L) cfg sg pid' oi) =
    Ok (L\<lparr>al_process_id := pid', al_inner := (al_inner L)\<lparr>in_records_since_ckpt := 0\<rparr>\<rparr>)"
proof -
  from fresh_reach_inv [OF assms(1-5)] obtain gs where gs: "ledger_inv D L gs" "no_gap gs" "al_signer L = sg"
      "al_cfg L = cfg" "room gs" by blast
  have "length gs = 1 \<or> last gs = []" using inv_shape [OF gs(1,5)] assms(8) by blast
  with reopen [OF gs(1,5,2) assms(4,6,7)] gs(3,4) show ?thesis by auto
qed

theorem reopen_recovers_state_witness:
  "fst (open_ledger ex_env (al_disk ex_L1) ex_cfg ex_signer ''q'' ex_open) =
    Ok (ex_L1\<lparr>al_process_id := ''q'', al_inner := (al_inner ex_L1)\<lparr>in_records_since_ckpt := 0\<rparr>\<rparr>)"
  by (rule reopen_recovers_state [OF ex_reach1 [unfolded ex_L0_def] _ ex_signer_ok ex_serde])
    (simp_all add: ex_cfg_def ex_open_def ex_L1_def)

text \<open>
  C8. Once the ledger has rolled and written to a later segment, \<open>open\<close> refuses the directory the writer
  itself left: the recovery check compares the first record of the last segment with the genesis hash.
\<close>

theorem reopen_after_roll_refused:
  assumes "ledger_reach D (fresh_ledger cfg sg pid) n L" "Suc n < 2 ^ 64"
    and "signer_ok D sg" "serde_ok D" "0 < lc_segment_max_records cfg" "oi_mkdir oi" "oi_open oi"
    and "in_segment_id (al_inner L) \<noteq> 1" "in_records_in_segment (al_inner L) \<noteq> 0"
    and "list_all (\<lambda>r. ar_record_hash r \<noteq> digest_zero) (ledger_records D (al_disk L))"
  shows "\<exists>sq. fst (open_ledger D (al_disk L) cfg sg pid' oi) = Err (AE_Integrity (ChainBroken sq))"
proof -
  from fresh_reach_inv [OF assms(1-5)] obtain gs where gs: "ledger_inv D L gs" "no_gap gs" "al_signer L = sg"
      "al_cfg L = cfg" "room gs" by blast
  have "length gs \<noteq> 1" "last gs \<noteq> []" using inv_shape [OF gs(1,5)] assms(8,9) by blast+
  with reopen [OF gs(1,5,2) assms(4,6,7)] gs(3,4) inv_records [OF gs(1,5) assms(4)] assms(10) show ?thesis by auto
qed

theorem reopen_after_roll_refused_witness:
  "\<exists>sq. fst (open_ledger ex_env (al_disk ex_L2) ex_cfg ex_signer ''q'' ex_open) = Err (AE_Integrity (ChainBroken sq))"
  by (rule reopen_after_roll_refused [OF ex_reach2 [unfolded ex_L0_def] _ ex_signer_ok ex_serde])
    (simp_all add: ex_cfg_def ex_open_def ex_records digest_zero_def, simp_all add: ex_L2_def)

text \<open>
  C9. Crash recovery: a write that stopped anywhere before the newline of its line leaves a directory that
  \<open>open\<close> treats, result and healed disk included, like the directory before the write.
\<close>

theorem torn_write_is_healed:
  assumes "ledger_reach D (fresh_ledger cfg sg pid) n L" "Suc n < 2 ^ 64"
    and "signer_ok D sg" "serde_ok D" "0 < lc_segment_max_records cfg"
    and "rec_to_json D r = Some js" "k \<le> length js" "oi_heal_len oi" "oi_heal_sync oi" "oi_mkdir oi"
  shows "open_ledger D (al_disk (snd (write_line L (js @ [10]) (WriteFailed k)))) cfg' sg' pid' oi =
    open_ledger D (al_disk L) cfg' sg' pid' oi"
proof -
  from fresh_reach_inv [OF assms(1-5)] obtain gs where "ledger_inv D L gs" "room gs" by blast
  from crash_reopen [OF this assms(4,6-10)] show ?thesis .
qed

theorem torn_write_is_healed_witness:
  "open_ledger ex_env (al_disk (snd (write_line ex_L1 ([66] @ [10]) (WriteFailed 1)))) ex_cfg ex_signer ''q'' ex_open =
    open_ledger ex_env (al_disk ex_L1) ex_cfg ex_signer ''q'' ex_open"
  by (rule torn_write_is_healed [OF ex_reach1 [unfolded ex_L0_def] _ ex_signer_ok ex_serde _ ex_json(2)])
    (simp_all add: ex_cfg_def ex_open_def)

text \<open>
  In the off and digest-only modes no raw content reaches the hashed and stored record; its digest does,
  unless the caller supplied one. In the other modes the content is kept.
\<close>

lemma stamped_content:
  "ar_content (stamp D L now rid r) = (if digest_mode (lc_content_mode (al_cfg L)) then None else ar_content r) \<and>
   ar_input_digest (stamp D L now rid r) =
     (case ar_content r of
        Some c \<Rightarrow> if digest_mode (lc_content_mode (al_cfg L)) \<and> ar_input_digest r = None
                 then Some (digest_of D (str_bytes c)) else ar_input_digest r
      | None \<Rightarrow> ar_input_digest r)"
  by (simp add: stamp_def Let_def apply_content_mode_content apply_content_mode_digest digest_of_def split: option.split) auto

text \<open>A signing key that \<open>load_or_create\<close> has created and stored is the key it returns from then on.\<close>

lemma signing_key_persists:
  assumes "length seed = 32" "load_or_create D None b (Some seed) sv = (Ok sg, stored)"
  shows "load_or_create D stored True rand sv' = (Ok sg, stored)"
  using assms by (auto simp: load_or_create_def signer_generate_def signer_save_def split: option.splits)

lemma signing_key_persists_example:
  "load_or_create ex_env (Some (replicate 32 3)) True None None = (Ok (from_seed ex_env (replicate 32 3)), Some (replicate 32 3))"
  by (rule signing_key_persists [of "replicate 32 3" _ False None])
    (simp_all add: load_or_create_def signer_generate_def signer_save_def)

text \<open>Segment files are found under the number they were written with, and checkpoints never share a file.\<close>

lemma segment_names_round_trip:
  "Option.bind (strip_suffix ''.jsonl'' (segment_filename n)) from_str_radix16 = Some n \<and>
   (checkpoint_filename m = checkpoint_filename m' \<longleftrightarrow> m = m')"
  by (simp add: segment_filename_id)

text \<open>No two audit actions share an identifier.\<close>

lemma action_ids_distinct: "distinct (map fst action_ids) \<and> distinct (map snd action_ids)"
  by code_simp

end
